theory Spec2Isabelle
  imports Complex_Main "HOL-Library.Sublist" "HOL-Library.Multiset"
begin

section \<open>Strings\<close>

text \<open>
  JavaScript strings are modelled as \<open>string\<close> (lists of 8-bit characters). The helpers
  below follow the \<open>String.prototype\<close> methods the sources call, on ASCII text:
  \<open>toLowerCase\<close> folds \<open>A\<close>..\<open>Z\<close> only and the whitespace class is the ASCII part of
  the regular expression class \<open>\s\<close>.
\<close>

definition toLowerChar :: "char \<Rightarrow> char" where
  "toLowerChar c =
     (let n = (of_char c :: nat) in if 65 \<le> n \<and> n \<le> 90 then char_of (n + 32) else c)"

definition toLowerCase :: "string \<Rightarrow> string" where
  "toLowerCase s = map toLowerChar s"

text \<open>\<open>s.includes(k)\<close>: \<open>k\<close> occurs in \<open>s\<close> as a contiguous substring.\<close>

fun includes_str :: "string \<Rightarrow> string \<Rightarrow> bool" where
  "includes_str [] k = (k = [])"
| "includes_str (c # cs) k = (prefix k (c # cs) \<or> includes_str cs k)"

text \<open>\<open>s.split(sep)\<close> for a one-character separator; the result is never empty.\<close>

fun split_char :: "char \<Rightarrow> string \<Rightarrow> string list" where
  "split_char sep [] = [[]]"
| "split_char sep (c # cs) =
     (if c = sep then [] # split_char sep cs
      else (case split_char sep cs of
              [] \<Rightarrow> [[c]]
            | w # ws \<Rightarrow> (c # w) # ws))"

definition isSpace :: "char \<Rightarrow> bool" where
  "isSpace c = (c \<in> set [CHR '' '', CHR 0x09, CHR 0x0A, CHR 0x0B, CHR 0x0C, CHR 0x0D])"

text \<open>\<open>s.split(/\s+/)\<close>: the separators are the maximal runs of whitespace.\<close>

function split_ws :: "string \<Rightarrow> string list" where
  "split_ws [] = [[]]"
| "split_ws (c # cs) =
     (if isSpace c then [] # split_ws (dropWhile isSpace cs)
      else (case split_ws cs of
              [] \<Rightarrow> [[c]]
            | w # ws \<Rightarrow> (c # w) # ws))"
  by pat_completeness auto
termination
  by (relation "measure length") (auto simp: length_dropWhile_le less_Suc_eq_le)

section \<open>Intent parsers\<close>

text \<open>
  Each adapter owns a \<open>parseInput\<close> with its own keyword tables. A table is an object
  literal whose entries are visited in declaration order (\<open>Object.entries\<close>), so it is
  an association list here. The detection loops
  \<^verbatim>\<open>for (const [cat, keywords] of Object.entries(table)) {
       if (keywords.some(keyword => input.includes(keyword))) { detected = cat; break; } }\<close>
  leave the initial value of \<open>detected\<close> in place when no category matches.
\<close>

type_synonym keyword_table = "(string \<times> string list) list"

definition some_includes :: "string \<Rightarrow> string list \<Rightarrow> bool" where
  "some_includes input keywords = list_ex (\<lambda>keyword. includes_str input keyword) keywords"

fun detect :: "keyword_table \<Rightarrow> string \<Rightarrow> string \<Rightarrow> string" where
  "detect [] input detected = detected"
| "detect ((cat, keywords) # rest) input detected =
     (if some_includes input keywords then cat else detect rest input detected)"

text \<open>No category of the table has a keyword occurring in the (lower-cased) input.\<close>

definition noCategoryMatches :: "keyword_table \<Rightarrow> string \<Rightarrow> bool" where
  "noCategoryMatches table input = (\<not> list_ex (\<lambda>(cat, keywords). some_includes input keywords) table)"

text \<open>\<open>detectedVibe || vibeInput.split(' ')[0]\<close>: the empty string is falsy.\<close>

definition vibeOrFirstWord :: "string \<Rightarrow> string \<Rightarrow> string" where
  "vibeOrFirstWord detectedVibe vibeInput =
     (if detectedVibe \<noteq> [] then detectedVibe else hd (split_char CHR '' '' vibeInput))"

record ParsedInput =
  vibe :: string
  environment :: string
  speed :: string
  genre :: string

subsection \<open>Spotify\<close>

datatype Energy = Low | Medium | High

datatype Valence = Negative | Neutral | Positive

record SpotifyParsedInput = ParsedInput +
  energy :: Energy
  valence :: Valence

definition Spotify_environments :: keyword_table where
  "Spotify_environments =
    [(''gym'', [''gym'', ''workout'', ''fitness'', ''training'', ''exercise'']),
     (''study'', [''study'', ''focus'', ''concentration'', ''work'', ''office'']),
     (''party'', [''party'', ''dance'', ''club'', ''celebration'', ''rave'']),
     (''sleep'', [''sleep'', ''bedtime'', ''night'', ''relax'', ''calm'']),
     (''drive'', [''drive'', ''car'', ''road'', ''travel'', ''cruise'']),
     (''cafe'', [''cafe'', ''coffee'', ''background'', ''ambient''])]"

definition Spotify_speedPatterns :: keyword_table where
  "Spotify_speedPatterns =
    [(''slow'', [''slow'', ''chill'', ''relaxed'', ''mellow'', ''downtempo'', ''peaceful'']),
     (''medium'', [''medium'', ''moderate'', ''steady'', ''groove'', ''normal'']),
     (''fast'', [''fast'', ''upbeat'', ''energetic'', ''high tempo'', ''uptempo'', ''intense''])]"

definition Spotify_vibePatterns :: keyword_table where
  "Spotify_vibePatterns =
    [(''sad'', [''sad'', ''melancholy'', ''depressing'', ''emotional'', ''crying'', ''heartbreak'']),
     (''happy'', [''happy'', ''joyful'', ''cheerful'', ''positive'', ''uplifting'', ''excited'']),
     (''chill'', [''chill'', ''lofi'', ''calm'', ''peaceful'', ''zen'', ''ambient'']),
     (''energetic'', [''energetic'', ''hype'', ''pump'', ''motivational'', ''power'', ''intense'']),
     (''romantic'', [''romantic'', ''love'', ''heart'', ''valentine'', ''couple'', ''intimate'']),
     (''dark'', [''dark'', ''gothic'', ''moody'', ''atmospheric'', ''mysterious''])]"

definition Spotify_genreKeywords :: keyword_table where
  "Spotify_genreKeywords =
    [(''electronic'', [''electronic'', ''edm'', ''house'', ''techno'', ''dubstep'']),
     (''hip-hop'', [''hip hop'', ''rap'', ''trap'', ''hip-hop'']),
     (''rock'', [''rock'', ''metal'', ''punk'', ''alternative'']),
     (''pop'', [''pop'', ''mainstream'', ''chart'']),
     (''jazz'', [''jazz'', ''swing'', ''blues'']),
     (''classical'', [''classical'', ''orchestra'', ''symphony'']),
     (''folk'', [''folk'', ''country'', ''acoustic'']),
     (''r&b'', [''r&b'', ''soul'', ''funk'']),
     (''indie'', [''indie'', ''independent'', ''underground''])]"

definition Spotify_parseInput :: "string \<Rightarrow> SpotifyParsedInput" where
  "Spotify_parseInput vibeInput =
     (let input = toLowerCase vibeInput;
          detectedEnvironment = detect Spotify_environments input '''';
          detectedSpeed = detect Spotify_speedPatterns input ''medium'';
          detectedVibe = detect Spotify_vibePatterns input '''';
          energy = (if detectedSpeed = ''fast'' then High
                    else if detectedSpeed = ''slow'' then Low else Medium);
          valence = (if detectedVibe \<in> set [''sad'', ''dark''] then Negative
                     else if detectedVibe \<in> set [''happy'', ''energetic''] then Positive
                     else Neutral);
          genre = detect Spotify_genreKeywords input ''''
      in \<lparr> vibe = vibeOrFirstWord detectedVibe vibeInput,
           environment = detectedEnvironment,
           speed = detectedSpeed,
           genre = genre,
           energy = energy,
           valence = valence \<rparr>)"

subsection \<open>YouTube\<close>

record YouTubeParsedInput = ParsedInput +
  isAnime :: bool

definition YouTube_environments :: keyword_table where
  "YouTube_environments =
    [(''gym'', [''gym'', ''workout'', ''fitness'', ''training'', ''exercise'']),
     (''study'', [''study'', ''focus'', ''concentration'', ''work'', ''office'']),
     (''party'', [''party'', ''dance'', ''club'', ''celebration'', ''rave'']),
     (''sleep'', [''sleep'', ''bedtime'', ''night'', ''relax'', ''calm'']),
     (''drive'', [''drive'', ''car'', ''road'', ''travel'', ''cruise'']),
     (''cafe'', [''cafe'', ''coffee'', ''background'', ''ambient''])]"

definition YouTube_speeds :: keyword_table where
  "YouTube_speeds =
    [(''slow'', [''slow'', ''chill'', ''relaxed'', ''mellow'', ''downtempo'', ''peaceful'']),
     (''medium'', [''medium'', ''moderate'', ''steady'', ''groove'', ''normal'']),
     (''fast'', [''fast'', ''upbeat'', ''energetic'', ''high tempo'', ''uptempo'', ''intense''])]"

definition YouTube_vibes :: keyword_table where
  "YouTube_vibes =
    [(''sad'', [''sad'', ''melancholy'', ''depressing'', ''emotional'', ''crying'']),
     (''happy'', [''happy'', ''joyful'', ''cheerful'', ''positive'', ''uplifting'']),
     (''chill'', [''chill'', ''lofi'', ''calm'', ''peaceful'', ''zen'']),
     (''energetic'', [''energetic'', ''hype'', ''pump'', ''motivational'', ''power'']),
     (''romantic'', [''romantic'', ''love'', ''heart'', ''valentine'', ''couple'']),
     (''dark'', [''dark'', ''gothic'', ''scary'', ''horror'', ''evil''])]"

definition animeKeywords :: "string list" where
  "animeKeywords =
    [''anime'', ''naruto'', ''bleach'', ''one piece'', ''dragon ball'', ''attack on titan'',
     ''demon slayer'', ''my hero academia'', ''death note'', ''tokyo ghoul'', ''fullmetal'',
     ''cowboy bebop'', ''evangelion'', ''jojo'', ''hunter x hunter'', ''fairy tail'',
     ''sword art online'', ''japanese'', ''ost'', ''soundtrack'', ''opening'', ''ending'',
     ''op'', ''ed'', ''theme song'', ''shippuden'', ''boruto'', ''chakra'', ''ninja'',
     ''sasuke'', ''sakura'', ''kakashi'', ''itachi'', ''madara'', ''hokage'']"

definition YouTube_parseInput :: "string \<Rightarrow> YouTubeParsedInput" where
  "YouTube_parseInput vibeInput =
     (let input = toLowerCase vibeInput;
          isAnime = some_includes input animeKeywords;
          detectedEnvironment = detect YouTube_environments input '''';
          detectedSpeed = detect YouTube_speeds input '''';
          detectedVibe = detect YouTube_vibes input '''';
          genre = (if includes_str input ''lofi''
                      \<or> (detectedVibe = ''chill'' \<and> detectedEnvironment = ''study'') then ''lofi''
                   else if includes_str input ''edm'' \<or> includes_str input ''electronic'' then ''EDM''
                   else if isAnime then ''anime''
                   else '''')
      in \<lparr> vibe = vibeOrFirstWord detectedVibe vibeInput,
           environment = detectedEnvironment,
           speed = detectedSpeed,
           genre = genre,
           isAnime = isAnime \<rparr>)"

subsection \<open>SoundCloud\<close>

definition SoundCloud_environments :: keyword_table where
  "SoundCloud_environments =
    [(''gym'', [''gym'', ''workout'', ''fitness'', ''training'', ''exercise'']),
     (''study'', [''study'', ''focus'', ''concentration'', ''work'', ''office'']),
     (''party'', [''party'', ''dance'', ''club'', ''celebration'', ''rave'']),
     (''sleep'', [''sleep'', ''bedtime'', ''night'', ''relax'', ''calm'']),
     (''drive'', [''drive'', ''car'', ''road'', ''travel'', ''cruise'']),
     (''cafe'', [''cafe'', ''coffee'', ''background'', ''ambient''])]"

definition SoundCloud_speeds :: keyword_table where
  "SoundCloud_speeds =
    [(''slow'', [''slow'', ''chill'', ''relaxed'', ''mellow'', ''downtempo'', ''peaceful'']),
     (''medium'', [''medium'', ''moderate'', ''steady'', ''groove'', ''normal'']),
     (''fast'', [''fast'', ''upbeat'', ''energetic'', ''high tempo'', ''uptempo'', ''intense''])]"

definition SoundCloud_vibes :: keyword_table where
  "SoundCloud_vibes =
    [(''sad'', [''sad'', ''melancholy'', ''depressing'', ''emotional'', ''crying'']),
     (''happy'', [''happy'', ''joyful'', ''cheerful'', ''positive'', ''uplifting'']),
     (''chill'', [''chill'', ''lofi'', ''calm'', ''peaceful'', ''zen'']),
     (''energetic'', [''energetic'', ''hype'', ''pump'', ''motivational'', ''power'']),
     (''romantic'', [''romantic'', ''love'', ''heart'', ''valentine'', ''couple'']),
     (''dark'', [''dark'', ''gothic'', ''scary'', ''horror'', ''evil''])]"

definition SoundCloud_parseInput :: "string \<Rightarrow> ParsedInput" where
  "SoundCloud_parseInput vibeInput =
     (let input = toLowerCase vibeInput;
          detectedEnvironment = detect SoundCloud_environments input '''';
          detectedSpeed = detect SoundCloud_speeds input '''';
          detectedVibe = detect SoundCloud_vibes input '''';
          genre = (if includes_str input ''lofi''
                      \<or> (detectedVibe = ''chill'' \<and> detectedEnvironment = ''study'') then ''lofi''
                   else if includes_str input ''edm'' \<or> includes_str input ''electronic''
                     then ''electronic''
                   else if includes_str input ''hip hop'' \<or> includes_str input ''rap'' then ''hip-hop''
                   else if includes_str input ''jazz'' then ''jazz''
                   else if includes_str input ''rock'' then ''rock''
                   else '''')
      in \<lparr> vibe = vibeOrFirstWord detectedVibe vibeInput,
           environment = detectedEnvironment,
           speed = detectedSpeed,
           genre = genre \<rparr>)"

section \<open>The aggregator (UnifiedMusicService)\<close>

subsection \<open>Tracks\<close>

text \<open>
  Field names shared by several interfaces of the source carry the interface's prefix
  here (\<open>yt_\<close>, \<open>sc_\<close>, \<open>sp_\<close>); the fields of \<open>UnifiedTrack\<close> keep their names,
  except \<open>id\<close> and \<open>genre\<close>, which are \<open>trackId\<close> and \<open>trackGenre\<close>. Durations are whole
  seconds and popularity counts are non-negative, as every adapter produces them.
\<close>

datatype MusicProvider = youtube | soundcloud | spotify

fun providerName :: "MusicProvider \<Rightarrow> string" where
  "providerName youtube = ''youtube''"
| "providerName soundcloud = ''soundcloud''"
| "providerName spotify = ''spotify''"

record YouTubeTrack =
  videoId :: string
  yt_title :: string
  channelTitle :: string
  yt_duration :: int
  yt_thumbnail :: string
  yt_publishedAt :: string
  viewCount :: nat

record SoundCloudTrack =
  sc_id :: string
  sc_title :: string
  sc_artist :: string
  sc_duration :: int
  sc_thumbnail :: string
  sc_streamUrl :: string
  sc_publishedAt :: string
  playCount :: nat
  sc_genre :: "string option"
  sc_description :: "string option"
  sc_waveformUrl :: "string option"
  sc_permalink :: string

record SpotifyAudioFeatures =
  af_danceability :: real
  af_energy :: real
  af_key :: real
  af_loudness :: real
  af_mode :: real
  af_speechiness :: real
  af_acousticness :: real
  af_instrumentalness :: real
  af_liveness :: real
  af_valence :: real
  af_tempo :: real
  af_timeSignature :: real

record SpotifyTrack =
  sp_id :: string
  sp_title :: string
  sp_artist :: string
  sp_album :: string
  sp_duration :: int
  sp_thumbnail :: string
  previewUrl :: string
  spotifyUrl :: string
  sp_popularity :: nat
  releaseDate :: string
  genres :: "string list"
  audioFeatures :: "SpotifyAudioFeatures option"

record UnifiedTrack =
  trackId :: string
  title :: string
  artist :: string
  duration :: int
  thumbnail :: string
  publishedAt :: string
  popularity :: nat
  provider :: MusicProvider
  streamUrl :: "string option"
  trackGenre :: "string option"
  permalink :: "string option"
  waveformUrl :: "string option"

record 't SearchResponse =
  tracks :: "'t list"
  totalResults :: nat

record UnifiedSearchResponse = "UnifiedTrack SearchResponse" +
  providers :: "MusicProvider list"
  searchTime :: int

definition transformYouTubeTrack :: "YouTubeTrack \<Rightarrow> UnifiedTrack" where
  "transformYouTubeTrack track =
     \<lparr> trackId = videoId track,
       title = yt_title track,
       artist = channelTitle track,
       duration = yt_duration track,
       thumbnail = yt_thumbnail track,
       publishedAt = yt_publishedAt track,
       popularity = viewCount track,
       provider = youtube,
       streamUrl = Some (''/api/youtube/stream/'' @ videoId track),
       trackGenre = None,
       permalink = None,
       waveformUrl = None \<rparr>"

definition transformSoundCloudTrack :: "SoundCloudTrack \<Rightarrow> UnifiedTrack" where
  "transformSoundCloudTrack track =
     \<lparr> trackId = sc_id track,
       title = sc_title track,
       artist = sc_artist track,
       duration = sc_duration track,
       thumbnail = sc_thumbnail track,
       publishedAt = sc_publishedAt track,
       popularity = playCount track,
       provider = soundcloud,
       streamUrl = Some (''/api/soundcloud/stream/'' @ sc_id track),
       trackGenre = sc_genre track,
       permalink = Some (sc_permalink track),
       waveformUrl = sc_waveformUrl track \<rparr>"

definition transformSpotifyTrack :: "SpotifyTrack \<Rightarrow> UnifiedTrack" where
  "transformSpotifyTrack track =
     \<lparr> trackId = sp_id track,
       title = sp_title track,
       artist = sp_artist track,
       duration = sp_duration track,
       thumbnail = sp_thumbnail track,
       publishedAt = releaseDate track,
       popularity = sp_popularity track,
       provider = spotify,
       streamUrl = Some (previewUrl track),
       trackGenre = (case genres track of [] \<Rightarrow> None | g # _ \<Rightarrow> Some g),
       permalink = Some (spotifyUrl track),
       waveformUrl = None \<rparr>"

subsection \<open>Configuration\<close>

record ProviderConfig =
  enabled :: bool
  priority :: int
  timeout :: int

text \<open>
  The \<open>providers\<close> object of a \<open>SearchConfig\<close> has one \<open>ProviderConfig\<close> per provider;
  \<open>Object.entries\<close> visits them in the order in which the object's keys were created,
  which \<open>providerKeys\<close> records.
\<close>

record ProvidersObject =
  providerKeys :: "MusicProvider list"
  providerConfig :: "MusicProvider \<Rightarrow> ProviderConfig"

record SearchConfig =
  cfg_providers :: ProvidersObject
  maxResults :: int
  fallbackEnabled :: bool

text \<open>\<open>Partial<SearchConfig>\<close>: \<open>None\<close> is an absent property.\<close>

record PartialSearchConfig =
  opt_providers :: "ProvidersObject option"
  opt_maxResults :: "int option"
  opt_fallbackEnabled :: "bool option"

definition defaultConfig :: SearchConfig where
  "defaultConfig =
     \<lparr> cfg_providers =
         \<lparr> providerKeys = [spotify, youtube, soundcloud],
           providerConfig = (\<lambda>p. case p of
               spotify \<Rightarrow> \<lparr> enabled = True, priority = 1, timeout = 8000 \<rparr>
             | youtube \<Rightarrow> \<lparr> enabled = True, priority = 2, timeout = 15000 \<rparr>
             | soundcloud \<Rightarrow> \<lparr> enabled = False, priority = 3, timeout = 10000 \<rparr>) \<rparr>,
       maxResults = 10,
       fallbackEnabled = True \<rparr>"

text \<open>\<open>{ ...this.defaultConfig, ...config }\<close>: a shallow merge, property by property.\<close>

definition mergeConfig :: "SearchConfig \<Rightarrow> PartialSearchConfig \<Rightarrow> SearchConfig" where
  "mergeConfig dflt config =
     \<lparr> cfg_providers = (case opt_providers config of None \<Rightarrow> cfg_providers dflt | Some ps \<Rightarrow> ps),
       maxResults = (case opt_maxResults config of None \<Rightarrow> maxResults dflt | Some m \<Rightarrow> m),
       fallbackEnabled =
         (case opt_fallbackEnabled config of None \<Rightarrow> fallbackEnabled dflt | Some f \<Rightarrow> f) \<rparr>"

text \<open>
  \<open>Object.entries(providers).filter(enabled).sort(by priority).map(name)\<close>; the sort is
  stable, as \<open>Array.prototype.sort\<close> is.
\<close>

definition enabledProviders :: "SearchConfig \<Rightarrow> MusicProvider list" where
  "enabledProviders searchConfig =
     (let ps = cfg_providers searchConfig;
          entries = map (\<lambda>p. (p, providerConfig ps p)) (providerKeys ps)
      in map fst (sort_key (\<lambda>(p, c). priority c) (filter (\<lambda>(p, c). enabled c) entries)))"

subsection \<open>Promises, the adapters as seen by the aggregator\<close>

text \<open>
  A promise either settles some milliseconds after it was created or never does.
  \<open>setTimeout(f, ms)\<close> of Node.js runs \<open>f\<close> after \<open>ms\<close> milliseconds, and after 1
  millisecond when \<open>ms\<close> is below 1 or above 2147483647.
  \<open>Promise.race([searchPromise, timeoutPromise])\<close> takes the adapter's settlement when
  it comes before the timer fires and the timer's rejection otherwise;
  \<open>raceSettlesAfter\<close> is the number of milliseconds after which the race settles.
\<close>

datatype error = Error string

datatype 'a settled = Fulfilled 'a | Rejected error

datatype 'a promise = Resolves nat 'a | Rejects nat error | NeverSettles

definition setTimeoutDelay :: "int \<Rightarrow> nat" where
  "setTimeoutDelay ms = (if 1 \<le> ms \<and> ms \<le> 2147483647 then nat ms else 1)"

definition raceWithTimeout :: "'a promise \<Rightarrow> MusicProvider \<Rightarrow> int \<Rightarrow> 'a settled" where
  "raceWithTimeout searchPromise p ms =
     (let timedOut = Rejected (Error (providerName p @ '' search timeout''))
      in case searchPromise of
           Resolves d result \<Rightarrow> if d < setTimeoutDelay ms then Fulfilled result else timedOut
         | Rejects d e \<Rightarrow> if d < setTimeoutDelay ms then Rejected e else timedOut
         | NeverSettles \<Rightarrow> timedOut)"

definition raceSettlesAfter :: "'a promise \<Rightarrow> int \<Rightarrow> nat" where
  "raceSettlesAfter searchPromise ms =
     (case searchPromise of
        Resolves d result \<Rightarrow> min d (setTimeoutDelay ms)
      | Rejects d e \<Rightarrow> min d (setTimeoutDelay ms)
      | NeverSettles \<Rightarrow> setTimeoutDelay ms)"

text \<open>
  Within one call of \<open>searchMusic\<close> an adapter is invoked at most once by the loop over
  the providers and at most once by the parallel fallback; the two invocations may
  settle differently. A fulfilled adapter gives its response, or \<open>None\<close> for a falsy
  value or one without \<open>tracks\<close>.
\<close>

datatype Phase = Sequential | Parallel

record Services =
  youtubeService :: "Phase \<Rightarrow> string \<Rightarrow> YouTubeTrack SearchResponse option promise"
  soundcloudService :: "Phase \<Rightarrow> string \<Rightarrow> SoundCloudTrack SearchResponse option promise"
  spotifyService :: "Phase \<Rightarrow> string \<Rightarrow> SpotifyTrack SearchResponse option promise"

text \<open>
  \<open>searchProvider\<close> wraps the race and the transformation in \<open>try\<close>; its \<open>catch\<close> logs
  the error and returns the empty list.
\<close>

definition afterRace :: "('t \<Rightarrow> UnifiedTrack) \<Rightarrow> 't SearchResponse option settled \<Rightarrow> UnifiedTrack list settled"
  where
  "afterRace transform raced =
     (case raced of
        Fulfilled result \<Rightarrow>
          (case result of
             None \<Rightarrow> Fulfilled []
           | Some r \<Rightarrow> Fulfilled (map transform (tracks r)))
      | Rejected e \<Rightarrow> Fulfilled [])"

definition searchProvider ::
  "Services \<Rightarrow> Phase \<Rightarrow> MusicProvider \<Rightarrow> string \<Rightarrow> int \<Rightarrow> UnifiedTrack list settled" where
  "searchProvider svc ph p vibeInput ms =
     (case p of
        youtube \<Rightarrow>
          afterRace transformYouTubeTrack (raceWithTimeout (youtubeService svc ph vibeInput) p ms)
      | soundcloud \<Rightarrow>
          afterRace transformSoundCloudTrack (raceWithTimeout (soundcloudService svc ph vibeInput) p ms)
      | spotify \<Rightarrow>
          afterRace transformSpotifyTrack (raceWithTimeout (spotifyService svc ph vibeInput) p ms))"

text \<open>
  The promise of \<open>searchProvider\<close> settles when the race does: what follows the
  \<open>await\<close> runs without waiting.
\<close>

definition searchProviderSettlesAfter ::
  "Services \<Rightarrow> Phase \<Rightarrow> MusicProvider \<Rightarrow> string \<Rightarrow> int \<Rightarrow> nat" where
  "searchProviderSettlesAfter svc ph p vibeInput ms =
     (case p of
        youtube \<Rightarrow> raceSettlesAfter (youtubeService svc ph vibeInput) ms
      | soundcloud \<Rightarrow> raceSettlesAfter (soundcloudService svc ph vibeInput) ms
      | spotify \<Rightarrow> raceSettlesAfter (spotifyService svc ph vibeInput) ms)"

subsection \<open>Scoring and ranking\<close>

text \<open>
  \<open>scoreTrack\<close> reads the clock: \<open>now\<close> is the value of \<open>Date.now()\<close> at that call, and
  \<open>parseDate\<close> is \<open>new Date(s).getTime()\<close>, with \<open>None\<close> for an invalid date. Scores are
  real numbers here (the source computes them in double precision).
\<close>

definition popularityScore :: "UnifiedTrack \<Rightarrow> real" where
  "popularityScore track =
     (let maxPopularity = (if provider track = youtube then 10000000 else 1000000 :: real)
      in min (log 10 (real (popularity track) + 1) / log 10 maxPopularity) 1 * 10)"

definition providerScore :: "UnifiedTrack \<Rightarrow> real" where
  "providerScore track =
     (case provider track of spotify \<Rightarrow> 8 | soundcloud \<Rightarrow> 5 | youtube \<Rightarrow> 3)"

definition titleRelevance :: "UnifiedTrack \<Rightarrow> string \<Rightarrow> real" where
  "titleRelevance track context =
     (let searchWords = filter (\<lambda>word. length word > 2) (split_ws context)
      in 3 * real (length (filter (\<lambda>word. includes_str (toLowerCase (title track)) word) searchWords)))"

definition durationPreference :: "UnifiedTrack \<Rightarrow> real" where
  "durationPreference track =
     (let durationMin = real_of_int (duration track) / 60
      in if durationMin \<ge> 3 \<and> durationMin \<le> 6 then 3
         else if durationMin \<ge> 2 \<and> durationMin \<le> 8 then 2
         else if durationMin > 10 then - 2
         else 0)"

definition genreMatch :: "UnifiedTrack \<Rightarrow> string \<Rightarrow> real" where
  "genreMatch track context =
     (case trackGenre track of
        None \<Rightarrow> 0
      | Some g \<Rightarrow> if g \<noteq> [] \<and> includes_str context (toLowerCase g) then 4 else 0)"

definition publishedWithinYear :: "(string \<Rightarrow> int option) \<Rightarrow> int \<Rightarrow> UnifiedTrack \<Rightarrow> bool" where
  "publishedWithinYear parseDate now track =
     (case parseDate (publishedAt track) of
        None \<Rightarrow> False
      | Some t \<Rightarrow> real_of_int (now - t) / (1000 * 60 * 60 * 24 * 30) < 12)"

definition scoreTrack :: "(string \<Rightarrow> int option) \<Rightarrow> int \<Rightarrow> UnifiedTrack \<Rightarrow> string \<Rightarrow> real" where
  "scoreTrack parseDate now track searchContext =
     (let context = toLowerCase searchContext
      in popularityScore track + providerScore track + titleRelevance track context
         + durationPreference track + genreMatch track context
         + (if publishedWithinYear parseDate now track then 2 else 0))"

text \<open>The key of the duplicate filter: \<^verbatim>\<open>`${title.toLowerCase()}-${artist.toLowerCase()}`\<close>.\<close>

definition dedupKey :: "UnifiedTrack \<Rightarrow> string" where
  "dedupKey t = toLowerCase (title t) @ ''-'' @ toLowerCase (artist t)"

text \<open>\<open>arr.findIndex(pred)\<close>: the first index whose element satisfies \<open>pred\<close>, else \<open>-1\<close>.\<close>

fun findIndex :: "('a \<Rightarrow> bool) \<Rightarrow> 'a list \<Rightarrow> int" where
  "findIndex pred [] = - 1"
| "findIndex pred (x # xs) =
     (if pred x then 0 else (let i = findIndex pred xs in if i < 0 then - 1 else i + 1))"

text \<open>
  \<^verbatim>\<open>arr.filter((x, index, arr) => arr.findIndex(t => key(t) === key(x)) === index)\<close>
\<close>

definition uniqueBy :: "('a \<Rightarrow> 'k) \<Rightarrow> 'a list \<Rightarrow> 'a list" where
  "uniqueBy key arr =
     map snd (filter (\<lambda>(index, x). findIndex (\<lambda>t. key t = key x) arr = int index)
              (enumerate 0 arr))"

definition uniqueTracks :: "UnifiedTrack list \<Rightarrow> UnifiedTrack list" where
  "uniqueTracks arr = uniqueBy dedupKey arr"

text \<open>\<open>xs.slice(0, end)\<close>; a negative \<open>end\<close> counts from the end of the array.\<close>

definition slice0 :: "'a list \<Rightarrow> int \<Rightarrow> 'a list" where
  "slice0 xs end = (if end < 0 then take (nat (int (length xs) + end)) xs else take (nat end) xs)"

text \<open>
  \<open>clock i\<close> is the reading of \<open>Date.now()\<close> in the \<open>i\<close>-th call of \<open>scoreTrack\<close>. The sort
  by descending score is stable.
\<close>

definition mergeAndRankResults ::
  "(string \<Rightarrow> int option) \<Rightarrow> (nat \<Rightarrow> int) \<Rightarrow> UnifiedTrack list \<Rightarrow> string \<Rightarrow> int \<Rightarrow> UnifiedTrack list"
  where
  "mergeAndRankResults parseDate clock tracksIn searchContext maxRes =
     (let scoredTracks = map (\<lambda>(i, track). (track, scoreTrack parseDate (clock i) track searchContext))
                             (enumerate 0 (uniqueTracks tracksIn))
      in map fst (slice0 (sort_key (\<lambda>(track, score). - score) scoredTracks) maxRes))"

subsection \<open>searchMusic\<close>

record Runtime =
  Date_now :: "nat \<Rightarrow> int"
  Date_parse :: "string \<Rightarrow> int option"

text \<open>
  An invocation of \<open>searchProvider\<close>: the phase and the provider, the time at which the
  call was made and the time at which its promise settled, in milliseconds since
  \<open>searchMusic\<close> was entered. Time passes only while \<open>searchMusic\<close> awaits: it runs
  again when what it awaits has settled, at \<open>resumedAt\<close> of the invocations made so far.
\<close>

record Invocation =
  phase :: Phase
  invoked :: MusicProvider
  startedAt :: nat
  settledAt :: nat

definition invoke ::
  "Services \<Rightarrow> Phase \<Rightarrow> SearchConfig \<Rightarrow> string \<Rightarrow> nat \<Rightarrow> MusicProvider \<Rightarrow> Invocation" where
  "invoke svc ph searchConfig vibeInput t p =
     \<lparr> phase = ph, invoked = p, startedAt = t,
       settledAt = t + searchProviderSettlesAfter svc ph p vibeInput
                         (timeout (providerConfig (cfg_providers searchConfig) p)) \<rparr>"

definition resumedAt :: "Invocation list \<Rightarrow> nat" where
  "resumedAt made = fold (\<lambda>c t. max (settledAt c) t) made 0"

record SearchState =
  allTracks :: "UnifiedTrack list"
  usedProviders :: "MusicProvider list"
  calls :: "Invocation list"

text \<open>
  The loop over the enabled providers: each \<open>searchProvider\<close> is awaited before the next
  provider is tried. \<open>calls\<close> logs the invocations; \<open>Inl\<close> is the error rethrown by the
  \<open>catch\<close> of the loop body.
\<close>

fun sequentialPhase ::
  "Services \<Rightarrow> string \<Rightarrow> SearchConfig \<Rightarrow> MusicProvider list \<Rightarrow> SearchState \<Rightarrow> error + SearchState"
  where
  "sequentialPhase svc vibeInput searchConfig [] st = Inr st"
| "sequentialPhase svc vibeInput searchConfig (p # rest) st =
     (let providerCfg = providerConfig (cfg_providers searchConfig) p;
          st1 = st\<lparr> calls := calls st
                   @ [invoke svc Sequential searchConfig vibeInput (resumedAt (calls st)) p] \<rparr>
      in case searchProvider svc Sequential p vibeInput (timeout providerCfg) of
           Fulfilled found \<Rightarrow>
             if length found > 0 then
               (let st2 = st1\<lparr> allTracks := allTracks st1 @ found,
                               usedProviders := usedProviders st1 @ [p] \<rparr>
                in if int (length (allTracks st2)) \<ge> maxResults searchConfig
                      \<and> \<not> fallbackEnabled searchConfig
                   then Inr st2
                   else sequentialPhase svc vibeInput searchConfig rest st2)
             else sequentialPhase svc vibeInput searchConfig rest st1
         | Rejected e \<Rightarrow>
             if length (enabledProviders searchConfig) = 1 \<and> \<not> fallbackEnabled searchConfig
             then Inl e
             else sequentialPhase svc vibeInput searchConfig rest st1)"

text \<open>
  The parallel fallback: \<open>enabledProviders.map\<close> calls \<open>searchProvider\<close> for every
  enabled provider without awaiting any of them, so all these invocations start at the
  same time; \<open>Promise.allSettled\<close> is awaited and gives one settlement per provider,
  and \<open>forEach\<close> goes over the settlements in the order of the providers.
\<close>

fun mergeSettled :: "(MusicProvider \<times> UnifiedTrack list settled) list \<Rightarrow> SearchState \<Rightarrow> SearchState"
  where
  "mergeSettled [] st = st"
| "mergeSettled ((p, result) # rest) st =
     (case result of
        Fulfilled v \<Rightarrow>
          if length v > 0 \<and> p \<notin> set (usedProviders st)
          then mergeSettled rest (st\<lparr> allTracks := allTracks st @ v,
                                      usedProviders := usedProviders st @ [p] \<rparr>)
          else mergeSettled rest st
      | Rejected e \<Rightarrow> mergeSettled rest st)"

definition parallelFallback :: "Services \<Rightarrow> string \<Rightarrow> SearchConfig \<Rightarrow> SearchState \<Rightarrow> SearchState" where
  "parallelFallback svc vibeInput searchConfig st =
     (let ps = enabledProviders searchConfig;
          parallelResults =
            map (\<lambda>p. searchProvider svc Parallel p vibeInput
                       (timeout (providerConfig (cfg_providers searchConfig) p))) ps
      in mergeSettled (zip ps parallelResults)
           (st\<lparr> calls := calls st
                  @ map (invoke svc Parallel searchConfig vibeInput (resumedAt (calls st))) ps \<rparr>))"

definition afterFallback :: "Services \<Rightarrow> string \<Rightarrow> SearchConfig \<Rightarrow> SearchState \<Rightarrow> SearchState" where
  "afterFallback svc vibeInput searchConfig st =
     (if length (allTracks st) < 3 \<and> fallbackEnabled searchConfig
         \<and> length (enabledProviders searchConfig) > 1
      then parallelFallback svc vibeInput searchConfig st
      else st)"

definition respond :: "Runtime \<Rightarrow> string \<Rightarrow> SearchConfig \<Rightarrow> SearchState \<Rightarrow> UnifiedSearchResponse" where
  "respond rt vibeInput searchConfig st =
     (let startTime = Date_now rt 0;
          rankedTracks = mergeAndRankResults (Date_parse rt) (\<lambda>i. Date_now rt (Suc i))
                           (allTracks st) vibeInput (maxResults searchConfig);
          endTime = Date_now rt (Suc (length (uniqueTracks (allTracks st))))
      in \<lparr> tracks = rankedTracks,
           totalResults = length rankedTracks,
           providers = usedProviders st,
           searchTime = endTime - startTime \<rparr>)"

text \<open>
  \<open>searchMusic_trace\<close> gives the adapter invocations of the call together with its
  outcome: \<open>Inl\<close> for a thrown error, \<open>Inr\<close> for the returned response.
\<close>

definition searchMusic_trace ::
  "Runtime \<Rightarrow> Services \<Rightarrow> string \<Rightarrow> PartialSearchConfig
     \<Rightarrow> Invocation list \<times> (error + UnifiedSearchResponse)" where
  "searchMusic_trace rt svc vibeInput config =
     (let searchConfig = mergeConfig defaultConfig config;
          ps = enabledProviders searchConfig
      in if length ps = 0 then ([], Inl (Error ''No music providers enabled''))
         else case sequentialPhase svc vibeInput searchConfig ps
                     \<lparr> allTracks = [], usedProviders = [], calls = [] \<rparr> of
                Inl e \<Rightarrow> ([], Inl e)
              | Inr st \<Rightarrow>
                  (let st' = afterFallback svc vibeInput searchConfig st
                   in (calls st', Inr (respond rt vibeInput searchConfig st'))))"

definition searchMusic ::
  "Runtime \<Rightarrow> Services \<Rightarrow> string \<Rightarrow> PartialSearchConfig \<Rightarrow> error + UnifiedSearchResponse" where
  "searchMusic rt svc vibeInput config = snd (searchMusic_trace rt svc vibeInput config)"

section \<open>The YouTube adapter\<close>

text \<open>\<open>xs.join(sep)\<close>\<close>

fun joinWith :: "string \<Rightarrow> string list \<Rightarrow> string" where
  "joinWith sep [] = []"
| "joinWith sep [x] = x"
| "joinWith sep (x # y # ys) = x @ sep @ joinWith sep (y # ys)"

definition animeTerms :: "string list" where
  "animeTerms = [''opening'', ''ending'', ''OST'', ''theme'', ''bgm'', ''background music'']"

definition exclusions :: "bool \<Rightarrow> string list" where
  "exclusions isRetry =
     (if isRetry then [''-tutorial'', ''-review'', ''-reaction'']
      else [''-tutorial'', ''-review'', ''-reaction'', ''-interview'', ''-vlog'',
            ''-news'', ''-documentary'', ''-podcast'', ''-talk'', ''-lecture''])"

text \<open>
  \<open>generateSearchQuery\<close> draws from \<open>Math.random()\<close> at most once; \<open>rnd\<close> is the value
  drawn, a number in \<open>[0, 1)\<close>.
\<close>

definition generateSearchQuery :: "real \<Rightarrow> string \<Rightarrow> bool \<Rightarrow> string" where
  "generateSearchQuery rnd vibeInput isRetry =
     (let parsed = YouTube_parseInput vibeInput;
          baseQuery =
            (if isAnime parsed then
               (let k = nat \<lfloor>rnd * real (length animeTerms)\<rfloor>;
                    randomAnimeTerm = (if k < length animeTerms then animeTerms ! k else ''undefined'')
                in vibeInput @ '' OST soundtrack opening ending theme music'' @ '' '' @ randomAnimeTerm)
             else if includes_str vibeInput ''night'' \<or> includes_str vibeInput ''rain'' then
               vibeInput @ '' lofi chill ambient rain sounds''
             else
               (let musicType = (if rnd > 0.5 then ''music'' else ''songs'')
                in vibe parsed @ '' '' @ musicType
                   @ (if environment parsed \<noteq> [] then '' '' @ environment parsed else [])
                   @ (if speed parsed \<noteq> [] then '' '' @ speed parsed else [])));
          withGenre = (if genre parsed \<noteq> [] then baseQuery @ '' '' @ genre parsed else baseQuery)
      in withGenre @ '' '' @ joinWith '' '' (exclusions isRetry))"

text \<open>
  \<open>performSearch\<close> builds the query and then calls the remote API twice, filters the
  hits, scores them and keeps the ten best. Everything after the query is the
  parameter \<open>searchAndRank\<close>: from the query, the search context and \<open>isRetry\<close> to the
  response, or to the error thrown. \<open>Math_random n\<close> is the number drawn in the
  \<open>n\<close>-th call of \<open>performSearch\<close>.
\<close>

record YouTubeApi =
  Math_random :: "nat \<Rightarrow> real"
  searchAndRank :: "string \<Rightarrow> string \<Rightarrow> bool \<Rightarrow> error + YouTubeTrack SearchResponse"

text \<open>A call of \<open>performSearch\<close>: its arguments and the query it sent.\<close>

record SearchCall =
  searchInput :: string
  retry :: bool
  sentQuery :: string

definition performSearch ::
  "YouTubeApi \<Rightarrow> nat \<Rightarrow> string \<Rightarrow> bool \<Rightarrow> SearchCall \<times> (error + YouTubeTrack SearchResponse)"
  where
  "performSearch api n vibeInput isRetry =
     (let searchQuery = generateSearchQuery (Math_random api n) vibeInput isRetry
      in (\<lparr> searchInput = vibeInput, retry = isRetry, sentQuery = searchQuery \<rparr>,
          searchAndRank api searchQuery vibeInput isRetry))"

text \<open>
  \<open>YouTubeService.searchMusic\<close>, with its calls of \<open>performSearch\<close>, in order. Any
  error is replaced by \<open>Failed to search YouTube videos\<close>.
\<close>

definition YouTube_failed :: error where
  "YouTube_failed = Error ''Failed to search YouTube videos''"

definition YouTube_searchMusic_trace ::
  "YouTubeApi \<Rightarrow> string \<Rightarrow> SearchCall list \<times> (error + YouTubeTrack SearchResponse)" where
  "YouTube_searchMusic_trace api vibeInput =
     (case performSearch api 0 vibeInput False of
        (c1, Inl e) \<Rightarrow> ([c1], Inl YouTube_failed)
      | (c1, Inr result) \<Rightarrow>
          if length (tracks result) < 5 then
            (case performSearch api 1 vibeInput True of
               (c2, Inl e) \<Rightarrow> ([c1, c2], Inl YouTube_failed)
             | (c2, Inr result2) \<Rightarrow>
                 if length (tracks result2) < 5 then
                   (let playlistQuery = vibeInput @ '' playlist mix''
                    in case performSearch api 2 playlistQuery True of
                         (c3, Inl e) \<Rightarrow> ([c1, c2, c3], Inl YouTube_failed)
                       | (c3, Inr playlistResult) \<Rightarrow>
                           (let combinedTracks = tracks result2 @ tracks playlistResult;
                                unique = uniqueBy videoId combinedTracks
                            in ([c1, c2, c3],
                                Inr \<lparr> tracks = take 10 unique, totalResults = length unique \<rparr>)))
                 else ([c1, c2], Inr result2))
          else ([c1], Inr result))"

definition YouTube_searchMusic :: "YouTubeApi \<Rightarrow> string \<Rightarrow> error + YouTubeTrack SearchResponse" where
  "YouTube_searchMusic api vibeInput = snd (YouTube_searchMusic_trace api vibeInput)"

section \<open>The Spotify adapter\<close>

text \<open>A hit of the catalog search, with the properties \<open>transformTrack\<close> reads.\<close>

record SpotifyItem =
  item_id :: string
  item_name :: "string option"
  item_artists :: "string list option"
  album_name :: "string option"
  album_image :: "string option"
  album_genres :: "string list option"
  duration_ms :: "nat option"
  preview_url :: "string option"
  external_url :: "string option"
  item_popularity :: "nat option"
  album_release_date :: "string option"

text \<open>
  The remote side: the token (or the error of \<open>getAccessToken\<close>), the calendar year,
  the search endpoint (\<open>data.tracks?.items\<close>, or the error of a failed request) and the
  audio-features endpoint as \<open>getAudioFeatures\<close> delivers it (empty on any failure).
\<close>

record SpotifyApi =
  getAccessToken :: "error + string"
  currentYear :: int
  fetchSearch :: "string \<Rightarrow> error + SpotifyItem list option"
  fetchAudioFeatures :: "string list \<Rightarrow> SpotifyAudioFeatures option list"

text \<open>\<open>s || d\<close> on strings: absent and empty are falsy.\<close>

definition orElse :: "string option \<Rightarrow> string \<Rightarrow> string" where
  "orElse s d = (case s of None \<Rightarrow> d | Some v \<Rightarrow> if v = [] then d else v)"

definition trim :: "string \<Rightarrow> string" where
  "trim s = rev (dropWhile isSpace (rev (dropWhile isSpace s)))"

fun showNat :: "nat \<Rightarrow> string" where
  "showNat n =
     (if n < 10 then [char_of (48 + n)] else showNat (n div 10) @ [char_of (48 + n mod 10)])"

declare showNat.simps [simp del]

definition showInt :: "int \<Rightarrow> string" where
  "showInt i = (if i < 0 then ''-'' @ showNat (nat (- i)) else showNat (nat i))"

definition buildSearchQuery :: "int \<Rightarrow> string \<Rightarrow> string" where
  "buildSearchQuery year vibeInput =
     (let parsed = Spotify_parseInput vibeInput;
          query = (if vibe parsed \<noteq> [] then vibe parsed else vibeInput);
          withGenre = (if genre parsed \<noteq> [] then query @ '' genre:'' @ genre parsed else query)
      in trim (withGenre @ '' year:'' @ showInt (year - 5) @ ''-'' @ showInt year))"

definition getAudioFeatures :: "SpotifyApi \<Rightarrow> string list \<Rightarrow> SpotifyAudioFeatures option list" where
  "getAudioFeatures api trackIds = (if trackIds = [] then [] else fetchAudioFeatures api trackIds)"

definition calculateMoodScore :: "SpotifyTrack \<Rightarrow> string \<Rightarrow> real" where
  "calculateMoodScore track searchContext =
     (let parsed = Spotify_parseInput searchContext
      in case audioFeatures track of
           None \<Rightarrow> 0
         | Some features \<Rightarrow>
             (let targetEnergy = (if energy parsed = High then 0.8
                                  else if energy parsed = Low then 0.3 else 0.6);
                  energyDiff = \<bar>af_energy features - targetEnergy\<bar>;
                  targetValence = (if valence parsed = Positive then 0.8
                                   else if valence parsed = Negative then 0.2 else 0.5);
                  valenceDiff = \<bar>af_valence features - targetValence\<bar>;
                  dance = (if environment parsed \<in> set [''party'', ''dance'', ''gym'']
                              \<or> vibe parsed \<in> set [''energetic'', ''hype'']
                           then af_danceability features * 3 else 0);
                  acoustic = (if environment parsed \<in> set [''study'', ''sleep'', ''cafe'']
                                 \<or> vibe parsed \<in> set [''chill'', ''calm'']
                              then af_acousticness features * 3 else 0);
                  targetTempo = (if speed parsed = ''fast'' then 140
                                 else if speed parsed = ''slow'' then 80 else 120);
                  tempoDiff = \<bar>af_tempo features - targetTempo\<bar> / 50
              in max 0 (5 - energyDiff * 10) + max 0 (5 - valenceDiff * 10)
                 + dance + acoustic + max 0 (2 - tempoDiff)))"

definition transformTrack :: "SpotifyItem \<Rightarrow> SpotifyAudioFeatures option \<Rightarrow> SpotifyTrack" where
  "transformTrack spotifyTrack features =
     \<lparr> sp_id = item_id spotifyTrack,
       sp_title = orElse (item_name spotifyTrack) ''Unknown Title'',
       sp_artist = orElse (map_option (joinWith '', '') (item_artists spotifyTrack)) ''Unknown Artist'',
       sp_album = orElse (album_name spotifyTrack) ''Unknown Album'',
       sp_duration = int (case duration_ms spotifyTrack of None \<Rightarrow> 0 | Some d \<Rightarrow> d) div 1000,
       sp_thumbnail = orElse (album_image spotifyTrack) [],
       previewUrl = orElse (preview_url spotifyTrack) [],
       spotifyUrl = orElse (external_url spotifyTrack) [],
       sp_popularity = (case item_popularity spotifyTrack of None \<Rightarrow> 0 | Some n \<Rightarrow> n),
       releaseDate = orElse (album_release_date spotifyTrack) [],
       genres = (case album_genres spotifyTrack of None \<Rightarrow> [] | Some gs \<Rightarrow> gs),
       audioFeatures = features \<rparr>"

text \<open>\<open>track.preview_url && track.preview_url.length > 0\<close>\<close>

definition hasPreview :: "SpotifyItem \<Rightarrow> bool" where
  "hasPreview track = (case preview_url track of None \<Rightarrow> False | Some u \<Rightarrow> length u > 0)"

definition Spotify_failed :: error where
  "Spotify_failed = Error ''Failed to search Spotify tracks''"

text \<open>
  The rest of \<open>searchMusic\<close> once the hits with a preview are known: audio features,
  transformation, scoring, the stable sort by descending score and the cut to ten.
\<close>

definition rankSpotify :: "SpotifyApi \<Rightarrow> string \<Rightarrow> SpotifyItem list \<Rightarrow> SpotifyTrack list" where
  "rankSpotify api vibeInput tracksWithPreviews =
     (let trackIds = map item_id tracksWithPreviews;
          features = getAudioFeatures api trackIds;
          transformedTracks =
            map (\<lambda>(index, track).
                   transformTrack track (if index < length features then features ! index else None))
                (enumerate 0 tracksWithPreviews);
          scoredTracks =
            map (\<lambda>track. (track, calculateMoodScore track vibeInput + real (sp_popularity track) / 10))
                transformedTracks
      in map fst (take 10 (sort_key (\<lambda>(track, score). - score) scoredTracks)))"

text \<open>
  \<open>SpotifyService.searchMusic\<close>, with the search queries it sent. Any error is
  replaced by \<open>Failed to search Spotify tracks\<close>.
\<close>

definition Spotify_searchMusic_trace ::
  "SpotifyApi \<Rightarrow> string \<Rightarrow> string list \<times> (error + SpotifyTrack SearchResponse)" where
  "Spotify_searchMusic_trace api vibeInput =
     (case getAccessToken api of
        Inl e \<Rightarrow> ([], Inl Spotify_failed)
      | Inr token \<Rightarrow>
          (let searchQuery = buildSearchQuery (currentYear api) vibeInput
           in case fetchSearch api searchQuery of
                Inl e \<Rightarrow> ([searchQuery], Inl Spotify_failed)
              | Inr None \<Rightarrow> ([searchQuery], Inr \<lparr> tracks = [], totalResults = 0 \<rparr>)
              | Inr (Some items) \<Rightarrow>
                  if length items = 0 then ([searchQuery], Inr \<lparr> tracks = [], totalResults = 0 \<rparr>)
                  else
                    (let tracksWithPreviews = filter hasPreview items
                     in if length tracksWithPreviews = 0
                        then ([searchQuery], Inr \<lparr> tracks = [], totalResults = 0 \<rparr>)
                        else
                          (let topTracks = rankSpotify api vibeInput tracksWithPreviews
                           in ([searchQuery],
                               Inr \<lparr> tracks = topTracks, totalResults = length topTracks \<rparr>)))))"

definition Spotify_searchMusic :: "SpotifyApi \<Rightarrow> string \<Rightarrow> error + SpotifyTrack SearchResponse" where
  "Spotify_searchMusic api vibeInput = snd (Spotify_searchMusic_trace api vibeInput)"

section \<open>The scoring of the YouTube adapter\<close>

text \<open>
  The loop of \<open>performSearch\<close> over the hits of the search: the validity filter, the
  score and the track of every hit, and after the loop the stable sort by descending
  score and the cut to ten tracks. A hit is taken as the loop has it once its duration
  and its view count are parsed; the fields of its snippet may be missing. For the hits
  that the two requests of \<open>performSearch\<close> deliver, the response computed here is what
  the parameter \<open>searchAndRank\<close> of the adapter stands for.
\<close>

record YouTubeHit =
  hit_videoId :: string
  hit_title :: "string option"
  hit_channelTitle :: "string option"
  hit_publishedAt :: "string option"
  thumbnailHigh :: "string option"
  thumbnailMedium :: "string option"
  thumbnailDefault :: "string option"
  hit_duration :: int
  hit_viewCount :: nat

text \<open>The number of keywords that occur in \<open>s\<close>: \<open>keywords.forEach\<close> with one test each.\<close>

definition countIncluded :: "string \<Rightarrow> string list \<Rightarrow> nat" where
  "countIncluded s keywords = length (filter (\<lambda>keyword. includes_str s keyword) keywords)"

definition isValidMusicVideo :: "YouTubeHit \<Rightarrow> string \<Rightarrow> bool \<Rightarrow> bool" where
  "isValidMusicVideo video searchContext isRetry =
     (let title = toLowerCase (orElse (hit_title video) []);
          seconds = hit_duration video;
          isPlaylistOrMix = (includes_str title ''playlist'' \<or> includes_str title ''mix''
                             \<or> includes_str title ''compilation'');
          badKeywords = [''tutorial'', ''lesson'', ''how to'', ''reaction'', ''review'', ''podcast'',
                         ''interview'', ''live stream'', ''full album'', ''audiobook'', ''lecture'']
      in if seconds < 60 then False
         else if seconds > 600 \<and> \<not> isPlaylistOrMix then False
         else if seconds > 1800 then False
         else if hit_viewCount video < 100 then False
         else if some_includes title badKeywords then False
         else True)"

definition musicLabels :: "string list" where
  "musicLabels = [''universal'', ''sony'', ''warner'', ''columbia'', ''atlantic'', ''capitol'',
                  ''rca'', ''interscope'']"

definition getChannelScore :: "string \<Rightarrow> string \<Rightarrow> real" where
  "getChannelScore channelTitleIn searchContext =
     (let channelLower = toLowerCase channelTitleIn;
          context = toLowerCase searchContext;
          priorityAnimeChannels = [''animevibe'', ''lo-fi senpai'', ''lofi senpai''];
          nightRainChannels = [''lo-fi senpai'', ''lofi senpai'', ''chilled cow'', ''lofigirl'',
                               ''ambient'', ''rain sounds''];
          animeChannels = [''animevibe'', ''crunchyroll'', ''funimation'', ''anime music'', ''ost'',
                           ''lo-fi senpai'', ''lofi senpai'', ''anime songs'', ''naruto music'',
                           ''bleach music''];
          curatedChannels = [''chillmusic'', ''lofigirl'', ''chilled cow'', ''ambient'', ''relaxing'',
                             ''chill hop'', ''study music''];
          whitelistedChannels = [''trap nation'', ''monstercat'', ''proximity'', ''mr suicidesheep'',
                                 ''cloudkid'', ''tribal trap'', ''chill nation'', ''wave music'',
                                 ''selected'', ''magic music'', ''animevibe'', ''lo-fi senpai'',
                                 ''lofi senpai'', ''anime vibe''];
          movieKeywords = [''marvel'', ''disney'', ''dc'', ''netflix'', ''hbo'', ''paramount'',
                           ''20th century'', ''pixar''];
          blacklistedChannels = [''reaction'', ''react'', ''first time'', ''listening to'',
                                 ''tutorial'', ''lesson'', ''cover'', ''remix'', ''mashup'',
                                 ''nightcore'', ''slowed'', ''reverb'']
      in (if some_includes channelLower priorityAnimeChannels then 12 else 0)
         + (if (includes_str context ''night'' \<or> includes_str context ''rain''
                \<or> includes_str context ''anime'')
               \<and> some_includes channelLower nightRainChannels then 10 else 0)
         + (if some_includes channelLower musicLabels then 10 else 0)
         + (if includes_str channelLower ''official'' \<or> includes_str channelLower ''vevo''
            then 8 else 0)
         + (if some_includes channelLower animeChannels then 9 else 0)
         + (if some_includes channelLower curatedChannels then 6 else 0)
         + (if includes_str channelLower ''topic'' \<or> suffix '' - topic'' channelLower
            then 8 else 0)
         + (if some_includes channelLower whitelistedChannels then 7 else 0)
         + (if some_includes context movieKeywords
               \<and> (includes_str channelLower ''official'' \<or> some_includes channelLower musicLabels)
            then 8 else 0)
         + (if some_includes channelLower blacklistedChannels then - 15 else 0))"

definition getTitleScore :: "string \<Rightarrow> string \<Rightarrow> real" where
  "getTitleScore titleIn searchContext =
     (let titleLower = toLowerCase titleIn;
          context = toLowerCase searchContext;
          musicKeywords = [''song'', ''track'', ''music'', ''audio'', ''hit'', ''single'', ''anthem''];
          excludedContent = [''tutorial'', ''lesson'', ''review'', ''reaction'', ''interview'',
                             ''vlog'', ''gameplay'', ''how to'', ''explained'', ''analysis'',
                             ''breakdown''];
          lightExclusions = [''compilation'', ''best of'', ''collection'', ''mixtape'',
                             ''greatest hits'', ''live performance'', ''concert'',
                             ''acoustic version'', ''radio edit''];
          nightAesthetics = [''night'', ''midnight'', ''3am'', ''late night'', ''nocturne'',
                             ''moonlight'', ''stars'', ''dark'', ''shadow'', ''twilight'',
                             ''evening'', ''dusk''];
          sadAesthetics = [''sad'', ''melancholy'', ''melancholic'', ''sorrow'', ''tears'',
                           ''crying'', ''heartbreak'', ''lonely'', ''solitude'', ''grief'', ''pain'',
                           ''blues''];
          lofiAesthetics = [''lofi'', ''lo-fi'', ''chill'', ''study'', ''relaxing'', ''ambient'',
                            ''downtempo'', ''mellow'', ''soft'', ''calm'', ''peaceful''];
          jazzAesthetics = [''jazz'', ''smooth'', ''saxophone'', ''piano'', ''bebop'', ''swing'',
                            ''blues'', ''soul'', ''smooth jazz'', ''neo soul''];
          movieAesthetics = [''soundtrack'', ''ost'', ''theme'', ''score'', ''cinematic'', ''epic'',
                             ''orchestral'', ''film music'', ''movie music'']
      in 5 * real (countIncluded titleLower musicKeywords)
         - 15 * real (countIncluded titleLower excludedContent)
         - 8 * real (countIncluded titleLower lightExclusions)
         + (if includes_str context ''night''
            then 10 * real (countIncluded titleLower nightAesthetics) else 0)
         + (if includes_str context ''sad'' \<or> includes_str context ''melancholy''
            then 8 * real (countIncluded titleLower sadAesthetics) else 0)
         + (if includes_str context ''lofi''
            then 8 * real (countIncluded titleLower lofiAesthetics) else 0)
         + (if includes_str context ''jazz''
            then 8 * real (countIncluded titleLower jazzAesthetics) else 0)
         + (if includes_str context ''movie'' \<or> includes_str context ''film''
            then 8 * real (countIncluded titleLower movieAesthetics) else 0))"

definition getDurationScore :: "int \<Rightarrow> real" where
  "getDurationScore seconds =
     (if seconds \<ge> 120 \<and> seconds \<le> 360 then 4
      else if seconds \<ge> 180 \<and> seconds \<le> 240 then 5
      else if seconds \<ge> 600 \<and> seconds \<le> 1200 then 2
      else if seconds \<ge> 1200 \<and> seconds \<le> 1800 then 1
      else if seconds \<ge> 60 \<and> seconds \<le> 120 then 1
      else 0)"

text \<open>
  What the scoring takes from the \<open>Date\<close> of the runtime. \<open>Date_new i k\<close> is the time value
  of the \<open>k\<close>-th \<open>new Date()\<close> evaluated while the \<open>i\<close>-th hit is processed: the first in
  \<open>getRecencyBonus\<close>, the second for a missing \<open>publishedAt\<close>. \<open>Date_of s\<close> is the time
  value of \<open>new Date(s)\<close>, \<open>None\<close> for an invalid date; \<open>oneYearBefore t\<close> is the time value
  after \<open>setFullYear(getFullYear() - 1)\<close> on a date of time value \<open>t\<close>; \<open>toISOString t\<close> is
  the string of that name.
\<close>

record YouTubeRuntime =
  Date_new :: "nat \<Rightarrow> nat \<Rightarrow> int"
  Date_of :: "string \<Rightarrow> int option"
  oneYearBefore :: "int \<Rightarrow> int"
  toISOString :: "int \<Rightarrow> string"

text \<open>
  \<open>publishDate > oneYearAgo ? 2 : 0\<close>, where \<open>now\<close> is the time value of the \<open>new Date()\<close>
  that becomes \<open>oneYearAgo\<close>; a comparison with an invalid date is false.
\<close>

definition getRecencyBonus :: "YouTubeRuntime \<Rightarrow> int \<Rightarrow> string \<Rightarrow> real" where
  "getRecencyBonus rt now publishedAtIn =
     (case Date_of rt publishedAtIn of
        None \<Rightarrow> 0
      | Some publishDate \<Rightarrow> if publishDate > oneYearBefore rt now then 2 else 0)"

definition totalScore :: "YouTubeRuntime \<Rightarrow> nat \<Rightarrow> string \<Rightarrow> YouTubeHit \<Rightarrow> real" where
  "totalScore rt i searchContext hit =
     (let channelScore = getChannelScore (orElse (hit_channelTitle hit) []) searchContext;
          titleScore = getTitleScore (orElse (hit_title hit) []) searchContext;
          durationScore = getDurationScore (hit_duration hit);
          recencyBonus = getRecencyBonus rt (Date_new rt i 0) (orElse (hit_publishedAt hit) []);
          viewScore = min (log 10 (real (hit_viewCount hit)) - 3) 5
      in channelScore + titleScore + durationScore + recencyBonus + viewScore)"

definition scoredTrack :: "YouTubeRuntime \<Rightarrow> nat \<Rightarrow> YouTubeHit \<Rightarrow> YouTubeTrack" where
  "scoredTrack rt i hit =
     \<lparr> videoId = hit_videoId hit,
       yt_title = orElse (hit_title hit) ''Unknown Title'',
       channelTitle = orElse (hit_channelTitle hit) ''Unknown Channel'',
       yt_duration = hit_duration hit,
       yt_thumbnail = orElse (thumbnailHigh hit)
                        (orElse (thumbnailMedium hit) (orElse (thumbnailDefault hit) [])),
       yt_publishedAt = orElse (hit_publishedAt hit) (toISOString rt (Date_new rt i 1)),
       viewCount = hit_viewCount hit \<rparr>"

definition scoreAndRank ::
  "YouTubeRuntime \<Rightarrow> string \<Rightarrow> bool \<Rightarrow> YouTubeHit list \<Rightarrow> YouTubeTrack SearchResponse" where
  "scoreAndRank rt searchContext isRetry hits =
     (let valid = filter (\<lambda>(i, hit). isValidMusicVideo hit searchContext isRetry)
                    (enumerate 0 hits);
          scoredTracks = map (\<lambda>(i, hit). (scoredTrack rt i hit, totalScore rt i searchContext hit))
                           valid;
          topTracks = map fst (take 10 (sort_key (\<lambda>(track, score). - score) scoredTracks))
      in \<lparr> tracks = topTracks, totalResults = length topTracks \<rparr>)"


section \<open>Notions used to state the properties\<close>

text \<open>
  The first occurrence of every key, in order, the keys in \<open>seen\<close> excluded: the
  recursive reading of the index-based duplicate filter.
\<close>

fun keepFirst :: "('a \<Rightarrow> 'k) \<Rightarrow> 'k list \<Rightarrow> 'a list \<Rightarrow> 'a list" where
  "keepFirst key seen [] = []"
| "keepFirst key seen (x # xs) =
     (if key x \<in> set seen then keepFirst key seen xs else x # keepFirst key (key x # seen) xs)"

text \<open>The case-insensitive (title, artist) pair of a track.\<close>

definition titleArtist :: "UnifiedTrack \<Rightarrow> string \<times> string" where
  "titleArtist t = (toLowerCase (title t), toLowerCase (artist t))"

text \<open>
  What one provider contributes in a phase: the list \<open>searchProvider\<close> resolves to, with
  the timeout of the provider's configuration.
\<close>

definition providerTracks ::
  "Services \<Rightarrow> Phase \<Rightarrow> SearchConfig \<Rightarrow> string \<Rightarrow> MusicProvider \<Rightarrow> UnifiedTrack list" where
  "providerTracks svc ph searchConfig vibeInput p =
     (case searchProvider svc ph p vibeInput
             (timeout (providerConfig (cfg_providers searchConfig) p)) of
        Fulfilled found \<Rightarrow> found
      | Rejected e \<Rightarrow> [])"

fun isRejected :: "'a settled \<Rightarrow> bool" where
  "isRejected (Rejected e) = True"
| "isRejected (Fulfilled v) = False"

fun hasTracks :: "'t SearchResponse option settled \<Rightarrow> bool" where
  "hasTracks (Fulfilled (Some r)) = (tracks r \<noteq> [])"
| "hasTracks (Fulfilled None) = False"
| "hasTracks (Rejected e) = False"

text \<open>
  The adapter of \<open>p\<close> fails in a phase: its promise rejects, or the timer of the race
  fires first. It delivers: it fulfils in time with a non-empty track list.
\<close>

definition adapterFails ::
  "Services \<Rightarrow> Phase \<Rightarrow> SearchConfig \<Rightarrow> string \<Rightarrow> MusicProvider \<Rightarrow> bool" where
  "adapterFails svc ph searchConfig vibeInput p =
     (let ms = timeout (providerConfig (cfg_providers searchConfig) p)
      in case p of
           youtube \<Rightarrow> isRejected (raceWithTimeout (youtubeService svc ph vibeInput) p ms)
         | soundcloud \<Rightarrow> isRejected (raceWithTimeout (soundcloudService svc ph vibeInput) p ms)
         | spotify \<Rightarrow> isRejected (raceWithTimeout (spotifyService svc ph vibeInput) p ms))"

definition adapterDelivers ::
  "Services \<Rightarrow> Phase \<Rightarrow> SearchConfig \<Rightarrow> string \<Rightarrow> MusicProvider \<Rightarrow> bool" where
  "adapterDelivers svc ph searchConfig vibeInput p =
     (let ms = timeout (providerConfig (cfg_providers searchConfig) p)
      in case p of
           youtube \<Rightarrow> hasTracks (raceWithTimeout (youtubeService svc ph vibeInput) p ms)
         | soundcloud \<Rightarrow> hasTracks (raceWithTimeout (soundcloudService svc ph vibeInput) p ms)
         | spotify \<Rightarrow> hasTracks (raceWithTimeout (spotifyService svc ph vibeInput) p ms))"

text \<open>The invocations of one phase in a log of adapter invocations.\<close>

definition invocationsIn :: "Phase \<Rightarrow> Invocation list \<Rightarrow> Invocation list" where
  "invocationsIn ph trace = filter (\<lambda>c. phase c = ph) trace"

definition callsIn :: "Phase \<Rightarrow> Invocation list \<Rightarrow> MusicProvider list" where
  "callsIn ph trace = map invoked (invocationsIn ph trace)"

text \<open>
  In the loop over the providers every invocation is awaited before the next one is
  made: it starts when the one before has settled, the first one at time \<open>t\<close>.
\<close>

fun awaitedInTurn :: "nat \<Rightarrow> Invocation list \<Rightarrow> bool" where
  "awaitedInTurn t [] = True"
| "awaitedInTurn t (c # cs) =
     (startedAt c = t \<and> t \<le> settledAt c \<and> awaitedInTurn (settledAt c) cs)"

text \<open>
  What an evaluation can read besides its arguments: the clock and the random number
  generator, \<open>readClock n\<close> and \<open>drawRandom n\<close> being the \<open>n\<close>-th \<open>Date.now()\<close> and the
  \<open>n\<close>-th \<open>Math.random()\<close> of the evaluation. An evaluation is deterministic when it
  gives the same value whatever they give.
\<close>

record Ambient =
  readClock :: "nat \<Rightarrow> int"
  drawRandom :: "nat \<Rightarrow> real"

definition sameInEveryAmbient :: "(Ambient \<Rightarrow> 'a) \<Rightarrow> bool" where
  "sameInEveryAmbient evaluation = (\<forall>a b. evaluation a = evaluation b)"

section \<open>Scenarios\<close>

text \<open>Concrete runtimes, adapters and configurations on which the properties are evaluated.\<close>

definition fixedRuntime :: Runtime where
  "fixedRuntime = \<lparr> Date_now = (\<lambda>n. 1762000000000 + int n), Date_parse = (\<lambda>s. None) \<rparr>"

definition noOverrides :: PartialSearchConfig where
  "noOverrides = \<lparr> opt_providers = None, opt_maxResults = None, opt_fallbackEnabled = None \<rparr>"

definition sampleYouTubeTrack :: YouTubeTrack where
  "sampleYouTubeTrack =
     \<lparr> videoId = ''yt1'', yt_title = ''Morning Run'', channelTitle = ''Pulse'',
       yt_duration = 200, yt_thumbnail = [], yt_publishedAt = ''2024-03-01T00:00:00Z'',
       viewCount = 0 \<rparr>"

definition sampleSoundCloudTrack :: SoundCloudTrack where
  "sampleSoundCloudTrack =
     \<lparr> sc_id = ''sc1'', sc_title = ''Evening Walk'', sc_artist = ''Drift'',
       sc_duration = 240, sc_thumbnail = [], sc_streamUrl = [],
       sc_publishedAt = ''2023-06-01T00:00:00Z'', playCount = 0, sc_genre = None,
       sc_description = None, sc_waveformUrl = None, sc_permalink = [] \<rparr>"

definition sampleSpotifyTrack :: SpotifyTrack where
  "sampleSpotifyTrack =
     \<lparr> sp_id = ''sp1'', sp_title = ''Night Drive'', sp_artist = ''Lumen'', sp_album = ''Roads'',
       sp_duration = 210, sp_thumbnail = [], previewUrl = ''https://p.scdn.co/sp1'',
       spotifyUrl = [], sp_popularity = 0, releaseDate = ''2022-01-01'', genres = [],
       audioFeatures = None \<rparr>"

text \<open>Every adapter rejects, as it does without credentials.\<close>

definition failingServices :: Services where
  "failingServices =
     \<lparr> youtubeService = (\<lambda>ph v. Rejects 100 (Error ''Failed to search YouTube videos'')),
       soundcloudService = (\<lambda>ph v. Rejects 100 (Error ''Failed to search SoundCloud tracks'')),
       spotifyService = (\<lambda>ph v. Rejects 100 (Error ''Failed to search Spotify tracks'')) \<rparr>"

text \<open>Every adapter answers, with no track.\<close>

definition emptyServices :: Services where
  "emptyServices =
     \<lparr> youtubeService = (\<lambda>ph v. Resolves 100 (Some \<lparr> tracks = [], totalResults = 0 \<rparr>)),
       soundcloudService = (\<lambda>ph v. Resolves 100 (Some \<lparr> tracks = [], totalResults = 0 \<rparr>)),
       spotifyService = (\<lambda>ph v. Resolves 100 (Some \<lparr> tracks = [], totalResults = 0 \<rparr>)) \<rparr>"

text \<open>Spotify never answers (the timer fires); YouTube and SoundCloud deliver one track each.\<close>

definition partialServices :: Services where
  "partialServices =
     \<lparr> youtubeService =
         (\<lambda>ph v. Resolves 200 (Some \<lparr> tracks = [sampleYouTubeTrack], totalResults = 1 \<rparr>)),
       soundcloudService =
         (\<lambda>ph v. Resolves 300 (Some \<lparr> tracks = [sampleSoundCloudTrack], totalResults = 1 \<rparr>)),
       spotifyService = (\<lambda>ph v. NeverSettles) \<rparr>"

text \<open>
  Spotify fails when the loop calls it and delivers in the fallback, after 300
  milliseconds; YouTube fails after 100 milliseconds.
\<close>

definition secondTryServices :: Services where
  "secondTryServices =
     \<lparr> youtubeService = (\<lambda>ph v. Rejects 100 (Error ''Failed to search YouTube videos'')),
       soundcloudService = (\<lambda>ph v. Rejects 100 (Error ''Failed to search SoundCloud tracks'')),
       spotifyService =
         (\<lambda>ph v. case ph of
                    Sequential \<Rightarrow> Rejects 150 (Error ''Failed to search Spotify tracks'')
                  | Parallel \<Rightarrow>
                      Resolves 300 (Some \<lparr> tracks = [sampleSpotifyTrack], totalResults = 1 \<rparr>)) \<rparr>"

definition allThree :: ProvidersObject where
  "allThree =
     \<lparr> providerKeys = [spotify, youtube, soundcloud],
       providerConfig = (\<lambda>p. case p of
           spotify \<Rightarrow> \<lparr> enabled = True, priority = 1, timeout = 8000 \<rparr>
         | youtube \<Rightarrow> \<lparr> enabled = True, priority = 2, timeout = 15000 \<rparr>
         | soundcloud \<Rightarrow> \<lparr> enabled = True, priority = 3, timeout = 10000 \<rparr>) \<rparr>"

definition onlyYouTube :: ProvidersObject where
  "onlyYouTube =
     \<lparr> providerKeys = [spotify, youtube, soundcloud],
       providerConfig = (\<lambda>p. case p of
           spotify \<Rightarrow> \<lparr> enabled = False, priority = 1, timeout = 8000 \<rparr>
         | youtube \<Rightarrow> \<lparr> enabled = True, priority = 2, timeout = 15000 \<rparr>
         | soundcloud \<Rightarrow> \<lparr> enabled = False, priority = 3, timeout = 10000 \<rparr>) \<rparr>"

definition allThreeConfig :: PartialSearchConfig where
  "allThreeConfig =
     \<lparr> opt_providers = Some allThree, opt_maxResults = None, opt_fallbackEnabled = None \<rparr>"

definition stopEarlyConfig :: PartialSearchConfig where
  "stopEarlyConfig =
     \<lparr> opt_providers = Some allThree, opt_maxResults = Some 1, opt_fallbackEnabled = Some False \<rparr>"

definition onlyYouTubeNoFallback :: PartialSearchConfig where
  "onlyYouTubeNoFallback =
     \<lparr> opt_providers = Some onlyYouTube, opt_maxResults = None, opt_fallbackEnabled = Some False \<rparr>"

definition noneEnabled :: ProvidersObject where
  "noneEnabled =
     \<lparr> providerKeys = [spotify, youtube, soundcloud],
       providerConfig = (\<lambda>p. case p of
           spotify \<Rightarrow> \<lparr> enabled = False, priority = 1, timeout = 8000 \<rparr>
         | youtube \<Rightarrow> \<lparr> enabled = False, priority = 2, timeout = 15000 \<rparr>
         | soundcloud \<Rightarrow> \<lparr> enabled = False, priority = 3, timeout = 10000 \<rparr>) \<rparr>"

definition noneEnabledConfig :: PartialSearchConfig where
  "noneEnabledConfig =
     \<lparr> opt_providers = Some noneEnabled, opt_maxResults = None, opt_fallbackEnabled = None \<rparr>"

text \<open>
  Two tracks with different (title, artist) pairs whose concatenated keys coincide, as
  Spotify and YouTube deliver them.
\<close>

definition blueSkySpotify :: SpotifyTrack where
  "blueSkySpotify =
     \<lparr> sp_id = ''sp7'', sp_title = ''Blue-Sky'', sp_artist = ''Band'', sp_album = ''Skies'',
       sp_duration = 200, sp_thumbnail = [], previewUrl = ''https://p.scdn.co/sp7'',
       spotifyUrl = [], sp_popularity = 0, releaseDate = ''2020-01-01'', genres = [],
       audioFeatures = None \<rparr>"

definition blueSkyYouTube :: YouTubeTrack where
  "blueSkyYouTube =
     \<lparr> videoId = ''yt7'', yt_title = ''Blue'', channelTitle = ''Sky-Band'',
       yt_duration = 210, yt_thumbnail = [], yt_publishedAt = ''2020-02-01T00:00:00Z'',
       viewCount = 0 \<rparr>"

definition collisionServices :: Services where
  "collisionServices =
     \<lparr> youtubeService =
         (\<lambda>ph v. Resolves 200 (Some \<lparr> tracks = [blueSkyYouTube], totalResults = 1 \<rparr>)),
       soundcloudService = (\<lambda>ph v. Rejects 100 (Error ''Failed to search SoundCloud tracks'')),
       spotifyService =
         (\<lambda>ph v. Resolves 100 (Some \<lparr> tracks = [blueSkySpotify], totalResults = 1 \<rparr>)) \<rparr>"

text \<open>
  Two candidates and a date parser for their \<open>publishedAt\<close> strings (milliseconds since
  the epoch); \<open>recentTrack\<close> is 10 months old in November 2025 and 13 in February 2026.
\<close>

definition recentTrack :: UnifiedTrack where
  "recentTrack =
     \<lparr> trackId = ''yt21'', title = ''Alpha'', artist = ''One'', duration = 200,
       thumbnail = [], publishedAt = ''2025-01-01T00:00:00Z'', popularity = 0,
       provider = youtube, streamUrl = Some ''/api/youtube/stream/yt21'', trackGenre = None,
       permalink = None, waveformUrl = None \<rparr>"

definition olderTrack :: UnifiedTrack where
  "olderTrack =
     \<lparr> trackId = ''sc22'', title = ''Beta'', artist = ''Two'', duration = 150,
       thumbnail = [], publishedAt = ''2015-01-01T00:00:00Z'', popularity = 0,
       provider = soundcloud, streamUrl = Some ''/api/soundcloud/stream/sc22'',
       trackGenre = None, permalink = Some [], waveformUrl = None \<rparr>"

definition parseDates :: "string \<Rightarrow> int option" where
  "parseDates s =
     (if s = ''2025-01-01T00:00:00Z'' then Some 1735689600000
      else if s = ''2015-01-01T00:00:00Z'' then Some 1420070400000
      else None)"

text \<open>Clocks: every reading of one evaluation falls into the same millisecond.\<close>

definition november2025 :: "nat \<Rightarrow> int" where
  "november2025 i = 1762000000000"

definition laterNovember2025 :: "nat \<Rightarrow> int" where
  "laterNovember2025 i = 1762000360000"

definition february2026 :: "nat \<Rightarrow> int" where
  "february2026 i = 1770000000000"

text \<open>
  Two hits of a YouTube search, published in January 2025 and in January 2015, and a
  runtime for their dates in which a year has 365 days. Both hits carry \<open>publishedAt\<close>,
  so that no date is formatted.
\<close>

definition studyHits :: "YouTubeHit list" where
  "studyHits =
     [\<lparr> hit_videoId = ''v1'', hit_title = Some ''Study Music'', hit_channelTitle = Some ''Lofi Girl'',
        hit_publishedAt = Some ''2025-01-01T00:00:00Z'', thumbnailHigh = None,
        thumbnailMedium = None, thumbnailDefault = None, hit_duration = 200,
        hit_viewCount = 5000 \<rparr>,
      \<lparr> hit_videoId = ''v2'', hit_title = Some ''Focus Mix'', hit_channelTitle = None,
        hit_publishedAt = Some ''2015-01-01T00:00:00Z'', thumbnailHigh = None,
        thumbnailMedium = None, thumbnailDefault = None, hit_duration = 240,
        hit_viewCount = 90000 \<rparr>]"

definition youtubeDates :: YouTubeRuntime where
  "youtubeDates =
     \<lparr> Date_new = (\<lambda>i k. 0), Date_of = parseDates,
       oneYearBefore = (\<lambda>t. t - 31536000000),
       toISOString = (\<lambda>t. ''1970-01-01T00:00:00.000Z'') \<rparr>"

text \<open>The readings of \<open>new Date()\<close> of two evaluations in November 2025.\<close>

definition november2025Dates :: "nat \<Rightarrow> nat \<Rightarrow> int" where
  "november2025Dates i k = 1762000000000"

definition laterNovember2025Dates :: "nat \<Rightarrow> nat \<Rightarrow> int" where
  "laterNovember2025Dates i k = 1762000360000"

text \<open>
  A YouTube back end on which the first search finds two tracks, the retry three and
  the search on the input extended by \<open>playlist mix\<close> two, one of them known already.
\<close>

definition ytHit :: "string \<Rightarrow> YouTubeTrack" where
  "ytHit i =
     \<lparr> videoId = i, yt_title = ''Happy '' @ i, channelTitle = ''Channel'', yt_duration = 200,
       yt_thumbnail = [], yt_publishedAt = ''2024-03-01T00:00:00Z'', viewCount = 1000 \<rparr>"

definition lowResultsYouTube :: YouTubeApi where
  "lowResultsYouTube =
     \<lparr> Math_random = (\<lambda>n. 7 / 10),
       searchAndRank = (\<lambda>q context isRetry.
         if \<not> isRetry then Inr \<lparr> tracks = [ytHit ''a'', ytHit ''b''], totalResults = 2 \<rparr>
         else if context = ''happy''
           then Inr \<lparr> tracks = [ytHit ''a'', ytHit ''b'', ytHit ''c''], totalResults = 3 \<rparr>
         else Inr \<lparr> tracks = [ytHit ''c'', ytHit ''d''], totalResults = 2 \<rparr>) \<rparr>"

text \<open>
  Spotify back ends: four hits of which two carry a preview URL, and two hits of which
  none does. The audio-features request fails.
\<close>

definition spotifyHit :: "string \<Rightarrow> string option \<Rightarrow> nat \<Rightarrow> SpotifyItem" where
  "spotifyHit i url pop =
     \<lparr> item_id = i, item_name = Some (''Song '' @ i), item_artists = Some [''Artist''],
       album_name = Some ''Album'', album_image = None, album_genres = None,
       duration_ms = Some 200000, preview_url = url, external_url = None,
       item_popularity = Some pop, album_release_date = Some ''2024-01-01'' \<rparr>"

definition twoPreviewsSpotify :: SpotifyApi where
  "twoPreviewsSpotify =
     \<lparr> getAccessToken = Inr ''token'',
       currentYear = 2025,
       fetchSearch = (\<lambda>q. Inr (Some [spotifyHit ''1'' (Some ''https://p.scdn.co/1'') 40,
                                      spotifyHit ''2'' None 90,
                                      spotifyHit ''3'' (Some ''https://p.scdn.co/3'') 60,
                                      spotifyHit ''4'' (Some []) 80])),
       fetchAudioFeatures = (\<lambda>ids. []) \<rparr>"

definition noPreviewSpotify :: SpotifyApi where
  "noPreviewSpotify =
     \<lparr> getAccessToken = Inr ''token'',
       currentYear = 2025,
       fetchSearch = (\<lambda>q. Inr (Some [spotifyHit ''2'' None 90, spotifyHit ''4'' (Some []) 80])),
       fetchAudioFeatures = (\<lambda>ids. []) \<rparr>"

section \<open>Properties of the intent parsers\<close>

lemma detect_default:
  "noCategoryMatches table input \<Longrightarrow> detect table input d = d"
  by (induction table) (auto simp: noCategoryMatches_def)

lemma vibeOrFirstWord_empty: "vibeOrFirstWord [] v = hd (split_char CHR '' '' v)"
  by (simp add: vibeOrFirstWord_def)

text \<open>
  Claim C8. For the input \<open>energetic gym workout fast\<close> the Spotify parser, the one
  whose intent has \<open>energy\<close> and \<open>valence\<close>, returns environment \<open>gym\<close>, speed \<open>fast\<close>,
  energy \<open>high\<close>, vibe \<open>energetic\<close> and valence \<open>positive\<close> (and no genre); the YouTube
  and SoundCloud parsers agree on vibe, environment and speed.
\<close>

theorem keyword_routing_scenario:
  "Spotify_parseInput ''energetic gym workout fast'' =
     \<lparr> vibe = ''energetic'', environment = ''gym'', speed = ''fast'', genre = [],
       energy = High, valence = Positive \<rparr>
   \<and> vibe (YouTube_parseInput ''energetic gym workout fast'') = ''energetic''
   \<and> environment (YouTube_parseInput ''energetic gym workout fast'') = ''gym''
   \<and> speed (YouTube_parseInput ''energetic gym workout fast'') = ''fast''
   \<and> vibe (SoundCloud_parseInput ''energetic gym workout fast'') = ''energetic''
   \<and> environment (SoundCloud_parseInput ''energetic gym workout fast'') = ''gym''
   \<and> speed (SoundCloud_parseInput ''energetic gym workout fast'') = ''fast''"
  by code_simp

text \<open>
  Claim C7 as stated fails: on \<open>hello world\<close> no speed keyword matches and the
  YouTube parser returns the empty string as speed, not \<open>medium\<close>; and on an input that
  starts with a space the default vibe is the empty string, not the first word.
\<close>

theorem speed_default_counterexample:
  "noCategoryMatches YouTube_speeds (toLowerCase ''hello world'')
   \<and> speed (YouTube_parseInput ''hello world'') = []
   \<and> speed (YouTube_parseInput ''hello world'') \<noteq> ''medium''
   \<and> noCategoryMatches Spotify_vibePatterns (toLowerCase '' hello'')
   \<and> vibe (Spotify_parseInput '' hello'') = []"
  by code_simp

text \<open>
  Claim C7, amended. When no speed keyword matches, the Spotify parser returns speed
  \<open>medium\<close> (and energy \<open>medium\<close>), the YouTube and SoundCloud parsers return the empty
  string. In every parser the environment is the empty string when no environment
  keyword matches and the vibe is \<open>vibeInput.split(' ')[0]\<close>, the text before the first
  space character, when no vibe keyword matches; the Spotify genre is the empty string
  when no genre keyword matches.
\<close>

theorem parse_defaults:
  "(noCategoryMatches Spotify_speedPatterns (toLowerCase v) \<longrightarrow>
      speed (Spotify_parseInput v) = ''medium'' \<and> energy (Spotify_parseInput v) = Medium)
   \<and> (noCategoryMatches YouTube_speeds (toLowerCase v) \<longrightarrow> speed (YouTube_parseInput v) = [])
   \<and> (noCategoryMatches SoundCloud_speeds (toLowerCase v) \<longrightarrow> speed (SoundCloud_parseInput v) = [])
   \<and> (noCategoryMatches Spotify_environments (toLowerCase v) \<longrightarrow>
        environment (Spotify_parseInput v) = [])
   \<and> (noCategoryMatches YouTube_environments (toLowerCase v) \<longrightarrow>
        environment (YouTube_parseInput v) = [])
   \<and> (noCategoryMatches SoundCloud_environments (toLowerCase v) \<longrightarrow>
        environment (SoundCloud_parseInput v) = [])
   \<and> (noCategoryMatches Spotify_genreKeywords (toLowerCase v) \<longrightarrow> genre (Spotify_parseInput v) = [])
   \<and> (noCategoryMatches Spotify_vibePatterns (toLowerCase v) \<longrightarrow>
        vibe (Spotify_parseInput v) = hd (split_char CHR '' '' v))
   \<and> (noCategoryMatches YouTube_vibes (toLowerCase v) \<longrightarrow>
        vibe (YouTube_parseInput v) = hd (split_char CHR '' '' v))
   \<and> (noCategoryMatches SoundCloud_vibes (toLowerCase v) \<longrightarrow>
        vibe (SoundCloud_parseInput v) = hd (split_char CHR '' '' v))"
  by (simp add: Spotify_parseInput_def YouTube_parseInput_def SoundCloud_parseInput_def
        Let_def detect_default vibeOrFirstWord_empty)

theorem parse_defaults_witness:
  "noCategoryMatches Spotify_speedPatterns (toLowerCase ''hello world'')
   \<and> noCategoryMatches YouTube_speeds (toLowerCase ''hello world'')
   \<and> noCategoryMatches SoundCloud_speeds (toLowerCase ''hello world'')
   \<and> noCategoryMatches Spotify_environments (toLowerCase ''hello world'')
   \<and> noCategoryMatches YouTube_environments (toLowerCase ''hello world'')
   \<and> noCategoryMatches SoundCloud_environments (toLowerCase ''hello world'')
   \<and> noCategoryMatches Spotify_genreKeywords (toLowerCase ''hello world'')
   \<and> noCategoryMatches Spotify_vibePatterns (toLowerCase ''hello world'')
   \<and> noCategoryMatches YouTube_vibes (toLowerCase ''hello world'')
   \<and> noCategoryMatches SoundCloud_vibes (toLowerCase ''hello world'')
   \<and> speed (Spotify_parseInput ''hello world'') = ''medium''
   \<and> energy (Spotify_parseInput ''hello world'') = Medium
   \<and> speed (YouTube_parseInput ''hello world'') = []
   \<and> speed (SoundCloud_parseInput ''hello world'') = []
   \<and> environment (Spotify_parseInput ''hello world'') = []
   \<and> genre (Spotify_parseInput ''hello world'') = []
   \<and> vibe (Spotify_parseInput ''hello world'') = ''hello''
   \<and> vibe (YouTube_parseInput ''hello world'') = ''hello''"
proof -
  have h: "noCategoryMatches Spotify_speedPatterns (toLowerCase ''hello world'')"
    "noCategoryMatches YouTube_speeds (toLowerCase ''hello world'')"
    "noCategoryMatches SoundCloud_speeds (toLowerCase ''hello world'')"
    "noCategoryMatches Spotify_environments (toLowerCase ''hello world'')"
    "noCategoryMatches YouTube_environments (toLowerCase ''hello world'')"
    "noCategoryMatches SoundCloud_environments (toLowerCase ''hello world'')"
    "noCategoryMatches Spotify_genreKeywords (toLowerCase ''hello world'')"
    "noCategoryMatches Spotify_vibePatterns (toLowerCase ''hello world'')"
    "noCategoryMatches YouTube_vibes (toLowerCase ''hello world'')"
    "noCategoryMatches SoundCloud_vibes (toLowerCase ''hello world'')"
    by code_simp+
  have t: "hd (split_char CHR '' '' ''hello world'') = ''hello''"
    by code_simp
  from parse_defaults [of "''hello world''"] h t show ?thesis
    by simp
qed

section \<open>The duplicate filter\<close>

lemma findIndex_ge: "- 1 \<le> findIndex P xs"
  by (induction xs) (auto simp: Let_def)

lemma findIndex_none: "(findIndex P xs < 0) = (\<forall>x\<in>set xs. \<not> P x)"
proof (induction xs)
  case Nil
  show ?case by simp
next
  case (Cons a xs)
  from findIndex_ge [of P xs] Cons show ?case
    by (auto simp: Let_def)
qed

lemma findIndex_neg: "findIndex P xs < 0 \<Longrightarrow> findIndex P xs = - 1"
  using findIndex_ge [of P xs] by linarith

lemma findIndex_lt: "findIndex P xs < int (length xs)"
proof (induction xs)
  case Nil
  show ?case by simp
next
  case (Cons a xs)
  then show ?case by (auto simp: Let_def)
qed

lemma findIndex_append:
  "findIndex P (pre @ ys) =
     (if \<exists>x\<in>set pre. P x then findIndex P pre
      else if findIndex P ys < 0 then - 1 else int (length pre) + findIndex P ys)"
proof (induction pre)
  case Nil
  show ?case by (simp add: findIndex_neg)
next
  case (Cons a pre)
  show ?case
  proof (cases "P a")
    case True
    then show ?thesis by simp
  next
    case False
    show ?thesis
    proof (cases "\<exists>x\<in>set pre. P x")
      case True
      with False Cons show ?thesis by (simp add: Let_def)
    next
      case noPre: False
      show ?thesis
      proof (cases "findIndex P ys < 0")
        case True
        with False noPre Cons show ?thesis by (simp add: Let_def)
      next
        case geq: False
        with False noPre Cons show ?thesis by (simp add: Let_def)
      qed
    qed
  qed
qed

lemma findIndex_here:
  assumes "P x"
  shows "(findIndex P (pre @ x # ys) = int (length pre)) = (\<forall>y\<in>set pre. \<not> P y)"
proof (cases "\<exists>y\<in>set pre. P y")
  case True
  have "findIndex P pre < int (length pre)" by (rule findIndex_lt)
  with True show ?thesis by (auto simp: findIndex_append)
next
  case False
  with assms show ?thesis by (simp add: findIndex_append)
qed

lemma keepFirst_seen_set:
  "set s = set s' \<Longrightarrow> keepFirst key s ys = keepFirst key s' ys"
proof (induction ys arbitrary: s s')
  case Nil
  show ?case by simp
next
  case (Cons y ys)
  from Cons.prems have "set (key y # s) = set (key y # s')" by simp
  from Cons.IH [OF this] Cons.IH [OF Cons.prems] Cons.prems show ?case by simp
qed

lemma uniqueBy_offset:
  "map snd (filter (\<lambda>(index, x). findIndex (\<lambda>t. key t = key x) (pre @ xs) = int index)
              (enumerate (length pre) xs))
   = keepFirst key (map key pre) xs"
proof (induction xs arbitrary: pre)
  case Nil
  then show ?case by simp
next
  case (Cons x xs)
  have step: "(findIndex (\<lambda>t. key t = key x) (pre @ x # xs) = int (length pre))
                = (key x \<notin> set (map key pre))"
  proof -
    have "(findIndex (\<lambda>t. key t = key x) (pre @ x # xs) = int (length pre))
            = (\<forall>y\<in>set pre. \<not> key y = key x)"
      by (rule findIndex_here) simp
    also have "\<dots> = (key x \<notin> set (map key pre))"
    proof
      assume none: "\<forall>y\<in>set pre. \<not> key y = key x"
      show "key x \<notin> set (map key pre)"
      proof
        assume "key x \<in> set (map key pre)"
        then obtain y where y: "y \<in> set pre" and eq: "key x = key y" by auto
        from none y have "\<not> key y = key x" by (rule bspec)
        with eq show False by simp
      qed
    next
      assume notin: "key x \<notin> set (map key pre)"
      show "\<forall>y\<in>set pre. \<not> key y = key x"
      proof
        fix y assume "y \<in> set pre"
        then have "key y \<in> set (map key pre)" by simp
        with notin show "\<not> key y = key x" by metis
      qed
    qed
    finally show ?thesis .
  qed
  from Cons.IH [of "pre @ [x]"] have ih:
    "map snd (filter (\<lambda>(index, y). findIndex (\<lambda>t. key t = key y) (pre @ x # xs) = int index)
              (enumerate (Suc (length pre)) xs))
     = keepFirst key (map key (pre @ [x])) xs"
    by simp
  show ?case
  proof (cases "key x \<in> set (map key pre)")
    case True
    then have "set (map key (pre @ [x])) = set (map key pre)" by auto
    then have "keepFirst key (map key (pre @ [x])) xs = keepFirst key (map key pre) xs"
      by (rule keepFirst_seen_set)
    with True ih step show ?thesis by simp
  next
    case False
    have "set (map key (pre @ [x])) = set (key x # map key pre)" by auto
    then have "keepFirst key (map key (pre @ [x])) xs = keepFirst key (key x # map key pre) xs"
      by (rule keepFirst_seen_set)
    with False ih step show ?thesis by simp
  qed
qed

lemma uniqueBy_keepFirst: "uniqueBy key xs = keepFirst key [] xs"
  using uniqueBy_offset [of key "[]" xs] by (simp add: uniqueBy_def)

lemma keepFirst_set: "set (keepFirst key seen xs) \<subseteq> set xs"
  by (induction xs arbitrary: seen) auto

lemma keepFirst_fresh: "\<forall>x\<in>set (keepFirst key seen xs). key x \<notin> set seen"
proof (induction xs arbitrary: seen)
  case Nil
  show ?case by simp
next
  case (Cons a xs)
  from Cons [of seen] Cons [of "key a # seen"] show ?case by auto
qed

lemma keepFirst_distinct: "distinct (map key (keepFirst key seen xs))"
proof (induction xs arbitrary: seen)
  case Nil
  show ?case by simp
next
  case (Cons a xs)
  from keepFirst_fresh [of key "key a # seen" xs] Cons [of seen] Cons [of "key a # seen"]
  show ?case by auto
qed

lemma keepFirst_length: "length (keepFirst key seen xs) \<le> length xs"
  by (induction xs arbitrary: seen) (auto simp: le_SucI)

section \<open>Merging and ranking\<close>

lemma uniqueTracks_keepFirst: "uniqueTracks xs = keepFirst dedupKey [] xs"
  by (simp add: uniqueTracks_def uniqueBy_keepFirst)

lemma dedupKey_titleArtist: "titleArtist s = titleArtist t \<Longrightarrow> dedupKey s = dedupKey t"
  by (simp add: titleArtist_def dedupKey_def)

lemma distinct_titleArtist:
  assumes "distinct (map dedupKey ts)"
  shows "distinct (map titleArtist ts)"
proof -
  from assms have d: "distinct ts" and inj: "inj_on dedupKey (set ts)"
    by (simp_all add: distinct_map)
  have "inj_on titleArtist (set ts)"
  proof (rule inj_onI)
    fix s t assume "s \<in> set ts" "t \<in> set ts" "titleArtist s = titleArtist t"
    with inj show "s = t" by (auto dest: dedupKey_titleArtist inj_onD)
  qed
  with d show ?thesis by (simp add: distinct_map)
qed

lemma map_fst_scored:
  "map fst (map (\<lambda>(i, track). (track, f i track)) (enumerate n ts)) = ts"
proof -
  have "fst \<circ> (\<lambda>(i, track). (track, f i track)) = snd" by auto
  then show ?thesis by simp
qed

lemma slice0_take: "\<exists>n. slice0 xs m = take n xs"
  by (auto simp: slice0_def)

lemma ranked_mset:
  "mset (map fst (sort_key k (map (\<lambda>(i, track). (track, f i track)) (enumerate n ts)))) = mset ts"
proof -
  have "mset (map fst (sort_key k (map (\<lambda>(i, track). (track, f i track)) (enumerate n ts))))
        = mset (map fst (map (\<lambda>(i, track). (track, f i track)) (enumerate n ts)))"
    by (simp del: map_map)
  then show ?thesis by (simp only: map_fst_scored)
qed

lemma mergeAndRank_take:
  "\<exists>n ys. mset ys = mset (uniqueTracks xs)
        \<and> mergeAndRankResults pd clock xs ctx m = take n ys"
proof -
  let ?scored = "map (\<lambda>(i, track). (track, scoreTrack pd (clock i) track ctx))
                   (enumerate 0 (uniqueTracks xs))"
  let ?sorted = "sort_key (\<lambda>(track, score). - score) ?scored"
  obtain n where n: "slice0 ?sorted m = take n ?sorted"
    using slice0_take by blast
  have "mergeAndRankResults pd clock xs ctx m = take n (map fst ?sorted)"
    by (simp add: mergeAndRankResults_def n take_map)
  moreover have "mset (map fst ?sorted) = mset (uniqueTracks xs)"
    by (rule ranked_mset)
  ultimately show ?thesis by blast
qed

lemma mergeAndRank_subset: "set (mergeAndRankResults pd clock xs ctx m) \<subseteq> set xs"
proof -
  obtain n ys where ys: "mset ys = mset (uniqueTracks xs)"
    and r: "mergeAndRankResults pd clock xs ctx m = take n ys"
    using mergeAndRank_take by blast
  from ys have "set ys = set (uniqueTracks xs)" by (rule mset_eq_setD)
  also have "\<dots> \<subseteq> set xs" by (simp add: uniqueTracks_keepFirst keepFirst_set)
  finally have "set ys \<subseteq> set xs" .
  with r show ?thesis using set_take_subset [of n ys] by auto
qed

lemma mergeAndRank_distinct_keys:
  "distinct (map dedupKey (mergeAndRankResults pd clock xs ctx m))"
proof -
  obtain n ys where ys: "mset ys = mset (uniqueTracks xs)"
    and r: "mergeAndRankResults pd clock xs ctx m = take n ys"
    using mergeAndRank_take by blast
  from ys have "mset (map dedupKey ys) = mset (map dedupKey (uniqueTracks xs))" by simp
  then have "distinct (map dedupKey ys) = distinct (map dedupKey (uniqueTracks xs))"
    by (rule mset_eq_imp_distinct_iff)
  then have "distinct (map dedupKey ys)"
    by (simp add: uniqueTracks_keepFirst keepFirst_distinct)
  then have "distinct (take n (map dedupKey ys))" by (rule distinct_take)
  with r show ?thesis by (simp add: take_map)
qed

lemma mergeAndRank_distinct_pairs:
  "distinct (map titleArtist (mergeAndRankResults pd clock xs ctx m))"
  by (rule distinct_titleArtist) (rule mergeAndRank_distinct_keys)

lemma mergeAndRank_nil: "mergeAndRankResults pd clock [] ctx m = []"
  using mergeAndRank_subset [of pd clock "[]" ctx m] by simp

section \<open>The orchestration of the adapters\<close>

lemma afterRace_cases:
  "afterRace tr raced =
     Fulfilled (case raced of Fulfilled (Some r) \<Rightarrow> map tr (tracks r) | _ \<Rightarrow> [])"
  by (simp add: afterRace_def split: settled.splits option.splits)

lemma searchProvider_fulfilled:
  "searchProvider svc ph p v (timeout (providerConfig (cfg_providers cfg) p))
     = Fulfilled (providerTracks svc ph cfg v p)"
  by (cases p) (simp_all add: providerTracks_def searchProvider_def afterRace_cases)

lemma providerTracks_provider:
  "t \<in> set (providerTracks svc ph cfg v p) \<Longrightarrow> provider t = p"
  by (cases p)
     (auto simp: providerTracks_def searchProvider_def afterRace_cases
         transformYouTubeTrack_def transformSoundCloudTrack_def transformSpotifyTrack_def
       split: settled.splits option.splits)

lemma adapterFails_no_tracks:
  "adapterFails svc ph cfg v p \<Longrightarrow> providerTracks svc ph cfg v p = []"
  by (cases p)
     (auto simp: adapterFails_def providerTracks_def searchProvider_def afterRace_cases Let_def
       split: settled.splits option.splits)

lemma adapterDelivers_tracks:
  "adapterDelivers svc ph cfg v p \<Longrightarrow> providerTracks svc ph cfg v p \<noteq> []"
  by (cases p)
     (auto simp: adapterDelivers_def providerTracks_def searchProvider_def afterRace_cases Let_def
       split: settled.splits option.splits)

lemma sequentialPhase_Cons:
  "sequentialPhase svc v cfg (p # rest) st =
     (let found = providerTracks svc Sequential cfg v p;
          st1 = st\<lparr> calls := calls st @ [invoke svc Sequential cfg v (resumedAt (calls st)) p] \<rparr>
      in if found \<noteq> [] then
           (let st2 = st1\<lparr> allTracks := allTracks st1 @ found,
                           usedProviders := usedProviders st1 @ [p] \<rparr>
            in if int (length (allTracks st2)) \<ge> maxResults cfg \<and> \<not> fallbackEnabled cfg
               then Inr st2
               else sequentialPhase svc v cfg rest st2)
         else sequentialPhase svc v cfg rest st1)"
  by (simp add: searchProvider_fulfilled Let_def)

declare sequentialPhase.simps(2) [simp del]

lemma sequentialPhase_returns: "\<exists>st'. sequentialPhase svc v cfg ps st = Inr st'"
  by (induction ps arbitrary: st) (auto simp: sequentialPhase_Cons Let_def)

lemma sequentialPhase_used:
  "sequentialPhase svc v cfg ps st = Inr st' \<Longrightarrow>
     set (usedProviders st') \<subseteq>
       set (usedProviders st) \<union> {p \<in> set ps. providerTracks svc Sequential cfg v p \<noteq> []}"
proof (induction ps arbitrary: st)
  case Nil
  then show ?case by simp
next
  case (Cons p ps)
  show ?case
  proof (cases "providerTracks svc Sequential cfg v p = []")
    case True
    with Cons.prems have
      "sequentialPhase svc v cfg ps (st\<lparr> calls := calls st @ [invoke svc Sequential cfg v (resumedAt (calls st)) p] \<rparr>) = Inr st'"
      by (simp add: sequentialPhase_Cons)
    from Cons.IH [OF this] show ?thesis by auto
  next
    case False
    let ?st2 = "st\<lparr> calls := calls st @ [invoke svc Sequential cfg v (resumedAt (calls st)) p],
                    allTracks := allTracks st @ providerTracks svc Sequential cfg v p,
                    usedProviders := usedProviders st @ [p] \<rparr>"
    from False Cons.prems have
      "st' = ?st2 \<or> sequentialPhase svc v cfg ps ?st2 = Inr st'"
      by (auto simp: sequentialPhase_Cons Let_def split: if_splits)
    then show ?thesis
    proof
      assume "st' = ?st2"
      with False show ?thesis by auto
    next
      assume "sequentialPhase svc v cfg ps ?st2 = Inr st'"
      from Cons.IH [OF this] False show ?thesis by auto
    qed
  qed
qed

lemma sequentialPhase_tracks:
  "sequentialPhase svc v cfg ps st = Inr st' \<Longrightarrow>
     set (allTracks st') \<subseteq>
       set (allTracks st) \<union> (\<Union>p\<in>set ps. set (providerTracks svc Sequential cfg v p))"
proof (induction ps arbitrary: st)
  case Nil
  then show ?case by simp
next
  case (Cons p ps)
  show ?case
  proof (cases "providerTracks svc Sequential cfg v p = []")
    case True
    with Cons.prems have
      "sequentialPhase svc v cfg ps (st\<lparr> calls := calls st @ [invoke svc Sequential cfg v (resumedAt (calls st)) p] \<rparr>) = Inr st'"
      by (simp add: sequentialPhase_Cons)
    from Cons.IH [OF this] show ?thesis by auto
  next
    case False
    let ?st2 = "st\<lparr> calls := calls st @ [invoke svc Sequential cfg v (resumedAt (calls st)) p],
                    allTracks := allTracks st @ providerTracks svc Sequential cfg v p,
                    usedProviders := usedProviders st @ [p] \<rparr>"
    from False Cons.prems have
      "st' = ?st2 \<or> sequentialPhase svc v cfg ps ?st2 = Inr st'"
      by (auto simp: sequentialPhase_Cons Let_def split: if_splits)
    then show ?thesis
    proof
      assume "st' = ?st2"
      then show ?thesis by auto
    next
      assume "sequentialPhase svc v cfg ps ?st2 = Inr st'"
      from Cons.IH [OF this] show ?thesis by auto
    qed
  qed
qed

lemma sequentialPhase_calls:
  "sequentialPhase svc v cfg ps st = Inr st' \<Longrightarrow>
     callsIn Parallel (calls st') = callsIn Parallel (calls st)"
proof (induction ps arbitrary: st)
  case Nil
  then show ?case by simp
next
  case (Cons p ps)
  show ?case
  proof (cases "providerTracks svc Sequential cfg v p = []")
    case True
    with Cons.prems have
      "sequentialPhase svc v cfg ps (st\<lparr> calls := calls st @ [invoke svc Sequential cfg v (resumedAt (calls st)) p] \<rparr>) = Inr st'"
      by (simp add: sequentialPhase_Cons)
    from Cons.IH [OF this] show ?thesis by (simp add: callsIn_def invocationsIn_def invoke_def)
  next
    case False
    let ?st2 = "st\<lparr> calls := calls st @ [invoke svc Sequential cfg v (resumedAt (calls st)) p],
                    allTracks := allTracks st @ providerTracks svc Sequential cfg v p,
                    usedProviders := usedProviders st @ [p] \<rparr>"
    from False Cons.prems have
      "st' = ?st2 \<or> sequentialPhase svc v cfg ps ?st2 = Inr st'"
      by (auto simp: sequentialPhase_Cons Let_def split: if_splits)
    then show ?thesis
    proof
      assume "st' = ?st2"
      then show ?thesis by (simp add: callsIn_def invocationsIn_def invoke_def)
    next
      assume "sequentialPhase svc v cfg ps ?st2 = Inr st'"
      from Cons.IH [OF this] show ?thesis by (simp add: callsIn_def invocationsIn_def invoke_def)
    qed
  qed
qed

lemma sequentialPhase_nothing:
  "\<forall>p\<in>set ps. providerTracks svc Sequential cfg v p = [] \<Longrightarrow>
     \<exists>cs. sequentialPhase svc v cfg ps st = Inr (st\<lparr> calls := cs \<rparr>)"
proof (induction ps arbitrary: st)
  case Nil
  have "st = st\<lparr> calls := calls st \<rparr>" by simp
  then show ?case by (metis sequentialPhase.simps(1))
next
  case (Cons p ps)
  let ?st1 = "st\<lparr> calls := calls st @ [invoke svc Sequential cfg v (resumedAt (calls st)) p] \<rparr>"
  from Cons.prems have "\<forall>p\<in>set ps. providerTracks svc Sequential cfg v p = []" by simp
  from Cons.IH [OF this, of ?st1] obtain cs where
    "sequentialPhase svc v cfg ps ?st1 = Inr (?st1\<lparr> calls := cs \<rparr>)" by blast
  with Cons.prems have "sequentialPhase svc v cfg (p # ps) st = Inr (st\<lparr> calls := cs \<rparr>)"
    by (simp add: sequentialPhase_Cons)
  then show ?case ..
qed

lemma mergeSettled_distinct:
  "distinct ps \<Longrightarrow>
     mergeSettled (zip ps (map (\<lambda>p. Fulfilled (T p)) ps)) st =
       st\<lparr> allTracks := allTracks st
              @ concat (map T (filter (\<lambda>p. p \<notin> set (usedProviders st) \<and> T p \<noteq> []) ps)),
           usedProviders := usedProviders st
              @ filter (\<lambda>p. p \<notin> set (usedProviders st) \<and> T p \<noteq> []) ps \<rparr>"
proof (induction ps arbitrary: st)
  case Nil
  show ?case by simp
next
  case (Cons p ps)
  from Cons.prems have d: "distinct ps" and np: "p \<notin> set ps" by simp_all
  have same: "\<And>u. filter (\<lambda>q. q \<notin> set (u @ [p]) \<and> T q \<noteq> []) ps
                 = filter (\<lambda>q. q \<notin> set u \<and> T q \<noteq> []) ps"
    using np by (auto intro: filter_cong)
  show ?case
  proof (cases "T p \<noteq> [] \<and> p \<notin> set (usedProviders st)")
    case True
    with Cons.IH [OF d] same show ?thesis by simp
  next
    case False
    with Cons.IH [OF d] show ?thesis by auto
  qed
qed

lemma distinct_enabledProviders:
  assumes "distinct (providerKeys (cfg_providers cfg))"
  shows "distinct (enabledProviders cfg)"
proof -
  let ?ps = "cfg_providers cfg"
  let ?entries = "filter (\<lambda>(p, c). enabled c) (map (\<lambda>p. (p, providerConfig ?ps p)) (providerKeys ?ps))"
  have "\<And>ks. map fst (filter (\<lambda>(p, c). enabled c) (map (\<lambda>p. (p, providerConfig ?ps p)) ks))
          = filter (\<lambda>p. enabled (providerConfig ?ps p)) ks"
  proof -
    fix ks
    show "map fst (filter (\<lambda>(p, c). enabled c) (map (\<lambda>p. (p, providerConfig ?ps p)) ks))
          = filter (\<lambda>p. enabled (providerConfig ?ps p)) ks"
      by (induction ks) auto
  qed
  then have "map fst ?entries = filter (\<lambda>p. enabled (providerConfig ?ps p)) (providerKeys ?ps)" .
  with assms have "distinct (map fst ?entries)" by simp
  moreover have "mset (map fst (sort_key (\<lambda>(p, c). priority c) ?entries)) = mset (map fst ?entries)"
    by simp
  ultimately have "distinct (map fst (sort_key (\<lambda>(p, c). priority c) ?entries))"
    using mset_eq_imp_distinct_iff by blast
  then show ?thesis by (simp add: enabledProviders_def Let_def)
qed

lemma parallelFallback_distinct:
  assumes "distinct (enabledProviders cfg)"
  shows "parallelFallback svc v cfg st =
     st\<lparr> calls := calls st @ map (invoke svc Parallel cfg v (resumedAt (calls st))) (enabledProviders cfg),
         allTracks := allTracks st
            @ concat (map (providerTracks svc Parallel cfg v)
                (filter (\<lambda>p. p \<notin> set (usedProviders st) \<and> providerTracks svc Parallel cfg v p \<noteq> [])
                   (enabledProviders cfg))),
         usedProviders := usedProviders st
            @ filter (\<lambda>p. p \<notin> set (usedProviders st) \<and> providerTracks svc Parallel cfg v p \<noteq> [])
                (enabledProviders cfg) \<rparr>"
  using mergeSettled_distinct [OF assms, of "providerTracks svc Parallel cfg v"
      "st\<lparr> calls := calls st @ map (invoke svc Parallel cfg v (resumedAt (calls st))) (enabledProviders cfg) \<rparr>"]
  by (simp add: parallelFallback_def Let_def searchProvider_fulfilled)

lemma searchMusic_trace_none:
  "enabledProviders (mergeConfig defaultConfig config) = [] \<Longrightarrow>
     searchMusic_trace rt svc v config = ([], Inl (Error ''No music providers enabled''))"
  by (simp add: searchMusic_trace_def Let_def)

lemma searchMusic_trace_some:
  assumes "enabledProviders (mergeConfig defaultConfig config) \<noteq> []"
    and "sequentialPhase svc v (mergeConfig defaultConfig config)
           (enabledProviders (mergeConfig defaultConfig config))
           \<lparr> allTracks = [], usedProviders = [], calls = [] \<rparr> = Inr st"
  shows "searchMusic_trace rt svc v config =
     (calls (afterFallback svc v (mergeConfig defaultConfig config) st),
      Inr (respond rt v (mergeConfig defaultConfig config)
             (afterFallback svc v (mergeConfig defaultConfig config) st)))"
  using assms by (simp add: searchMusic_trace_def Let_def)

lemma respond_fields:
  "providers (respond rt v cfg st) = usedProviders st"
  "tracks (respond rt v cfg st) =
     mergeAndRankResults (Date_parse rt) (\<lambda>i. Date_now rt (Suc i)) (allTracks st) v (maxResults cfg)"
  "totalResults (respond rt v cfg st) = length (tracks (respond rt v cfg st))"
  by (simp_all add: respond_def Let_def)

lemma providerTracks_nonempty_iff:
  "(providerTracks svc ph cfg v p \<noteq> []) = adapterDelivers svc ph cfg v p"
proof (cases p)
  case youtube
  then show ?thesis
    by (cases "raceWithTimeout (youtubeService svc ph v) youtube
                 (timeout (providerConfig (cfg_providers cfg) youtube))" rule: hasTracks.cases)
       (simp_all add: adapterDelivers_def providerTracks_def searchProvider_def afterRace_cases)
next
  case soundcloud
  then show ?thesis
    by (cases "raceWithTimeout (soundcloudService svc ph v) soundcloud
                 (timeout (providerConfig (cfg_providers cfg) soundcloud))" rule: hasTracks.cases)
       (simp_all add: adapterDelivers_def providerTracks_def searchProvider_def afterRace_cases)
next
  case spotify
  then show ?thesis
    by (cases "raceWithTimeout (spotifyService svc ph v) spotify
                 (timeout (providerConfig (cfg_providers cfg) spotify))" rule: hasTracks.cases)
       (simp_all add: adapterDelivers_def providerTracks_def searchProvider_def afterRace_cases)
qed

lemma mergeSettled_nothing:
  "\<forall>p\<in>set ps. T p = [] \<Longrightarrow> mergeSettled (zip ps (map (\<lambda>p. Fulfilled (T p)) ps)) st = st"
  by (induction ps arbitrary: st) simp_all

lemma parallelFallback_nothing:
  assumes "\<forall>p\<in>set (enabledProviders cfg). providerTracks svc Parallel cfg v p = []"
  shows "parallelFallback svc v cfg st =
           st\<lparr> calls := calls st @ map (invoke svc Parallel cfg v (resumedAt (calls st))) (enabledProviders cfg) \<rparr>"
  using mergeSettled_nothing [OF assms,
      of "st\<lparr> calls := calls st @ map (invoke svc Parallel cfg v (resumedAt (calls st))) (enabledProviders cfg) \<rparr>"]
  by (simp add: parallelFallback_def Let_def searchProvider_fulfilled)

lemma searchMusic_eval:
  assumes "enabledProviders (mergeConfig defaultConfig config) \<noteq> []"
    and "sequentialPhase svc v (mergeConfig defaultConfig config)
           (enabledProviders (mergeConfig defaultConfig config))
           \<lparr> allTracks = [], usedProviders = [], calls = [] \<rparr> = Inr st"
  shows "searchMusic rt svc v config =
     Inr (respond rt v (mergeConfig defaultConfig config)
            (afterFallback svc v (mergeConfig defaultConfig config) st))"
  using searchMusic_trace_some [OF assms] by (simp add: searchMusic_def)

lemma respond_no_tracks:
  "allTracks st = [] \<Longrightarrow>
     respond rt v cfg st =
       \<lparr> tracks = [], totalResults = 0, providers = usedProviders st,
         searchTime = Date_now rt 1 - Date_now rt 0 \<rparr>"
  by (simp add: respond_def Let_def mergeAndRank_nil uniqueTracks_keepFirst)

lemma searchMusic_no_tracks:
  assumes ne: "enabledProviders (mergeConfig defaultConfig config) \<noteq> []"
    and none: "\<forall>p\<in>set (enabledProviders (mergeConfig defaultConfig config)). \<forall>ph.
                 providerTracks svc ph (mergeConfig defaultConfig config) v p = []"
  shows "searchMusic rt svc v config =
     Inr \<lparr> tracks = [], totalResults = 0, providers = [],
           searchTime = Date_now rt 1 - Date_now rt 0 \<rparr>"
proof -
  let ?cfg = "mergeConfig defaultConfig config"
  let ?init = "\<lparr> allTracks = [], usedProviders = [], calls = [] \<rparr>"
  from none have seqNone:
    "\<forall>p\<in>set (enabledProviders ?cfg). providerTracks svc Sequential ?cfg v p = []"
    and parNone:
    "\<forall>p\<in>set (enabledProviders ?cfg). providerTracks svc Parallel ?cfg v p = []"
    by simp_all
  obtain cs where seq0: "sequentialPhase svc v ?cfg (enabledProviders ?cfg) ?init
                           = Inr (?init\<lparr> calls := cs \<rparr>)"
    using sequentialPhase_nothing [OF seqNone, where st = ?init] by blast
  let ?after = "\<lparr> allTracks = [], usedProviders = [], calls = cs \<rparr>"
  from seq0 have seq: "sequentialPhase svc v ?cfg (enabledProviders ?cfg) ?init = Inr ?after"
    by simp
  have "allTracks (afterFallback svc v ?cfg ?after) = []"
    and "usedProviders (afterFallback svc v ?cfg ?after) = []"
    using parallelFallback_nothing [OF parNone, where st = ?after]
    by (simp_all add: afterFallback_def)
  then have "respond rt v ?cfg (afterFallback svc v ?cfg ?after) =
      \<lparr> tracks = [], totalResults = 0, providers = [],
        searchTime = Date_now rt 1 - Date_now rt 0 \<rparr>"
    by (simp add: respond_no_tracks)
  with searchMusic_eval [OF ne seq] show ?thesis by simp
qed

lemma failingServices_no_tracks: "providerTracks failingServices ph cfg v p = []"
  by (cases p)
     (simp_all add: providerTracks_def searchProvider_def afterRace_cases raceWithTimeout_def setTimeoutDelay_def
        failingServices_def Let_def)

lemma emptyServices_no_tracks: "providerTracks emptyServices ph cfg v p = []"
  by (cases p)
     (simp_all add: providerTracks_def searchProvider_def afterRace_cases raceWithTimeout_def setTimeoutDelay_def
        emptyServices_def Let_def)

lemma searchMusic_returns:
  assumes "enabledProviders (mergeConfig defaultConfig config) \<noteq> []"
  shows "\<exists>r. searchMusic rt svc v config = Inr r"
proof -
  obtain st where "sequentialPhase svc v (mergeConfig defaultConfig config)
           (enabledProviders (mergeConfig defaultConfig config))
           \<lparr> allTracks = [], usedProviders = [], calls = [] \<rparr> = Inr st"
    using sequentialPhase_returns by blast
  from searchMusic_eval [OF assms this] show ?thesis by blast
qed

lemma invoke_fields [simp]:
  "phase (invoke svc ph cfg v t p) = ph"
  "invoked (invoke svc ph cfg v t p) = p"
  "startedAt (invoke svc ph cfg v t p) = t"
  "settledAt (invoke svc ph cfg v t p)
     = t + searchProviderSettlesAfter svc ph p v (timeout (providerConfig (cfg_providers cfg) p))"
  by (simp_all add: invoke_def)

lemma invocationsIn_simps:
  "invocationsIn ph [] = []"
  "invocationsIn ph (xs @ ys) = invocationsIn ph xs @ invocationsIn ph ys"
  "invocationsIn ph (map (invoke svc ph cfg v t) ps) = map (invoke svc ph cfg v t) ps"
  by (simp_all add: invocationsIn_def)

lemma callsIn_simps:
  "callsIn ph [] = []"
  "callsIn ph (xs @ ys) = callsIn ph xs @ callsIn ph ys"
  "callsIn ph (map (invoke svc ph cfg v t) ps) = ps"
  by (simp_all add: callsIn_def invocationsIn_def comp_def)

lemma sequentialPhase_invocations:
  "sequentialPhase svc v cfg ps st = Inr st' \<Longrightarrow>
     invocationsIn Parallel (calls st') = invocationsIn Parallel (calls st)"
proof (induction ps arbitrary: st)
  case Nil
  then show ?case by simp
next
  case (Cons p ps)
  let ?st1 = "st\<lparr> calls := calls st @ [invoke svc Sequential cfg v (resumedAt (calls st)) p] \<rparr>"
  let ?st2 = "?st1\<lparr> allTracks := allTracks st @ providerTracks svc Sequential cfg v p,
                      usedProviders := usedProviders st @ [p] \<rparr>"
  from Cons.prems have
    "st' = ?st2 \<or> sequentialPhase svc v cfg ps ?st2 = Inr st'
       \<or> sequentialPhase svc v cfg ps ?st1 = Inr st'"
    by (auto simp: sequentialPhase_Cons Let_def split: if_splits)
  then show ?case
  proof (elim disjE)
    assume "st' = ?st2"
    then show ?thesis by (simp add: invocationsIn_def)
  next
    assume "sequentialPhase svc v cfg ps ?st2 = Inr st'"
    from Cons.IH [OF this] show ?thesis by (simp add: invocationsIn_def)
  next
    assume "sequentialPhase svc v cfg ps ?st1 = Inr st'"
    from Cons.IH [OF this] show ?thesis by (simp add: invocationsIn_def)
  qed
qed

lemma awaitedInTurn_resumed:
  "awaitedInTurn t cs \<Longrightarrow>
     fold (\<lambda>c t. max (settledAt c) t) cs t = (if cs = [] then t else settledAt (last cs))"
  by (induction cs arbitrary: t) (auto simp: max_def)

lemma awaitedInTurn_snoc:
  "awaitedInTurn t (cs @ [c]) =
     (awaitedInTurn t cs \<and> startedAt c = (if cs = [] then t else settledAt (last cs))
        \<and> startedAt c \<le> settledAt c)"
  by (induction cs arbitrary: t) auto

lemma awaitedInTurn_invoke:
  "awaitedInTurn 0 cs \<Longrightarrow> awaitedInTurn 0 (cs @ [invoke svc ph cfg v (resumedAt cs) p])"
  by (simp add: awaitedInTurn_snoc resumedAt_def awaitedInTurn_resumed)

lemma sequentialPhase_awaitedInTurn:
  "sequentialPhase svc v cfg ps st = Inr st' \<Longrightarrow> awaitedInTurn 0 (calls st) \<Longrightarrow>
     awaitedInTurn 0 (calls st')"
proof (induction ps arbitrary: st)
  case Nil
  then show ?case by simp
next
  case (Cons p ps)
  let ?st1 = "st\<lparr> calls := calls st @ [invoke svc Sequential cfg v (resumedAt (calls st)) p] \<rparr>"
  let ?st2 = "?st1\<lparr> allTracks := allTracks st @ providerTracks svc Sequential cfg v p,
                      usedProviders := usedProviders st @ [p] \<rparr>"
  from Cons.prems(2) have turn: "awaitedInTurn 0 (calls ?st1)" "awaitedInTurn 0 (calls ?st2)"
    by (simp_all add: awaitedInTurn_invoke)
  from Cons.prems(1) have
    "st' = ?st2 \<or> sequentialPhase svc v cfg ps ?st2 = Inr st'
       \<or> sequentialPhase svc v cfg ps ?st1 = Inr st'"
    by (auto simp: sequentialPhase_Cons Let_def split: if_splits)
  then show ?case
  proof (elim disjE)
    assume "st' = ?st2"
    with turn show ?thesis by simp
  next
    assume "sequentialPhase svc v cfg ps ?st2 = Inr st'"
    from Cons.IH [OF this turn(2)] show ?thesis .
  next
    assume "sequentialPhase svc v cfg ps ?st1 = Inr st'"
    from Cons.IH [OF this turn(1)] show ?thesis .
  qed
qed

lemma three_providers:
  assumes d: "distinct ps" and s: "set ps = {a, b, c}" and ab: "a \<noteq> b" and ac: "a \<noteq> c" and bc: "b \<noteq> c"
  shows "\<exists>p q. {p, q} = {b, c} \<and> (ps = [a, p, q] \<or> ps = [p, a, q] \<or> ps = [p, q, a])"
proof -
  from d have "length ps = card (set ps)" by (simp add: distinct_card)
  also from s ab ac bc have "\<dots> = 3" by simp
  finally have "length ps = 3" .
  then obtain x y z where ps: "ps = [x, y, z]"
    by (auto simp: numeral_3_eq_3 length_Suc_conv)
  from d ps have xyz: "x \<noteq> y" "x \<noteq> z" "y \<noteq> z" by auto
  from s ps have mem: "{x, y, z} = {a, b, c}" by simp
  then have "a = x \<or> a = y \<or> a = z" by auto
  then show ?thesis
  proof (elim disjE)
    assume "a = x"
    with mem xyz ab ac bc have "{y, z} = {b, c}" by auto
    with ps \<open>a = x\<close> show ?thesis by blast
  next
    assume "a = y"
    with mem xyz ab ac bc have "{x, z} = {b, c}" by auto
    with ps \<open>a = y\<close> show ?thesis by blast
  next
    assume "a = z"
    with mem xyz ab ac bc have "{x, y} = {b, c}" by auto
    with ps \<open>a = z\<close> show ?thesis by blast
  qed
qed

lemma sequentialPhase_three:
  assumes Ta: "providerTracks svc Sequential cfg v a = []"
    and Tp: "providerTracks svc Sequential cfg v p \<noteq> []"
    and Tq: "providerTracks svc Sequential cfg v q \<noteq> []"
    and ns: "fallbackEnabled cfg
             \<or> int (length (providerTracks svc Sequential cfg v p)) < maxResults cfg"
    and ps: "ps = [a, p, q] \<or> ps = [p, a, q] \<or> ps = [p, q, a]"
  shows "\<exists>cs. sequentialPhase svc v cfg ps \<lparr> allTracks = [], usedProviders = [], calls = [] \<rparr>
           = Inr \<lparr> allTracks = providerTracks svc Sequential cfg v p
                              @ providerTracks svc Sequential cfg v q,
                   usedProviders = [p, q], calls = cs \<rparr>"
  using ps
proof (elim disjE)
  assume "ps = [a, p, q]"
  with Ta Tp Tq ns show ?thesis by (auto simp: sequentialPhase_Cons Let_def)
next
  assume "ps = [p, a, q]"
  with Ta Tp Tq ns show ?thesis by (auto simp: sequentialPhase_Cons Let_def)
next
  assume "ps = [p, q, a]"
  with Ta Tp Tq ns show ?thesis by (auto simp: sequentialPhase_Cons Let_def)
qed

lemma afterFallback_nothing_new:
  assumes d: "distinct (enabledProviders cfg)"
    and old: "\<forall>x\<in>set (enabledProviders cfg).
                x \<in> set (usedProviders st) \<or> providerTracks svc Parallel cfg v x = []"
  shows "allTracks (afterFallback svc v cfg st) = allTracks st
       \<and> usedProviders (afterFallback svc v cfg st) = usedProviders st"
proof -
  from old have "filter (\<lambda>p. p \<notin> set (usedProviders st) \<and> providerTracks svc Parallel cfg v p \<noteq> [])
                   (enabledProviders cfg) = []"
    by (auto simp: filter_empty_conv)
  then show ?thesis
    by (simp add: afterFallback_def parallelFallback_distinct [OF d])
qed

section \<open>Duplicates and ranking in the response\<close>

lemma searchMusic_distinct_pairs:
  assumes "searchMusic rt svc v config = Inr r"
  shows "distinct (map titleArtist (tracks r))"
proof (cases "enabledProviders (mergeConfig defaultConfig config) = []")
  case True
  with assms show ?thesis by (simp add: searchMusic_def searchMusic_trace_none)
next
  case False
  obtain st where "sequentialPhase svc v (mergeConfig defaultConfig config)
           (enabledProviders (mergeConfig defaultConfig config))
           \<lparr> allTracks = [], usedProviders = [], calls = [] \<rparr> = Inr st"
    using sequentialPhase_returns by blast
  from searchMusic_eval [OF False this, of rt] assms
  have "tracks r = mergeAndRankResults (Date_parse rt) (\<lambda>i. Date_now rt (Suc i))
      (allTracks (afterFallback svc v (mergeConfig defaultConfig config) st)) v
      (maxResults (mergeConfig defaultConfig config))"
    by (auto simp: respond_fields)
  then show ?thesis by (simp only: mergeAndRank_distinct_pairs)
qed

lemma mergeAndRank_single:
  "uniqueTracks xs = [t] \<Longrightarrow> mergeAndRankResults pd clock xs ctx 10 = [t]"
  by (simp add: mergeAndRankResults_def slice0_def)

lemma keepFirst_keys: "key ` set (keepFirst key seen xs) = key ` set xs - set seen"
proof (induction xs arbitrary: seen)
  case Nil
  show ?case by simp
next
  case (Cons a xs)
  from Cons [of seen] Cons [of "key a # seen"] show ?case by auto
qed

lemma keepFirst_subseq: "subseq (keepFirst key seen xs) xs"
  by (induction xs arbitrary: seen) auto

lemma scored_cong:
  assumes "\<forall>i<length ts. f i (ts ! i) = g i (ts ! i)"
  shows "map (\<lambda>(i, track). (track, f i track)) (enumerate 0 ts)
       = map (\<lambda>(i, track). (track, g i track)) (enumerate 0 ts)"
proof (rule map_cong [OF refl])
  fix x assume "x \<in> set (enumerate 0 ts)"
  then have "fst x < length ts \<and> snd x = ts ! fst x"
    by (simp add: in_set_enumerate_eq)
  with assms show "(case x of (i, track) \<Rightarrow> (track, f i track))
                 = (case x of (i, track) \<Rightarrow> (track, g i track))"
    by (cases x) simp
qed

lemma score_parts:
  "popularityScore recentTrack = 0" "popularityScore olderTrack = 0"
  "providerScore recentTrack = 3" "providerScore olderTrack = 5"
  "durationPreference recentTrack = 3" "durationPreference olderTrack = 2"
  "genreMatch recentTrack c = 0" "genreMatch olderTrack c = 0"
  by (simp_all add: popularityScore_def providerScore_def durationPreference_def genreMatch_def
        recentTrack_def olderTrack_def)

lemma relevance_parts:
  "titleRelevance recentTrack (toLowerCase ''study'') = 0"
  "titleRelevance olderTrack (toLowerCase ''study'') = 0"
  by code_simp+

lemma recency_parts:
  "publishedWithinYear parseDates (november2025 i) recentTrack"
  "publishedWithinYear parseDates (laterNovember2025 i) recentTrack"
  "\<not> publishedWithinYear parseDates (laterNovember2025 i) olderTrack"
  "\<not> publishedWithinYear parseDates (february2026 i) recentTrack"
  "\<not> publishedWithinYear parseDates (november2025 i) olderTrack"
  "\<not> publishedWithinYear parseDates (february2026 i) olderTrack"
  by (simp_all add: publishedWithinYear_def parseDates_def recentTrack_def olderTrack_def
        november2025_def laterNovember2025_def february2026_def)

lemma example_scores:
  "scoreTrack parseDates (november2025 i) recentTrack ''study'' = 8"
  "scoreTrack parseDates (february2026 i) recentTrack ''study'' = 6"
  "scoreTrack parseDates (november2025 i) olderTrack ''study'' = 7"
  "scoreTrack parseDates (february2026 i) olderTrack ''study'' = 7"
  by (simp_all add: scoreTrack_def score_parts relevance_parts recency_parts Let_def)

lemma example_unique: "uniqueTracks [recentTrack, olderTrack] = [recentTrack, olderTrack]"
  by code_simp

lemma scoreAndRank_cong:
  assumes bonus: "\<forall>i<length hits.
        getRecencyBonus rt (clockA i 0) (orElse (hit_publishedAt (hits ! i)) [])
      = getRecencyBonus rt (clockB i 0) (orElse (hit_publishedAt (hits ! i)) [])"
    and stamp: "\<forall>i<length hits.
        orElse (hit_publishedAt (hits ! i)) (toISOString rt (clockA i 1))
      = orElse (hit_publishedAt (hits ! i)) (toISOString rt (clockB i 1))"
  shows "scoreAndRank (rt\<lparr> Date_new := clockA \<rparr>) searchContext isRetry hits
       = scoreAndRank (rt\<lparr> Date_new := clockB \<rparr>) searchContext isRetry hits"
proof -
  let ?valid = "filter (\<lambda>(i, hit). isValidMusicVideo hit searchContext isRetry) (enumerate 0 hits)"
  let ?A = "rt\<lparr> Date_new := clockA \<rparr>" and ?B = "rt\<lparr> Date_new := clockB \<rparr>"
  have "map (\<lambda>(i, hit). (scoredTrack ?A i hit, totalScore ?A i searchContext hit)) ?valid
      = map (\<lambda>(i, hit). (scoredTrack ?B i hit, totalScore ?B i searchContext hit)) ?valid"
  proof (rule map_cong [OF refl])
    fix x assume "x \<in> set ?valid"
    then have "x \<in> set (enumerate 0 hits)" by simp
    then have x: "fst x < length hits \<and> snd x = hits ! fst x"
      by (simp add: in_set_enumerate_eq)
    with bonus have b: "getRecencyBonus rt (clockA (fst x) 0) (orElse (hit_publishedAt (snd x)) [])
                      = getRecencyBonus rt (clockB (fst x) 0) (orElse (hit_publishedAt (snd x)) [])"
      by simp
    from x stamp have s: "orElse (hit_publishedAt (snd x)) (toISOString rt (clockA (fst x) 1))
                        = orElse (hit_publishedAt (snd x)) (toISOString rt (clockB (fst x) 1))"
      by simp
    have "getRecencyBonus ?A = getRecencyBonus rt" "getRecencyBonus ?B = getRecencyBonus rt"
      by (simp_all add: getRecencyBonus_def fun_eq_iff split: option.splits)
    with b s show "(case x of (i, hit) \<Rightarrow> (scoredTrack ?A i hit, totalScore ?A i searchContext hit))
                 = (case x of (i, hit) \<Rightarrow> (scoredTrack ?B i hit, totalScore ?B i searchContext hit))"
      by (cases x) (simp add: scoredTrack_def totalScore_def)
  qed
  then show ?thesis
    by (simp only: scoreAndRank_def Let_def)
qed

lemma query_draws:
  "generateSearchQuery (3 / 10) ''happy'' False \<noteq> generateSearchQuery (7 / 10) ''happy'' False"
  by code_simp

section \<open>Properties of the adapters\<close>

lemma transformTrack_preview:
  assumes "hasPreview item"
  shows "previewUrl (transformTrack item f) \<noteq> []"
    and "preview_url item = Some (previewUrl (transformTrack item f))"
    and "sp_id (transformTrack item f) = item_id item"
  using assms
  by (auto simp: hasPreview_def transformTrack_def orElse_def split: option.splits)

lemma rankSpotify_set:
  assumes "t \<in> set (rankSpotify api v items)"
  shows "\<exists>item\<in>set items. \<exists>f. t = transformTrack item f"
proof -
  let ?features = "getAudioFeatures api (map item_id items)"
  let ?transformed = "map (\<lambda>(index, track).
        transformTrack track (if index < length ?features then ?features ! index else None))
      (enumerate 0 items)"
  let ?scored = "map (\<lambda>track. (track, calculateMoodScore track v + real (sp_popularity track) / 10))
      ?transformed"
  from assms have "t \<in> set (map fst (take 10 (sort_key (\<lambda>(track, score). - score) ?scored)))"
    by (simp add: rankSpotify_def Let_def)
  then have "t \<in> fst ` set (sort_key (\<lambda>(track, score). - score) ?scored)"
    using set_take_subset [of 10 "sort_key (\<lambda>(track, score). - score) ?scored"] by auto
  then have "t \<in> set ?transformed" by (auto simp: image_iff)
  then obtain i item where "(i, item) \<in> set (enumerate 0 items)"
    and t: "t = transformTrack item (if i < length ?features then ?features ! i else None)"
    by auto
  then have "item \<in> set items" by (auto simp: in_set_enumerate_eq)
  with t show ?thesis by blast
qed

lemma rankSpotify_length: "length (rankSpotify api v items) = min 10 (length items)"
  by (simp add: rankSpotify_def Let_def min.commute)

lemma Spotify_trace_ranked:
  assumes "getAccessToken api = Inr token"
    and "fetchSearch api (buildSearchQuery (currentYear api) v) = Inr (Some items)"
    and "filter hasPreview items \<noteq> []"
  shows "Spotify_searchMusic_trace api v =
     ([buildSearchQuery (currentYear api) v],
      Inr \<lparr> tracks = rankSpotify api v (filter hasPreview items),
            totalResults = length (rankSpotify api v (filter hasPreview items)) \<rparr>)"
proof -
  from assms(3) have "items \<noteq> []" by auto
  with assms show ?thesis
    by (simp add: Spotify_searchMusic_trace_def Let_def)
qed

lemma Spotify_success_cases:
  assumes "Spotify_searchMusic api v = Inr r"
  shows "r = \<lparr> tracks = [], totalResults = 0 \<rparr>
       \<or> (\<exists>items. fetchSearch api (buildSearchQuery (currentYear api) v) = Inr (Some items)
             \<and> tracks r = rankSpotify api v (filter hasPreview items))"
  using assms
  by (auto simp: Spotify_searchMusic_def Spotify_searchMusic_trace_def Let_def
        split: sum.splits option.splits if_splits)

lemma Spotify_one_query: "length (fst (Spotify_searchMusic_trace api v)) \<le> 1"
  by (auto simp: Spotify_searchMusic_trace_def Let_def split: sum.splits option.splits)

lemma twoPreviews_hits:
  "getAccessToken twoPreviewsSpotify = Inr ''token''"
  "fetchSearch twoPreviewsSpotify q =
     Inr (Some [spotifyHit ''1'' (Some ''https://p.scdn.co/1'') 40, spotifyHit ''2'' None 90,
                spotifyHit ''3'' (Some ''https://p.scdn.co/3'') 60, spotifyHit ''4'' (Some []) 80])"
  "filter hasPreview [spotifyHit ''1'' (Some ''https://p.scdn.co/1'') 40, spotifyHit ''2'' None 90,
                      spotifyHit ''3'' (Some ''https://p.scdn.co/3'') 60, spotifyHit ''4'' (Some []) 80]
     = [spotifyHit ''1'' (Some ''https://p.scdn.co/1'') 40,
        spotifyHit ''3'' (Some ''https://p.scdn.co/3'') 60]"
  by (simp_all add: twoPreviewsSpotify_def hasPreview_def spotifyHit_def)

lemma no_features_score: "audioFeatures track = None \<Longrightarrow> calculateMoodScore track v = 0"
  by (simp add: calculateMoodScore_def Let_def)

lemma twoPreviews_ranked:
  "rankSpotify twoPreviewsSpotify v
     [spotifyHit ''1'' (Some ''https://p.scdn.co/1'') 40,
      spotifyHit ''3'' (Some ''https://p.scdn.co/3'') 60]
   = [transformTrack (spotifyHit ''3'' (Some ''https://p.scdn.co/3'') 60) None,
      transformTrack (spotifyHit ''1'' (Some ''https://p.scdn.co/1'') 40) None]"
proof -
  have f: "getAudioFeatures twoPreviewsSpotify ids = []" for ids
    by (simp add: getAudioFeatures_def twoPreviewsSpotify_def)
  have p: "sp_popularity (transformTrack (spotifyHit i u n) None) = n"
    "audioFeatures (transformTrack (spotifyHit i u n) None) = None" for i u n
    by (simp_all add: transformTrack_def spotifyHit_def)
  have e: "enumerate 0 [a, b] = [(0, a), (Suc 0, b)]" for a b :: SpotifyItem
    by (simp add: enumerate_eq_zip upt_rec)
  show ?thesis
    by (simp add: rankSpotify_def Let_def f e p no_features_score)
qed

lemma twoPreviews_trace:
  "Spotify_searchMusic_trace twoPreviewsSpotify ''happy'' =
     ([''happy year:2020-2025''],
      Inr \<lparr> tracks = [transformTrack (spotifyHit ''3'' (Some ''https://p.scdn.co/3'') 60) None,
                      transformTrack (spotifyHit ''1'' (Some ''https://p.scdn.co/1'') 40) None],
            totalResults = 2 \<rparr>)"
proof -
  have y: "currentYear twoPreviewsSpotify = 2025"
    by (simp add: twoPreviewsSpotify_def)
  have "buildSearchQuery 2025 ''happy'' = ''happy year:2020-2025''"
    by code_simp
  with y have q: "buildSearchQuery (currentYear twoPreviewsSpotify) ''happy'' = ''happy year:2020-2025''"
    by simp
  have ne: "filter hasPreview [spotifyHit ''1'' (Some ''https://p.scdn.co/1'') 40,
              spotifyHit ''2'' None 90, spotifyHit ''3'' (Some ''https://p.scdn.co/3'') 60,
              spotifyHit ''4'' (Some []) 80] \<noteq> []"
    unfolding twoPreviews_hits(3) by simp
  from Spotify_trace_ranked [OF twoPreviews_hits(1) twoPreviews_hits(2) ne, of "''happy''"]
  have "Spotify_searchMusic_trace twoPreviewsSpotify ''happy'' =
     ([''happy year:2020-2025''],
      Inr \<lparr> tracks = [transformTrack (spotifyHit ''3'' (Some ''https://p.scdn.co/3'') 60) None,
                      transformTrack (spotifyHit ''1'' (Some ''https://p.scdn.co/1'') 40) None],
            totalResults = length
                     [transformTrack (spotifyHit ''3'' (Some ''https://p.scdn.co/3'') 60) None,
                      transformTrack (spotifyHit ''1'' (Some ''https://p.scdn.co/1'') 40) None] \<rparr>)"
    unfolding q twoPreviews_hits(3) twoPreviews_ranked .
  then show ?thesis by simp
qed

lemma exclusions_broader:
  "exclusions False = exclusions True @ [''-interview'', ''-vlog'', ''-news'', ''-documentary'',
                                           ''-podcast'', ''-talk'', ''-lecture'']"
  by (simp add: exclusions_def)

section \<open>Total failure and error propagation\<close>

text \<open>
  Claim C1 as stated fails: with the default configuration and every adapter
  rejecting, \<open>searchMusic\<close> returns a successful response with no track, equal to the
  response it returns when every adapter answers with zero results.
\<close>

theorem total_failure_counterexample:
  "searchMusic fixedRuntime failingServices ''chill'' noOverrides
     = Inr \<lparr> tracks = [], totalResults = 0, providers = [], searchTime = 1 \<rparr>
   \<and> searchMusic fixedRuntime emptyServices ''chill'' noOverrides
     = searchMusic fixedRuntime failingServices ''chill'' noOverrides"
proof -
  have en: "enabledProviders (mergeConfig defaultConfig noOverrides) = [spotify, youtube]"
    by code_simp
  then have ne: "enabledProviders (mergeConfig defaultConfig noOverrides) \<noteq> []" by simp
  have t: "Date_now fixedRuntime (Suc 0) - Date_now fixedRuntime 0 = 1"
    by (simp add: fixedRuntime_def)
  from searchMusic_no_tracks [OF ne, of failingServices "''chill''" fixedRuntime]
    searchMusic_no_tracks [OF ne, of emptyServices "''chill''" fixedRuntime]
  show ?thesis
    by (simp add: failingServices_no_tracks emptyServices_no_tracks t)
qed

text \<open>
  Claim C1, amended. \<open>searchMusic\<close> throws \<open>No music providers enabled\<close> when the
  effective configuration enables no provider. When providers are enabled, and more
  than one is or the fallback is, it returns a response; if moreover no enabled
  provider's adapter delivers a track in either phase (each fails or finds nothing),
  the response has no tracks, \<open>totalResults\<close> 0 and an empty \<open>providers\<close> list.
\<close>

theorem total_failure_outcome:
  assumes "cfg = mergeConfig defaultConfig config"
  shows "(enabledProviders cfg = [] \<longrightarrow>
            searchMusic rt svc v config = Inl (Error ''No music providers enabled''))
    \<and> (enabledProviders cfg \<noteq> [] \<and> (1 < length (enabledProviders cfg) \<or> fallbackEnabled cfg) \<longrightarrow>
            (\<exists>r. searchMusic rt svc v config = Inr r))
    \<and> (enabledProviders cfg \<noteq> [] \<and> (1 < length (enabledProviders cfg) \<or> fallbackEnabled cfg)
          \<and> (\<forall>p\<in>set (enabledProviders cfg). \<forall>ph. \<not> adapterDelivers svc ph cfg v p) \<longrightarrow>
            searchMusic rt svc v config =
              Inr \<lparr> tracks = [], totalResults = 0, providers = [],
                    searchTime = Date_now rt 1 - Date_now rt 0 \<rparr>)"
proof (intro conjI impI)
  assume "enabledProviders cfg = []"
  with assms show "searchMusic rt svc v config = Inl (Error ''No music providers enabled'')"
    by (simp add: searchMusic_def searchMusic_trace_none)
next
  assume "enabledProviders cfg \<noteq> [] \<and> (1 < length (enabledProviders cfg) \<or> fallbackEnabled cfg)"
  with assms show "\<exists>r. searchMusic rt svc v config = Inr r"
    by (simp add: searchMusic_returns)
next
  assume a: "enabledProviders cfg \<noteq> [] \<and> (1 < length (enabledProviders cfg) \<or> fallbackEnabled cfg)
          \<and> (\<forall>p\<in>set (enabledProviders cfg). \<forall>ph. \<not> adapterDelivers svc ph cfg v p)"
  then have "\<forall>p\<in>set (enabledProviders cfg). \<forall>ph. providerTracks svc ph cfg v p = []"
    using providerTracks_nonempty_iff by blast
  with a assms show "searchMusic rt svc v config =
              Inr \<lparr> tracks = [], totalResults = 0, providers = [],
                    searchTime = Date_now rt 1 - Date_now rt 0 \<rparr>"
    using searchMusic_no_tracks [of config svc v rt] by simp
qed

theorem total_failure_outcome_witness:
  "enabledProviders (mergeConfig defaultConfig noneEnabledConfig) = []
   \<and> searchMusic fixedRuntime failingServices ''chill'' noneEnabledConfig
       = Inl (Error ''No music providers enabled'')
   \<and> enabledProviders (mergeConfig defaultConfig noOverrides) = [spotify, youtube]
   \<and> \<not> adapterDelivers failingServices Sequential (mergeConfig defaultConfig noOverrides)
           ''chill'' spotify
   \<and> \<not> adapterDelivers failingServices Parallel (mergeConfig defaultConfig noOverrides)
           ''chill'' spotify
   \<and> \<not> adapterDelivers failingServices Sequential (mergeConfig defaultConfig noOverrides)
           ''chill'' youtube
   \<and> \<not> adapterDelivers failingServices Parallel (mergeConfig defaultConfig noOverrides)
           ''chill'' youtube
   \<and> searchMusic fixedRuntime failingServices ''chill'' noOverrides
       = Inr \<lparr> tracks = [], totalResults = 0, providers = [], searchTime = 1 \<rparr>"
proof -
  let ?cfg = "mergeConfig defaultConfig noOverrides"
  have none: "enabledProviders (mergeConfig defaultConfig noneEnabledConfig) = []"
    by code_simp
  have en: "enabledProviders ?cfg = [spotify, youtube]"
    by code_simp
  have nd: "\<not> adapterDelivers failingServices ph ?cfg ''chill'' p" for ph p
    using providerTracks_nonempty_iff failingServices_no_tracks by blast
  have t: "Date_now fixedRuntime 1 - Date_now fixedRuntime 0 = 1"
    by (simp add: fixedRuntime_def)
  from total_failure_outcome [OF refl, of noneEnabledConfig fixedRuntime failingServices "''chill''"]
    none
  have a: "searchMusic fixedRuntime failingServices ''chill'' noneEnabledConfig
       = Inl (Error ''No music providers enabled'')"
    by blast
  from total_failure_outcome [OF refl, of noOverrides fixedRuntime failingServices "''chill''"]
    en nd t
  have b: "searchMusic fixedRuntime failingServices ''chill'' noOverrides
       = Inr \<lparr> tracks = [], totalResults = 0, providers = [], searchTime = 1 \<rparr>"
    by simp
  from none en a b nd [of Sequential spotify] nd [of Parallel spotify]
    nd [of Sequential youtube] nd [of Parallel youtube]
  show ?thesis by simp
qed

text \<open>
  Claim C2, the failing input. YouTube is the only enabled provider, the fallback is
  disabled and the YouTube adapter rejects: \<open>searchMusic\<close> returns an empty successful
  response, because \<open>searchProvider\<close> has already turned the rejection into an empty
  list and the rethrowing \<open>catch\<close> of the loop is never entered.
\<close>

theorem single_provider_error_swallowed:
  "enabledProviders (mergeConfig defaultConfig onlyYouTubeNoFallback) = [youtube]
   \<and> \<not> fallbackEnabled (mergeConfig defaultConfig onlyYouTubeNoFallback)
   \<and> adapterFails failingServices Sequential (mergeConfig defaultConfig onlyYouTubeNoFallback)
        ''chill'' youtube
   \<and> searchMusic fixedRuntime failingServices ''chill'' onlyYouTubeNoFallback
     = Inr \<lparr> tracks = [], totalResults = 0, providers = [], searchTime = 1 \<rparr>"
proof -
  have en: "enabledProviders (mergeConfig defaultConfig onlyYouTubeNoFallback) = [youtube]"
    by code_simp
  then have ne: "enabledProviders (mergeConfig defaultConfig onlyYouTubeNoFallback) \<noteq> []" by simp
  have fb: "\<not> fallbackEnabled (mergeConfig defaultConfig onlyYouTubeNoFallback)"
    by code_simp
  have af: "adapterFails failingServices Sequential
              (mergeConfig defaultConfig onlyYouTubeNoFallback) ''chill'' youtube"
    by code_simp
  have t: "Date_now fixedRuntime (Suc 0) - Date_now fixedRuntime 0 = 1"
    by (simp add: fixedRuntime_def)
  from searchMusic_no_tracks [OF ne, of failingServices "''chill''" fixedRuntime]
  have "searchMusic fixedRuntime failingServices ''chill'' onlyYouTubeNoFallback
     = Inr \<lparr> tracks = [], totalResults = 0, providers = [], searchTime = 1 \<rparr>"
    by (simp add: failingServices_no_tracks t)
  with en fb af show ?thesis by simp
qed

section \<open>Partial failure\<close>

text \<open>
  Claim C3 as stated fails: with the three providers enabled, \<open>maxResults\<close> 1 and the
  fallback disabled, Spotify failing and YouTube and SoundCloud each delivering a
  track, the loop stops after YouTube: SoundCloud is never asked and is not in the
  returned \<open>providers\<close> list.
\<close>

theorem early_stop_counterexample:
  "enabledProviders (mergeConfig defaultConfig stopEarlyConfig) = [spotify, youtube, soundcloud]
   \<and> adapterFails partialServices Sequential (mergeConfig defaultConfig stopEarlyConfig) ''chill'' spotify
   \<and> adapterFails partialServices Parallel (mergeConfig defaultConfig stopEarlyConfig) ''chill'' spotify
   \<and> adapterDelivers partialServices Sequential (mergeConfig defaultConfig stopEarlyConfig) ''chill'' youtube
   \<and> adapterDelivers partialServices Sequential (mergeConfig defaultConfig stopEarlyConfig) ''chill'' soundcloud
   \<and> map_sum id providers (searchMusic fixedRuntime partialServices ''chill'' stopEarlyConfig)
        = Inr [youtube]"
proof -
  let ?cfg = "mergeConfig defaultConfig stopEarlyConfig"
  let ?stop = "\<lparr> allTracks = [transformYouTubeTrack sampleYouTubeTrack],
                  usedProviders = [youtube],
                  calls = [\<lparr> phase = Sequential, invoked = spotify, startedAt = 0, settledAt = 8000 \<rparr>,
                           \<lparr> phase = Sequential, invoked = youtube, startedAt = 8000,
                             settledAt = 8200 \<rparr>] \<rparr>"
  have en: "enabledProviders ?cfg = [spotify, youtube, soundcloud]" by code_simp
  then have ne: "enabledProviders ?cfg \<noteq> []" by simp
  have hyp: "adapterFails partialServices Sequential ?cfg ''chill'' spotify"
    "adapterFails partialServices Parallel ?cfg ''chill'' spotify"
    "adapterDelivers partialServices Sequential ?cfg ''chill'' youtube"
    "adapterDelivers partialServices Sequential ?cfg ''chill'' soundcloud"
    by code_simp+
  have seq: "sequentialPhase partialServices ''chill'' ?cfg (enabledProviders ?cfg)
               \<lparr> allTracks = [], usedProviders = [], calls = [] \<rparr> = Inr ?stop"
    by code_simp
  have af: "afterFallback partialServices ''chill'' ?cfg ?stop = ?stop"
    by code_simp
  from searchMusic_eval [OF ne seq, of fixedRuntime]
  have "map_sum id providers (searchMusic fixedRuntime partialServices ''chill'' stopEarlyConfig)
          = Inr [youtube]"
    by (simp add: af respond_fields)
  with en hyp show ?thesis by simp
qed

text \<open>
  Claim C3, amended. Three providers A, B, C are enabled, A's adapter fails whenever it
  is called, B's and C's deliver non-empty track lists, and the loop does not stop
  before both B and C were asked: the fallback is enabled, or the first of B and C in
  priority order delivers fewer than \<open>maxResults\<close> tracks. Then \<open>searchMusic\<close> returns a
  response (it does not throw), every returned track has provider B or C, and the
  returned \<open>providers\<close> list consists of B and C and does not contain A.
\<close>

theorem partial_failure_resilience:
  assumes cfg: "cfg = mergeConfig defaultConfig config"
    and keys: "distinct (providerKeys (cfg_providers cfg))"
    and three: "set (enabledProviders cfg) = {a, b, c}" "a \<noteq> b" "a \<noteq> c" "b \<noteq> c"
    and fails: "adapterFails svc Sequential cfg v a" "adapterFails svc Parallel cfg v a"
    and delivers: "adapterDelivers svc Sequential cfg v b" "adapterDelivers svc Sequential cfg v c"
    and noStop: "fallbackEnabled cfg
        \<or> int (length (providerTracks svc Sequential cfg v
                         (hd (filter (\<lambda>p. p \<noteq> a) (enabledProviders cfg))))) < maxResults cfg"
  shows "\<exists>r. searchMusic rt svc v config = Inr r
           \<and> set (providers r) = {b, c} \<and> a \<notin> set (providers r)
           \<and> (\<forall>t\<in>set (tracks r). provider t = b \<or> provider t = c)"
proof -
  let ?ps = "enabledProviders cfg"
  let ?T = "providerTracks svc Sequential cfg v"
  from keys have d: "distinct ?ps" by (rule distinct_enabledProviders)
  from three(1) have ne: "?ps \<noteq> []" by auto
  obtain p q where pq: "{p, q} = {b, c}"
    and shape: "?ps = [a, p, q] \<or> ?ps = [p, a, q] \<or> ?ps = [p, q, a]"
    using three_providers [OF d three] by blast
  from pq three have pa: "p \<noteq> a" and qa: "q \<noteq> a"
    by (auto simp: doubleton_eq_iff)
  from shape pa qa have first: "hd (filter (\<lambda>x. x \<noteq> a) ?ps) = p" by auto
  from pq delivers have "adapterDelivers svc Sequential cfg v p"
    and "adapterDelivers svc Sequential cfg v q"
    by (auto simp: doubleton_eq_iff)
  then have Tp: "?T p \<noteq> []" and Tq: "?T q \<noteq> []"
    by (simp_all add: providerTracks_nonempty_iff)
  from fails have Ta: "?T a = []" and Pa: "providerTracks svc Parallel cfg v a = []"
    by (simp_all add: adapterFails_no_tracks)
  from noStop first have ns: "fallbackEnabled cfg \<or> int (length (?T p)) < maxResults cfg"
    by simp
  obtain cs where seq:
    "sequentialPhase svc v cfg ?ps \<lparr> allTracks = [], usedProviders = [], calls = [] \<rparr>
       = Inr \<lparr> allTracks = ?T p @ ?T q, usedProviders = [p, q], calls = cs \<rparr>"
    using sequentialPhase_three [OF Ta Tp Tq ns shape] by blast
  let ?after = "\<lparr> allTracks = ?T p @ ?T q, usedProviders = [p, q], calls = cs \<rparr>"
  from shape Pa have "\<forall>x\<in>set ?ps. x \<in> set (usedProviders ?after)
                        \<or> providerTracks svc Parallel cfg v x = []"
    by auto
  from afterFallback_nothing_new [OF d this]
  have same: "allTracks (afterFallback svc v cfg ?after) = ?T p @ ?T q"
    "usedProviders (afterFallback svc v cfg ?after) = [p, q]"
    by simp_all
  let ?r = "respond rt v cfg (afterFallback svc v cfg ?after)"
  from ne seq cfg have res: "searchMusic rt svc v config = Inr ?r"
    using searchMusic_eval [of config svc v ?after rt] by simp
  have prov: "providers ?r = [p, q]"
    by (simp add: respond_fields same)
  have "tracks ?r = mergeAndRankResults (Date_parse rt) (\<lambda>i. Date_now rt (Suc i))
                      (?T p @ ?T q) v (maxResults cfg)"
    by (simp add: respond_fields same)
  then have "set (tracks ?r) \<subseteq> set (?T p @ ?T q)"
    by (simp only: mergeAndRank_subset)
  then have "\<forall>t\<in>set (tracks ?r). provider t = p \<or> provider t = q"
    by (auto dest: providerTracks_provider)
  with pq have tr: "\<forall>t\<in>set (tracks ?r). provider t = b \<or> provider t = c"
    by (auto simp: doubleton_eq_iff)
  from prov pq have ps: "set (providers ?r) = {b, c}" by simp
  with three have "a \<notin> set (providers ?r)" by simp
  with res ps tr show ?thesis by blast
qed

theorem partial_failure_resilience_witness:
  "distinct (providerKeys (cfg_providers (mergeConfig defaultConfig allThreeConfig)))
   \<and> set (enabledProviders (mergeConfig defaultConfig allThreeConfig))
        = {spotify, youtube, soundcloud}
   \<and> adapterFails partialServices Sequential (mergeConfig defaultConfig allThreeConfig) ''chill'' spotify
   \<and> adapterFails partialServices Parallel (mergeConfig defaultConfig allThreeConfig) ''chill'' spotify
   \<and> adapterDelivers partialServices Sequential (mergeConfig defaultConfig allThreeConfig) ''chill'' youtube
   \<and> adapterDelivers partialServices Sequential (mergeConfig defaultConfig allThreeConfig) ''chill'' soundcloud
   \<and> fallbackEnabled (mergeConfig defaultConfig allThreeConfig)
   \<and> (\<exists>r. searchMusic fixedRuntime partialServices ''chill'' allThreeConfig = Inr r
         \<and> set (providers r) = {youtube, soundcloud} \<and> spotify \<notin> set (providers r)
         \<and> (\<forall>t\<in>set (tracks r). provider t = youtube \<or> provider t = soundcloud))"
proof -
  let ?cfg = "mergeConfig defaultConfig allThreeConfig"
  have keys: "distinct (providerKeys (cfg_providers ?cfg))" by code_simp
  have en: "enabledProviders ?cfg = [spotify, youtube, soundcloud]" by code_simp
  then have three: "set (enabledProviders ?cfg) = {spotify, youtube, soundcloud}" by simp
  have hyp: "adapterFails partialServices Sequential ?cfg ''chill'' spotify"
    "adapterFails partialServices Parallel ?cfg ''chill'' spotify"
    "adapterDelivers partialServices Sequential ?cfg ''chill'' youtube"
    "adapterDelivers partialServices Sequential ?cfg ''chill'' soundcloud"
    by code_simp+
  have fb: "fallbackEnabled ?cfg" by code_simp
  then have noStop: "fallbackEnabled ?cfg
        \<or> int (length (providerTracks partialServices Sequential ?cfg ''chill''
                         (hd (filter (\<lambda>p. p \<noteq> spotify) (enabledProviders ?cfg)))))
            < maxResults ?cfg"
    by simp
  from partial_failure_resilience [OF refl keys three _ _ _ hyp noStop, of fixedRuntime]
  have "\<exists>r. searchMusic fixedRuntime partialServices ''chill'' allThreeConfig = Inr r
         \<and> set (providers r) = {youtube, soundcloud} \<and> spotify \<notin> set (providers r)
         \<and> (\<forall>t\<in>set (tracks r). provider t = youtube \<or> provider t = soundcloud)"
    by simp
  with keys three hyp fb show ?thesis by simp
qed

section \<open>The parallel fallback\<close>

text \<open>
  Claim C5. After the loop over the enabled providers has ended in state \<open>st\<close>, the
  fallback runs if and only if fewer than 3 tracks are accumulated, the fallback is
  enabled and more than one provider is enabled. When it runs, every enabled provider
  is invoked once more, and concurrently: all these invocations start at the same time,
  the time at which the loop ended, none waiting for another, and each settles after its
  own delay. The join waits for all of them: \<open>searchMusic\<close> goes on when the last one
  has settled. Whatever the adapters do, the join does not fail and \<open>searchMusic\<close>
  returns a response; a provider whose adapter rejects or times out contributes nothing,
  and exactly the non-empty results of the providers that are not yet in
  \<open>usedProviders\<close> are appended, in the order of the providers. (In the loop, by
  contrast, every invocation is awaited before the next one is made.)
\<close>

theorem parallel_fallback_phase:
  assumes cfg: "cfg = mergeConfig defaultConfig config"
    and keys: "distinct (providerKeys (cfg_providers cfg))"
    and ne: "enabledProviders cfg \<noteq> []"
  shows "\<exists>st. sequentialPhase svc v cfg (enabledProviders cfg)
                \<lparr> allTracks = [], usedProviders = [], calls = [] \<rparr> = Inr st
     \<and> awaitedInTurn 0 (calls st)
     \<and> (let runs = (length (allTracks st) < 3 \<and> fallbackEnabled cfg
                      \<and> 1 < length (enabledProviders cfg));
             fresh = filter (\<lambda>p. p \<notin> set (usedProviders st)
                                 \<and> providerTracks svc Parallel cfg v p \<noteq> [])
                       (enabledProviders cfg);
             trace = fst (searchMusic_trace rt svc v config);
             fallback = invocationsIn Parallel trace
         in map invoked fallback = (if runs then enabledProviders cfg else [])
          \<and> map startedAt fallback = map (\<lambda>p. resumedAt (calls st)) (map invoked fallback)
          \<and> map settledAt fallback
              = map (\<lambda>p. resumedAt (calls st)
                           + searchProviderSettlesAfter svc Parallel p v
                               (timeout (providerConfig (cfg_providers cfg) p)))
                  (map invoked fallback)
          \<and> resumedAt trace = fold max (map settledAt fallback) (resumedAt (calls st))
          \<and> filter (adapterFails svc Parallel cfg v) fresh = []
          \<and> (\<exists>r. searchMusic rt svc v config = Inr r
                \<and> providers r = usedProviders st @ (if runs then fresh else [])
                \<and> tracks r =
                    mergeAndRankResults (Date_parse rt) (\<lambda>i. Date_now rt (Suc i))
                      (allTracks st
                         @ (if runs then concat (map (providerTracks svc Parallel cfg v) fresh)
                            else []))
                      v (maxResults cfg)))"
proof -
  let ?init = "\<lparr> allTracks = [], usedProviders = [], calls = [] \<rparr>"
  let ?ps = "enabledProviders cfg"
  obtain st where seq: "sequentialPhase svc v cfg ?ps ?init = Inr st"
    using sequentialPhase_returns by blast
  let ?runs = "length (allTracks st) < 3 \<and> fallbackEnabled cfg \<and> 1 < length ?ps"
  let ?fresh = "filter (\<lambda>p. p \<notin> set (usedProviders st)
                            \<and> providerTracks svc Parallel cfg v p \<noteq> []) ?ps"
  let ?after = "afterFallback svc v cfg st"
  let ?t = "resumedAt (calls st)"
  let ?made = "map (invoke svc Parallel cfg v ?t) ?ps"
  from sequentialPhase_invocations [OF seq] have seqCalls: "invocationsIn Parallel (calls st) = []"
    by (simp add: invocationsIn_simps)
  from keys have d: "distinct ?ps"
    by (rule distinct_enabledProviders)
  from ne seq cfg have trace: "searchMusic_trace rt svc v config
                                 = (calls ?after, Inr (respond rt v cfg ?after))"
    using searchMusic_trace_some [of config svc v st rt] by simp
  then have res: "searchMusic rt svc v config = Inr (respond rt v cfg ?after)"
    by (simp add: searchMusic_def)
  from trace have tr: "fst (searchMusic_trace rt svc v config) = calls ?after"
    by simp
  have log: "calls ?after = calls st @ (if ?runs then ?made else [])"
    by (simp add: afterFallback_def parallelFallback_distinct [OF d])
  have used: "usedProviders ?after = usedProviders st @ (if ?runs then ?fresh else [])"
    by (simp add: afterFallback_def parallelFallback_distinct [OF d])
  have acc: "allTracks ?after
               = allTracks st
                 @ (if ?runs then concat (map (providerTracks svc Parallel cfg v) ?fresh) else [])"
    by (simp add: afterFallback_def parallelFallback_distinct [OF d])
  have par: "invocationsIn Parallel (calls ?after) = (if ?runs then ?made else [])"
    by (simp add: log invocationsIn_simps seqCalls)
  have names: "map invoked (invocationsIn Parallel (calls ?after)) = (if ?runs then ?ps else [])"
    by (simp add: par comp_def)
  have starts: "map startedAt (invocationsIn Parallel (calls ?after))
                  = map (\<lambda>p. ?t) (map invoked (invocationsIn Parallel (calls ?after)))"
    by (auto simp: par comp_def)
  have settles: "map settledAt (invocationsIn Parallel (calls ?after))
                  = map (\<lambda>p. ?t + searchProviderSettlesAfter svc Parallel p v
                                     (timeout (providerConfig (cfg_providers cfg) p)))
                      (map invoked (invocationsIn Parallel (calls ?after)))"
    by (auto simp: par comp_def)
  from log par have whole: "calls st @ invocationsIn Parallel (calls ?after) = calls ?after"
    by simp
  have "resumedAt (calls st @ made) = fold max (map settledAt made) ?t" for made
    by (simp only: resumedAt_def fold_append fold_map comp_def)
  from this [of "invocationsIn Parallel (calls ?after)"]
  have joined: "resumedAt (calls ?after)
                  = fold max (map settledAt (invocationsIn Parallel (calls ?after))) ?t"
    by (simp only: whole)
  have nofail: "filter (adapterFails svc Parallel cfg v) ?fresh = []"
    by (auto simp: filter_empty_conv dest: adapterFails_no_tracks)
  have prov: "providers (respond rt v cfg ?after) = usedProviders st @ (if ?runs then ?fresh else [])"
    by (simp only: respond_fields used)
  have ranked: "tracks (respond rt v cfg ?after)
      = mergeAndRankResults (Date_parse rt) (\<lambda>i. Date_now rt (Suc i))
          (allTracks st
             @ (if ?runs then concat (map (providerTracks svc Parallel cfg v) ?fresh) else []))
          v (maxResults cfg)"
    by (simp only: respond_fields acc)
  from res prov ranked have response:
    "\<exists>r. searchMusic rt svc v config = Inr r
        \<and> providers r = usedProviders st @ (if ?runs then ?fresh else [])
        \<and> tracks r = mergeAndRankResults (Date_parse rt) (\<lambda>i. Date_now rt (Suc i))
            (allTracks st
               @ (if ?runs then concat (map (providerTracks svc Parallel cfg v) ?fresh) else []))
            v (maxResults cfg)"
    by blast
  from sequentialPhase_awaitedInTurn [OF seq] have turn: "awaitedInTurn 0 (calls st)"
    by simp
  have "sequentialPhase svc v cfg ?ps ?init = Inr st
     \<and> awaitedInTurn 0 (calls st)
     \<and> (let runs = ?runs; fresh = ?fresh;
             trace = fst (searchMusic_trace rt svc v config);
             fallback = invocationsIn Parallel trace
         in map invoked fallback = (if runs then ?ps else [])
          \<and> map startedAt fallback = map (\<lambda>p. ?t) (map invoked fallback)
          \<and> map settledAt fallback
              = map (\<lambda>p. ?t + searchProviderSettlesAfter svc Parallel p v
                                 (timeout (providerConfig (cfg_providers cfg) p)))
                  (map invoked fallback)
          \<and> resumedAt trace = fold max (map settledAt fallback) ?t
          \<and> filter (adapterFails svc Parallel cfg v) fresh = []
          \<and> (\<exists>r. searchMusic rt svc v config = Inr r
                \<and> providers r = usedProviders st @ (if runs then fresh else [])
                \<and> tracks r =
                    mergeAndRankResults (Date_parse rt) (\<lambda>i. Date_now rt (Suc i))
                      (allTracks st
                         @ (if runs then concat (map (providerTracks svc Parallel cfg v) fresh)
                            else []))
                      v (maxResults cfg)))"
    unfolding Let_def tr
    by (rule conjI [OF seq conjI [OF turn conjI [OF names conjI [OF starts conjI [OF settles
          conjI [OF joined conjI [OF nofail response]]]]]]])
  then show ?thesis ..
qed

theorem parallel_fallback_phase_witness:
  "distinct (providerKeys (cfg_providers (mergeConfig defaultConfig noOverrides)))
   \<and> enabledProviders (mergeConfig defaultConfig noOverrides) \<noteq> []
   \<and> adapterFails secondTryServices Parallel (mergeConfig defaultConfig noOverrides) ''chill'' youtube
   \<and> map (\<lambda>c. (invoked c, startedAt c, settledAt c)) (invocationsIn Sequential
         (fst (searchMusic_trace fixedRuntime secondTryServices ''chill'' noOverrides)))
        = [(spotify, 0, 150), (youtube, 150, 250)]
   \<and> map invoked (invocationsIn Parallel
         (fst (searchMusic_trace fixedRuntime secondTryServices ''chill'' noOverrides)))
        = [spotify, youtube]
   \<and> map startedAt (invocationsIn Parallel
         (fst (searchMusic_trace fixedRuntime secondTryServices ''chill'' noOverrides)))
        = [250, 250]
   \<and> map settledAt (invocationsIn Parallel
         (fst (searchMusic_trace fixedRuntime secondTryServices ''chill'' noOverrides)))
        = [550, 350]
   \<and> resumedAt (fst (searchMusic_trace fixedRuntime secondTryServices ''chill'' noOverrides)) = 550
   \<and> map_sum id providers (searchMusic fixedRuntime secondTryServices ''chill'' noOverrides)
        = Inr [spotify]"
proof -
  let ?cfg = "mergeConfig defaultConfig noOverrides"
  let ?loop = "[\<lparr> phase = Sequential, invoked = spotify, startedAt = 0, settledAt = 150 \<rparr>,
                \<lparr> phase = Sequential, invoked = youtube, startedAt = 150, settledAt = 250 \<rparr>]"
  have keys: "distinct (providerKeys (cfg_providers ?cfg))" by code_simp
  have en: "enabledProviders ?cfg = [spotify, youtube]" by code_simp
  then have ne: "enabledProviders ?cfg \<noteq> []" by simp
  have fails: "adapterFails secondTryServices Parallel ?cfg ''chill'' youtube" by code_simp
  have fb: "fallbackEnabled ?cfg" by code_simp
  have seq: "sequentialPhase secondTryServices ''chill'' ?cfg (enabledProviders ?cfg)
               \<lparr> allTracks = [], usedProviders = [], calls = [] \<rparr>
             = Inr \<lparr> allTracks = [], usedProviders = [], calls = ?loop \<rparr>"
    by code_simp
  have at: "resumedAt ?loop = 250" by code_simp
  have sp: "providerTracks secondTryServices Parallel ?cfg ''chill'' spotify
              = [transformSpotifyTrack sampleSpotifyTrack]"
    by code_simp
  have yt: "providerTracks secondTryServices Parallel ?cfg ''chill'' youtube = []"
    by code_simp
  have after: "searchProviderSettlesAfter secondTryServices Parallel spotify ''chill''
                 (timeout (providerConfig (cfg_providers ?cfg) spotify)) = 300"
    "searchProviderSettlesAfter secondTryServices Parallel youtube ''chill''
                 (timeout (providerConfig (cfg_providers ?cfg) youtube)) = 100"
    by code_simp+
  have af: "calls (afterFallback secondTryServices ''chill'' ?cfg
                     \<lparr> allTracks = [], usedProviders = [], calls = ?loop \<rparr>)
              = ?loop @ [\<lparr> phase = Parallel, invoked = spotify, startedAt = 250, settledAt = 550 \<rparr>,
                         \<lparr> phase = Parallel, invoked = youtube, startedAt = 250, settledAt = 350 \<rparr>]"
    by code_simp
  from searchMusic_trace_some [OF ne seq, of fixedRuntime]
  have loop: "map (\<lambda>c. (invoked c, startedAt c, settledAt c)) (invocationsIn Sequential
         (fst (searchMusic_trace fixedRuntime secondTryServices ''chill'' noOverrides)))
        = [(spotify, 0, 150), (youtube, 150, 250)]"
    by (simp add: af invocationsIn_def)
  from parallel_fallback_phase [OF refl keys ne, of secondTryServices "''chill''" fixedRuntime]
    seq sp yt en fb at after
  have "map invoked (invocationsIn Parallel
          (fst (searchMusic_trace fixedRuntime secondTryServices ''chill'' noOverrides)))
          = [spotify, youtube]
        \<and> map startedAt (invocationsIn Parallel
          (fst (searchMusic_trace fixedRuntime secondTryServices ''chill'' noOverrides)))
          = [250, 250]
        \<and> map settledAt (invocationsIn Parallel
          (fst (searchMusic_trace fixedRuntime secondTryServices ''chill'' noOverrides)))
          = [550, 350]
        \<and> resumedAt (fst (searchMusic_trace fixedRuntime secondTryServices ''chill'' noOverrides)) = 550
        \<and> (\<exists>r. searchMusic fixedRuntime secondTryServices ''chill'' noOverrides = Inr r
               \<and> providers r = [spotify])"
    by (auto simp: Let_def)
  with keys ne fails loop show ?thesis by auto
qed

section \<open>The duplicate filter and the clock\<close>

text \<open>
  Claim C4, the failing input. Spotify delivers the track titled \<open>Blue-Sky\<close> by \<open>Band\<close>
  and YouTube the track titled \<open>Blue\<close> by \<open>Sky-Band\<close>. Their case-insensitive
  (title, artist) pairs differ, but the keys the filter compares, title and artist joined
  by a hyphen, are both \<open>blue-sky-band\<close>: the YouTube track, the first occurrence of its
  pair, is removed. (No two returned tracks ever share a pair:
  \<open>searchMusic_distinct_pairs\<close>.)
\<close>

theorem dedup_key_collision:
  "titleArtist (transformSpotifyTrack blueSkySpotify) \<noteq> titleArtist (transformYouTubeTrack blueSkyYouTube)
   \<and> uniqueTracks [transformSpotifyTrack blueSkySpotify, transformYouTubeTrack blueSkyYouTube]
        = [transformSpotifyTrack blueSkySpotify]
   \<and> searchMusic fixedRuntime collisionServices ''blue'' noOverrides
        = Inr \<lparr> tracks = [transformSpotifyTrack blueSkySpotify], totalResults = 1,
                providers = [spotify, youtube], searchTime = 2 \<rparr>"
proof -
  let ?cfg = "mergeConfig defaultConfig noOverrides"
  let ?a = "transformSpotifyTrack blueSkySpotify"
  let ?b = "transformYouTubeTrack blueSkyYouTube"
  let ?loop = "[\<lparr> phase = Sequential, invoked = spotify, startedAt = 0, settledAt = 100 \<rparr>,
                \<lparr> phase = Sequential, invoked = youtube, startedAt = 100, settledAt = 300 \<rparr>]"
  let ?after = "\<lparr> allTracks = [?a, ?b], usedProviders = [spotify, youtube],
                   calls = ?loop @ [\<lparr> phase = Parallel, invoked = spotify, startedAt = 300,
                                      settledAt = 400 \<rparr>,
                                    \<lparr> phase = Parallel, invoked = youtube, startedAt = 300,
                                      settledAt = 500 \<rparr>] \<rparr>"
  have pairs: "titleArtist ?a \<noteq> titleArtist ?b" by code_simp
  have uniq: "uniqueTracks [?a, ?b] = [?a]" by code_simp
  have en: "enabledProviders ?cfg = [spotify, youtube]" by code_simp
  then have ne: "enabledProviders ?cfg \<noteq> []" by simp
  have mr: "maxResults ?cfg = 10" by code_simp
  have seq: "sequentialPhase collisionServices ''blue'' ?cfg (enabledProviders ?cfg)
               \<lparr> allTracks = [], usedProviders = [], calls = [] \<rparr>
             = Inr \<lparr> allTracks = [?a, ?b], usedProviders = [spotify, youtube], calls = ?loop \<rparr>"
    by code_simp
  have af: "afterFallback collisionServices ''blue'' ?cfg
              \<lparr> allTracks = [?a, ?b], usedProviders = [spotify, youtube], calls = ?loop \<rparr>
            = ?after"
    by code_simp
  have "respond fixedRuntime ''blue'' ?cfg ?after
          = \<lparr> tracks = [?a], totalResults = 1, providers = [spotify, youtube], searchTime = 2 \<rparr>"
    by (simp add: respond_def Let_def mr uniq mergeAndRank_single fixedRuntime_def)
  with searchMusic_eval [OF ne seq, of fixedRuntime] af pairs uniq show ?thesis
    by simp
qed

text \<open>
  Claim C9 as stated fails for the ranking: the same two candidates, the same search
  context and the same date parser give opposite rankings in November 2025 and in
  February 2026, because \<open>scoreTrack\<close> reads the clock for its recency bonus.
\<close>

theorem ranking_depends_on_clock:
  "mergeAndRankResults parseDates november2025 [recentTrack, olderTrack] ''study'' 10
     = [recentTrack, olderTrack]
   \<and> mergeAndRankResults parseDates february2026 [recentTrack, olderTrack] ''study'' 10
     = [olderTrack, recentTrack]"
  by (simp add: mergeAndRankResults_def example_unique example_scores slice0_def)

text \<open>
  Claim C9, amended. The three parsers take the raw input alone: parsing the same input
  gives the same intent in every ambient, whereas the query \<open>generateSearchQuery\<close>
  builds depends on the number it draws. The scoring of the aggregator and that of the
  YouTube adapter read the clock: both for their recency bonus, the adapter also for the
  \<open>publishedAt\<close> of a hit that has none. The aggregator gives the same ranking in two evaluations
  whenever their clock readings put every candidate on the same side of its threshold:
  published less than 12 times 30 days before the reading or not (an unparseable date
  never being within). The scoring of the YouTube adapter gives the same response in
  two evaluations whenever every hit gets the same recency bonus in both (published
  after the date one calendar year before the reading or not) and the same
  \<open>publishedAt\<close> (its own, or the date of the evaluation when it has none).
\<close>

theorem ranking_fixed_by_recency:
  "((\<forall>i<length (uniqueTracks candidates).
         publishedWithinYear parseDate (clock1 i) (uniqueTracks candidates ! i)
       = publishedWithinYear parseDate (clock2 i) (uniqueTracks candidates ! i))
      \<longrightarrow> mergeAndRankResults parseDate clock1 candidates searchContext maxRes
        = mergeAndRankResults parseDate clock2 candidates searchContext maxRes)
   \<and> ((\<forall>i<length hits.
            getRecencyBonus rt (clockA i 0) (orElse (hit_publishedAt (hits ! i)) [])
          = getRecencyBonus rt (clockB i 0) (orElse (hit_publishedAt (hits ! i)) []))
        \<and> (\<forall>i<length hits.
            orElse (hit_publishedAt (hits ! i)) (toISOString rt (clockA i 1))
          = orElse (hit_publishedAt (hits ! i)) (toISOString rt (clockB i 1)))
      \<longrightarrow> scoreAndRank (rt\<lparr> Date_new := clockA \<rparr>) hitContext isRetry hits
        = scoreAndRank (rt\<lparr> Date_new := clockB \<rparr>) hitContext isRetry hits)
   \<and> sameInEveryAmbient (\<lambda>ambient. Spotify_parseInput input)
   \<and> sameInEveryAmbient (\<lambda>ambient. YouTube_parseInput input)
   \<and> sameInEveryAmbient (\<lambda>ambient. SoundCloud_parseInput input)
   \<and> \<not> sameInEveryAmbient (\<lambda>ambient. generateSearchQuery (drawRandom ambient 0) ''happy'' False)"
proof -
  have aggregator:
    "(\<forall>i<length (uniqueTracks candidates).
         publishedWithinYear parseDate (clock1 i) (uniqueTracks candidates ! i)
       = publishedWithinYear parseDate (clock2 i) (uniqueTracks candidates ! i))
      \<longrightarrow> mergeAndRankResults parseDate clock1 candidates searchContext maxRes
        = mergeAndRankResults parseDate clock2 candidates searchContext maxRes"
  proof (rule impI)
    assume "\<forall>i<length (uniqueTracks candidates).
         publishedWithinYear parseDate (clock1 i) (uniqueTracks candidates ! i)
       = publishedWithinYear parseDate (clock2 i) (uniqueTracks candidates ! i)"
    then have "\<forall>i<length (uniqueTracks candidates).
        scoreTrack parseDate (clock1 i) (uniqueTracks candidates ! i) searchContext
      = scoreTrack parseDate (clock2 i) (uniqueTracks candidates ! i) searchContext"
      by (simp add: scoreTrack_def)
    then have "map (\<lambda>(i, track). (track, scoreTrack parseDate (clock1 i) track searchContext))
                   (enumerate 0 (uniqueTracks candidates))
             = map (\<lambda>(i, track). (track, scoreTrack parseDate (clock2 i) track searchContext))
                   (enumerate 0 (uniqueTracks candidates))"
      by (rule scored_cong [where f = "\<lambda>i track. scoreTrack parseDate (clock1 i) track searchContext"
            and g = "\<lambda>i track. scoreTrack parseDate (clock2 i) track searchContext"])
    then show "mergeAndRankResults parseDate clock1 candidates searchContext maxRes
        = mergeAndRankResults parseDate clock2 candidates searchContext maxRes"
      by (simp only: mergeAndRankResults_def Let_def)
  qed
  have adapter:
    "(\<forall>i<length hits.
            getRecencyBonus rt (clockA i 0) (orElse (hit_publishedAt (hits ! i)) [])
          = getRecencyBonus rt (clockB i 0) (orElse (hit_publishedAt (hits ! i)) []))
        \<and> (\<forall>i<length hits.
            orElse (hit_publishedAt (hits ! i)) (toISOString rt (clockA i 1))
          = orElse (hit_publishedAt (hits ! i)) (toISOString rt (clockB i 1)))
      \<longrightarrow> scoreAndRank (rt\<lparr> Date_new := clockA \<rparr>) hitContext isRetry hits
        = scoreAndRank (rt\<lparr> Date_new := clockB \<rparr>) hitContext isRetry hits"
  proof (rule impI, erule conjE)
    assume "\<forall>i<length hits.
            getRecencyBonus rt (clockA i 0) (orElse (hit_publishedAt (hits ! i)) [])
          = getRecencyBonus rt (clockB i 0) (orElse (hit_publishedAt (hits ! i)) [])"
      and "\<forall>i<length hits.
            orElse (hit_publishedAt (hits ! i)) (toISOString rt (clockA i 1))
          = orElse (hit_publishedAt (hits ! i)) (toISOString rt (clockB i 1))"
    then show "scoreAndRank (rt\<lparr> Date_new := clockA \<rparr>) hitContext isRetry hits
        = scoreAndRank (rt\<lparr> Date_new := clockB \<rparr>) hitContext isRetry hits"
      by (rule scoreAndRank_cong)
  qed
  have p1: "sameInEveryAmbient (\<lambda>ambient. Spotify_parseInput input)"
    and p2: "sameInEveryAmbient (\<lambda>ambient. YouTube_parseInput input)"
    and p3: "sameInEveryAmbient (\<lambda>ambient. SoundCloud_parseInput input)"
    by (simp_all add: sameInEveryAmbient_def)
  have query: "\<not> sameInEveryAmbient
                   (\<lambda>ambient. generateSearchQuery (drawRandom ambient 0) ''happy'' False)"
  proof
    assume "sameInEveryAmbient
              (\<lambda>ambient. generateSearchQuery (drawRandom ambient 0) ''happy'' False)"
    then have "generateSearchQuery
                 (drawRandom \<lparr> readClock = (\<lambda>n. 0), drawRandom = (\<lambda>n. 3 / 10) \<rparr> 0) ''happy'' False
             = generateSearchQuery
                 (drawRandom \<lparr> readClock = (\<lambda>n. 0), drawRandom = (\<lambda>n. 7 / 10) \<rparr> 0) ''happy'' False"
      unfolding sameInEveryAmbient_def by blast
    then have "generateSearchQuery (3 / 10) ''happy'' False
             = generateSearchQuery (7 / 10) ''happy'' False"
      by simp
    with query_draws show False by contradiction
  qed
  show ?thesis
    by (rule conjI [OF aggregator conjI [OF adapter conjI [OF p1 conjI [OF p2 conjI [OF p3 query]]]]])
qed

theorem ranking_fixed_by_recency_witness:
  "uniqueTracks [recentTrack, olderTrack] = [recentTrack, olderTrack]
   \<and> publishedWithinYear parseDates (november2025 0) recentTrack
       = publishedWithinYear parseDates (laterNovember2025 0) recentTrack
   \<and> publishedWithinYear parseDates (november2025 1) olderTrack
       = publishedWithinYear parseDates (laterNovember2025 1) olderTrack
   \<and> mergeAndRankResults parseDates november2025 [recentTrack, olderTrack] ''study'' 10
     = mergeAndRankResults parseDates laterNovember2025 [recentTrack, olderTrack] ''study'' 10
   \<and> map (\<lambda>hit. orElse (hit_publishedAt hit) []) studyHits
       = [''2025-01-01T00:00:00Z'', ''2015-01-01T00:00:00Z'']
   \<and> getRecencyBonus youtubeDates (november2025Dates 0 0) ''2025-01-01T00:00:00Z'' = 2
   \<and> getRecencyBonus youtubeDates (laterNovember2025Dates 0 0) ''2025-01-01T00:00:00Z'' = 2
   \<and> getRecencyBonus youtubeDates (november2025Dates 1 0) ''2015-01-01T00:00:00Z'' = 0
   \<and> getRecencyBonus youtubeDates (laterNovember2025Dates 1 0) ''2015-01-01T00:00:00Z'' = 0
   \<and> scoreAndRank (youtubeDates\<lparr> Date_new := november2025Dates \<rparr>) ''late night study'' False
         studyHits
     = scoreAndRank (youtubeDates\<lparr> Date_new := laterNovember2025Dates \<rparr>) ''late night study''
         False studyHits
   \<and> sameInEveryAmbient (\<lambda>ambient. YouTube_parseInput ''late night study'')"
proof -
  have h: "\<forall>i<length (uniqueTracks [recentTrack, olderTrack]).
       publishedWithinYear parseDates (november2025 i) (uniqueTracks [recentTrack, olderTrack] ! i)
     = publishedWithinYear parseDates (laterNovember2025 i) (uniqueTracks [recentTrack, olderTrack] ! i)"
    by (simp add: example_unique recency_parts less_Suc_eq)
  have dates: "map (\<lambda>hit. orElse (hit_publishedAt hit) []) studyHits
                 = [''2025-01-01T00:00:00Z'', ''2015-01-01T00:00:00Z'']"
    by (simp add: studyHits_def orElse_def)
  have b: "getRecencyBonus youtubeDates (november2025Dates i 0) ''2025-01-01T00:00:00Z'' = 2"
    "getRecencyBonus youtubeDates (laterNovember2025Dates i 0) ''2025-01-01T00:00:00Z'' = 2"
    "getRecencyBonus youtubeDates (november2025Dates i 0) ''2015-01-01T00:00:00Z'' = 0"
    "getRecencyBonus youtubeDates (laterNovember2025Dates i 0) ''2015-01-01T00:00:00Z'' = 0" for i
    by (simp_all add: getRecencyBonus_def youtubeDates_def parseDates_def november2025Dates_def
          laterNovember2025Dates_def)
  have at: "orElse (hit_publishedAt (studyHits ! 0)) d = ''2025-01-01T00:00:00Z''"
    "orElse (hit_publishedAt (studyHits ! Suc 0)) d = ''2015-01-01T00:00:00Z''" for d
    by (simp_all add: studyHits_def orElse_def)
  have hb: "\<forall>i<length studyHits.
        getRecencyBonus youtubeDates (november2025Dates i 0) (orElse (hit_publishedAt (studyHits ! i)) [])
      = getRecencyBonus youtubeDates (laterNovember2025Dates i 0)
          (orElse (hit_publishedAt (studyHits ! i)) [])"
  proof (intro allI impI)
    fix i assume "i < length studyHits"
    then have "i = 0 \<or> i = Suc 0" by (auto simp: studyHits_def)
    then show "getRecencyBonus youtubeDates (november2025Dates i 0)
                 (orElse (hit_publishedAt (studyHits ! i)) [])
             = getRecencyBonus youtubeDates (laterNovember2025Dates i 0)
                 (orElse (hit_publishedAt (studyHits ! i)) [])"
      by (auto simp: at b)
  qed
  have hs: "\<forall>i<length studyHits.
        orElse (hit_publishedAt (studyHits ! i)) (toISOString youtubeDates (november2025Dates i 1))
      = orElse (hit_publishedAt (studyHits ! i)) (toISOString youtubeDates (laterNovember2025Dates i 1))"
  proof (intro allI impI)
    fix i assume "i < length studyHits"
    then have "i = 0 \<or> i = Suc 0" by (auto simp: studyHits_def)
    then show "orElse (hit_publishedAt (studyHits ! i)) (toISOString youtubeDates (november2025Dates i 1))
      = orElse (hit_publishedAt (studyHits ! i)) (toISOString youtubeDates (laterNovember2025Dates i 1))"
      by (auto simp: at)
  qed
  from ranking_fixed_by_recency [where candidates = "[recentTrack, olderTrack]"
      and parseDate = parseDates and ?clock1.0 = november2025 and ?clock2.0 = laterNovember2025
      and searchContext = "''study''" and maxRes = 10
      and hits = studyHits and rt = youtubeDates and clockA = november2025Dates
      and clockB = laterNovember2025Dates and hitContext = "''late night study''"
      and isRetry = False and input = "''late night study''"]
    h hb hs
  have "mergeAndRankResults parseDates november2025 [recentTrack, olderTrack] ''study'' 10
     = mergeAndRankResults parseDates laterNovember2025 [recentTrack, olderTrack] ''study'' 10"
    and "scoreAndRank (youtubeDates\<lparr> Date_new := november2025Dates \<rparr>) ''late night study'' False
         studyHits
     = scoreAndRank (youtubeDates\<lparr> Date_new := laterNovember2025Dates \<rparr>) ''late night study''
         False studyHits"
    and "sameInEveryAmbient (\<lambda>ambient. YouTube_parseInput ''late night study'')"
    by blast+
  with dates b [of 0] b [of 1] show ?thesis
    by (simp add: example_unique recency_parts)
qed

section \<open>Retry on low results, preview filter\<close>

text \<open>
  Claim C6 as stated fails: it is a property of the YouTube adapter only. The Spotify
  adapter, whose one search finds two tracks with a preview here, sends no second
  query and returns these two tracks.
\<close>

theorem spotify_single_query_counterexample:
  "fst (Spotify_searchMusic_trace twoPreviewsSpotify ''happy'') = [''happy year:2020-2025'']
   \<and> map_sum id (\<lambda>r. length (tracks r)) (Spotify_searchMusic twoPreviewsSpotify ''happy'') = Inr 2"
  by (simp add: Spotify_searchMusic_def twoPreviews_trace)

text \<open>
  Claim C6, amended. In the YouTube adapter, when the first search yields fewer than 5
  tracks, \<open>performSearch\<close> is called a second time on the same input with \<open>isRetry\<close>,
  whose query carries only the first three of the ten exclusion terms. If that search
  yields at least 5 tracks its response is returned. If it yields fewer, a third search
  runs on the input extended by \<open>playlist mix\<close>, and the response holds the first ten of
  the tracks of the second and third search, one per \<open>videoId\<close> (first occurrence),
  with \<open>totalResults\<close> the number of distinct ids.
\<close>

theorem youtube_retry_on_low_results:
  assumes first: "searchAndRank api (generateSearchQuery (Math_random api 0) v False) v False = Inr r1"
    and low: "length (tracks r1) < 5"
  shows "take 2 (fst (YouTube_searchMusic_trace api v)) =
           [\<lparr> searchInput = v, retry = False,
               sentQuery = generateSearchQuery (Math_random api 0) v False \<rparr>,
            \<lparr> searchInput = v, retry = True,
               sentQuery = generateSearchQuery (Math_random api 1) v True \<rparr>]
    \<and> exclusions False = exclusions True @ [''-interview'', ''-vlog'', ''-news'', ''-documentary'',
                                                 ''-podcast'', ''-talk'', ''-lecture'']
    \<and> (\<forall>r2. searchAndRank api (generateSearchQuery (Math_random api 1) v True) v True = Inr r2
            \<and> 5 \<le> length (tracks r2) \<longrightarrow>
          length (fst (YouTube_searchMusic_trace api v)) = 2
          \<and> YouTube_searchMusic api v = Inr r2)
    \<and> (\<forall>r2. searchAndRank api (generateSearchQuery (Math_random api 1) v True) v True = Inr r2
            \<and> length (tracks r2) < 5 \<longrightarrow>
          drop 2 (fst (YouTube_searchMusic_trace api v)) =
            [\<lparr> searchInput = v @ '' playlist mix'', retry = True,
                sentQuery = generateSearchQuery (Math_random api 2) (v @ '' playlist mix'') True \<rparr>]
          \<and> (\<forall>r3. searchAndRank api
                      (generateSearchQuery (Math_random api 2) (v @ '' playlist mix'') True)
                      (v @ '' playlist mix'') True = Inr r3 \<longrightarrow>
                YouTube_searchMusic api v =
                  Inr \<lparr> tracks = take 10 (uniqueBy videoId (tracks r2 @ tracks r3)),
                        totalResults = length (uniqueBy videoId (tracks r2 @ tracks r3)) \<rparr>
                \<and> distinct (map videoId (uniqueBy videoId (tracks r2 @ tracks r3)))
                \<and> videoId ` set (uniqueBy videoId (tracks r2 @ tracks r3))
                    = videoId ` (set (tracks r2) \<union> set (tracks r3))))"
proof -
  let ?c1 = "\<lparr> searchInput = v, retry = False,
               sentQuery = generateSearchQuery (Math_random api 0) v False \<rparr>"
  let ?c2 = "\<lparr> searchInput = v, retry = True,
               sentQuery = generateSearchQuery (Math_random api 1) v True \<rparr>"
  let ?c3 = "\<lparr> searchInput = v @ '' playlist mix'', retry = True,
               sentQuery = generateSearchQuery (Math_random api 2) (v @ '' playlist mix'') True \<rparr>"
  let ?o2 = "searchAndRank api (generateSearchQuery (Math_random api 1) v True) v True"
  let ?o3 = "searchAndRank api (generateSearchQuery (Math_random api 2) (v @ '' playlist mix'') True)
               (v @ '' playlist mix'') True"
  from first have p1: "performSearch api 0 v False = (?c1, Inr r1)"
    by (simp add: performSearch_def Let_def)
  have p2: "performSearch api (Suc 0) v True = (?c2, ?o2)"
    by (simp add: performSearch_def Let_def)
  have p3: "performSearch api 2 (v @ '' playlist mix'') True = (?c3, ?o3)"
    by (simp add: performSearch_def Let_def)
  have second_high: "YouTube_searchMusic_trace api v = ([?c1, ?c2], Inr r2)"
    if "?o2 = Inr r2" and "5 \<le> length (tracks r2)" for r2
    using that low by (simp add: YouTube_searchMusic_trace_def p1 p2)
  have second_failed: "YouTube_searchMusic_trace api v = ([?c1, ?c2], Inl YouTube_failed)"
    if "?o2 = Inl e" for e
    using that low by (simp add: YouTube_searchMusic_trace_def p1 p2)
  have third_failed: "YouTube_searchMusic_trace api v = ([?c1, ?c2, ?c3], Inl YouTube_failed)"
    if "?o2 = Inr r2" and "length (tracks r2) < 5" and "?o3 = Inl e" for r2 e
    using that low by (simp add: YouTube_searchMusic_trace_def p1 p2 p3 Let_def)
  have third_done: "YouTube_searchMusic_trace api v =
      ([?c1, ?c2, ?c3],
       Inr \<lparr> tracks = take 10 (uniqueBy videoId (tracks r2 @ tracks r3)),
             totalResults = length (uniqueBy videoId (tracks r2 @ tracks r3)) \<rparr>)"
    if "?o2 = Inr r2" and "length (tracks r2) < 5" and "?o3 = Inr r3" for r2 r3
    using that low by (simp add: YouTube_searchMusic_trace_def p1 p2 p3 Let_def)
  have twoCalls: "take 2 (fst (YouTube_searchMusic_trace api v)) = [?c1, ?c2]"
  proof (cases ?o2)
    case (Inl e)
    from second_failed [OF Inl] show ?thesis by simp
  next
    case (Inr r2)
    show ?thesis
    proof (cases "length (tracks r2) < 5")
      case False
      with second_high [OF Inr] show ?thesis by simp
    next
      case True
      show ?thesis
      proof (cases ?o3)
        case (Inl e)
        from third_failed [OF Inr True Inl] show ?thesis by simp
      next
        case r3: (Inr r3)
        from third_done [OF Inr True r3] show ?thesis by simp
      qed
    qed
  qed
  have high: "\<forall>r2. ?o2 = Inr r2 \<and> 5 \<le> length (tracks r2) \<longrightarrow>
          length (fst (YouTube_searchMusic_trace api v)) = 2
          \<and> YouTube_searchMusic api v = Inr r2"
  proof (intro allI impI)
    fix r2 assume "?o2 = Inr r2 \<and> 5 \<le> length (tracks r2)"
    then have "YouTube_searchMusic_trace api v = ([?c1, ?c2], Inr r2)"
      using second_high [of r2] by blast
    then show "length (fst (YouTube_searchMusic_trace api v)) = 2
          \<and> YouTube_searchMusic api v = Inr r2"
      by (simp add: YouTube_searchMusic_def)
  qed
  have lowAgain: "\<forall>r2. ?o2 = Inr r2 \<and> length (tracks r2) < 5 \<longrightarrow>
          drop 2 (fst (YouTube_searchMusic_trace api v)) = [?c3]
          \<and> (\<forall>r3. ?o3 = Inr r3 \<longrightarrow>
                YouTube_searchMusic api v =
                  Inr \<lparr> tracks = take 10 (uniqueBy videoId (tracks r2 @ tracks r3)),
                        totalResults = length (uniqueBy videoId (tracks r2 @ tracks r3)) \<rparr>
                \<and> distinct (map videoId (uniqueBy videoId (tracks r2 @ tracks r3)))
                \<and> videoId ` set (uniqueBy videoId (tracks r2 @ tracks r3))
                    = videoId ` (set (tracks r2) \<union> set (tracks r3)))"
  proof (intro allI impI)
    fix r2 assume a: "?o2 = Inr r2 \<and> length (tracks r2) < 5"
    then have o2: "?o2 = Inr r2" and l2: "length (tracks r2) < 5" by simp_all
    have d: "drop 2 (fst (YouTube_searchMusic_trace api v)) = [?c3]"
    proof (cases ?o3)
      case (Inl e)
      from third_failed [OF o2 l2 Inl] show ?thesis by simp
    next
      case (Inr r3)
      from third_done [OF o2 l2 Inr] show ?thesis by simp
    qed
    have u: "\<forall>r3. ?o3 = Inr r3 \<longrightarrow>
                YouTube_searchMusic api v =
                  Inr \<lparr> tracks = take 10 (uniqueBy videoId (tracks r2 @ tracks r3)),
                        totalResults = length (uniqueBy videoId (tracks r2 @ tracks r3)) \<rparr>
                \<and> distinct (map videoId (uniqueBy videoId (tracks r2 @ tracks r3)))
                \<and> videoId ` set (uniqueBy videoId (tracks r2 @ tracks r3))
                    = videoId ` (set (tracks r2) \<union> set (tracks r3))"
    proof (intro allI impI)
      fix r3 assume o3: "?o3 = Inr r3"
      from third_done [OF o2 l2 o3]
      have res: "YouTube_searchMusic api v =
                  Inr \<lparr> tracks = take 10 (uniqueBy videoId (tracks r2 @ tracks r3)),
                        totalResults = length (uniqueBy videoId (tracks r2 @ tracks r3)) \<rparr>"
        by (simp add: YouTube_searchMusic_def)
      have dist: "distinct (map videoId (uniqueBy videoId (tracks r2 @ tracks r3)))"
        by (simp add: uniqueBy_keepFirst keepFirst_distinct)
      have keys: "videoId ` set (uniqueBy videoId (tracks r2 @ tracks r3))
                    = videoId ` (set (tracks r2) \<union> set (tracks r3))"
        by (simp add: uniqueBy_keepFirst keepFirst_keys)
      show "YouTube_searchMusic api v =
                  Inr \<lparr> tracks = take 10 (uniqueBy videoId (tracks r2 @ tracks r3)),
                        totalResults = length (uniqueBy videoId (tracks r2 @ tracks r3)) \<rparr>
                \<and> distinct (map videoId (uniqueBy videoId (tracks r2 @ tracks r3)))
                \<and> videoId ` set (uniqueBy videoId (tracks r2 @ tracks r3))
                    = videoId ` (set (tracks r2) \<union> set (tracks r3))"
        by (rule conjI [OF res conjI [OF dist keys]])
    qed
    show "drop 2 (fst (YouTube_searchMusic_trace api v)) = [?c3]
          \<and> (\<forall>r3. ?o3 = Inr r3 \<longrightarrow>
                YouTube_searchMusic api v =
                  Inr \<lparr> tracks = take 10 (uniqueBy videoId (tracks r2 @ tracks r3)),
                        totalResults = length (uniqueBy videoId (tracks r2 @ tracks r3)) \<rparr>
                \<and> distinct (map videoId (uniqueBy videoId (tracks r2 @ tracks r3)))
                \<and> videoId ` set (uniqueBy videoId (tracks r2 @ tracks r3))
                    = videoId ` (set (tracks r2) \<union> set (tracks r3)))"
      by (rule conjI [OF d u])
  qed
  show ?thesis
    by (rule conjI [OF twoCalls conjI [OF exclusions_broader conjI [OF high lowAgain]]])
qed

theorem youtube_retry_on_low_results_witness:
  "searchAndRank lowResultsYouTube
      (generateSearchQuery (Math_random lowResultsYouTube 0) ''happy'' False) ''happy'' False
     = Inr \<lparr> tracks = [ytHit ''a'', ytHit ''b''], totalResults = 2 \<rparr>
   \<and> map (\<lambda>c. (searchInput c, retry c)) (take 2 (fst (YouTube_searchMusic_trace lowResultsYouTube ''happy'')))
       = [(''happy'', False), (''happy'', True)]
   \<and> map (\<lambda>c. (searchInput c, retry c)) (drop 2 (fst (YouTube_searchMusic_trace lowResultsYouTube ''happy'')))
       = [(''happy playlist mix'', True)]
   \<and> YouTube_searchMusic lowResultsYouTube ''happy''
       = Inr \<lparr> tracks = [ytHit ''a'', ytHit ''b'', ytHit ''c'', ytHit ''d''], totalResults = 4 \<rparr>"
proof -
  let ?r1 = "\<lparr> tracks = [ytHit ''a'', ytHit ''b''], totalResults = 2 \<rparr> :: YouTubeTrack SearchResponse"
  let ?r2 = "\<lparr> tracks = [ytHit ''a'', ytHit ''b'', ytHit ''c''], totalResults = 3 \<rparr>
               :: YouTubeTrack SearchResponse"
  let ?r3 = "\<lparr> tracks = [ytHit ''c'', ytHit ''d''], totalResults = 2 \<rparr> :: YouTubeTrack SearchResponse"
  have o1: "searchAndRank lowResultsYouTube
      (generateSearchQuery (Math_random lowResultsYouTube 0) ''happy'' False) ''happy'' False = Inr ?r1"
    by (simp add: lowResultsYouTube_def)
  have low: "length (tracks ?r1) < 5" by simp
  have o2: "searchAndRank lowResultsYouTube
      (generateSearchQuery (Math_random lowResultsYouTube 1) ''happy'' True) ''happy'' True = Inr ?r2
      \<and> length (tracks ?r2) < 5"
    by (simp add: lowResultsYouTube_def)
  have o3: "searchAndRank lowResultsYouTube
      (generateSearchQuery (Math_random lowResultsYouTube 2) (''happy'' @ '' playlist mix'') True)
      (''happy'' @ '' playlist mix'') True = Inr ?r3"
    by (simp add: lowResultsYouTube_def)
  have uniq: "uniqueBy videoId (tracks ?r2 @ tracks ?r3)
                = [ytHit ''a'', ytHit ''b'', ytHit ''c'', ytHit ''d'']"
    by code_simp
  note T = youtube_retry_on_low_results [OF o1 low]
  from T have two: "take 2 (fst (YouTube_searchMusic_trace lowResultsYouTube ''happy'')) =
           [\<lparr> searchInput = ''happy'', retry = False,
               sentQuery = generateSearchQuery (Math_random lowResultsYouTube 0) ''happy'' False \<rparr>,
            \<lparr> searchInput = ''happy'', retry = True,
               sentQuery = generateSearchQuery (Math_random lowResultsYouTube 1) ''happy'' True \<rparr>]"
    by (rule conjunct1)
  from T o2 have third: "drop 2 (fst (YouTube_searchMusic_trace lowResultsYouTube ''happy'')) =
            [\<lparr> searchInput = ''happy'' @ '' playlist mix'', retry = True,
                sentQuery = generateSearchQuery (Math_random lowResultsYouTube 2)
                              (''happy'' @ '' playlist mix'') True \<rparr>]"
    by blast
  from T o2 o3 have "YouTube_searchMusic lowResultsYouTube ''happy'' =
                  Inr \<lparr> tracks = take 10 (uniqueBy videoId (tracks ?r2 @ tracks ?r3)),
                        totalResults = length (uniqueBy videoId (tracks ?r2 @ tracks ?r3)) \<rparr>"
    by blast
  then have res: "YouTube_searchMusic lowResultsYouTube ''happy''
       = Inr \<lparr> tracks = [ytHit ''a'', ytHit ''b'', ytHit ''c'', ytHit ''d''], totalResults = 4 \<rparr>"
    unfolding uniq by simp
  have a: "map (\<lambda>c. (searchInput c, retry c)) (take 2 (fst (YouTube_searchMusic_trace lowResultsYouTube ''happy'')))
       = [(''happy'', False), (''happy'', True)]"
    unfolding two by simp
  have b: "map (\<lambda>c. (searchInput c, retry c)) (drop 2 (fst (YouTube_searchMusic_trace lowResultsYouTube ''happy'')))
       = [(''happy playlist mix'', True)]"
    unfolding third by simp
  show ?thesis
    by (rule conjI [OF o1 conjI [OF a conjI [OF b res]]])
qed

text \<open>
  Claim C10. Every track the Spotify adapter returns has a non-empty preview URL and
  stems from a search hit with that \<open>preview_url\<close>; and when the search has hits but
  none with a non-empty \<open>preview_url\<close>, the adapter returns the empty track list with
  \<open>totalResults\<close> 0.
\<close>

theorem spotify_preview_only:
  "(Spotify_searchMusic api v = Inr r \<longrightarrow>
      (\<forall>t\<in>set (tracks r). previewUrl t \<noteq> []
         \<and> (\<exists>items. fetchSearch api (buildSearchQuery (currentYear api) v) = Inr (Some items)
               \<and> (\<exists>item\<in>set items. item_id item = sp_id t
                     \<and> preview_url item = Some (previewUrl t)))))
   \<and> (getAccessToken api = Inr token
        \<and> fetchSearch api (buildSearchQuery (currentYear api) v) = Inr (Some items)
        \<and> items \<noteq> []
        \<and> (\<forall>item\<in>set items. preview_url item = None \<or> preview_url item = Some []) \<longrightarrow>
      Spotify_searchMusic api v = Inr \<lparr> tracks = [], totalResults = 0 \<rparr>)"
proof (rule conjI)
  show "Spotify_searchMusic api v = Inr r \<longrightarrow>
      (\<forall>t\<in>set (tracks r). previewUrl t \<noteq> []
         \<and> (\<exists>items. fetchSearch api (buildSearchQuery (currentYear api) v) = Inr (Some items)
               \<and> (\<exists>item\<in>set items. item_id item = sp_id t
                     \<and> preview_url item = Some (previewUrl t))))"
  proof (rule impI, rule ballI)
    fix t
    assume ok: "Spotify_searchMusic api v = Inr r" and t: "t \<in> set (tracks r)"
    from Spotify_success_cases [OF ok] t obtain hits where
      hits: "fetchSearch api (buildSearchQuery (currentYear api) v) = Inr (Some hits)"
      and r: "tracks r = rankSpotify api v (filter hasPreview hits)"
      by auto
    from t r have "t \<in> set (rankSpotify api v (filter hasPreview hits))" by simp
    from rankSpotify_set [OF this] obtain item f
      where item: "item \<in> set (filter hasPreview hits)" and tf: "t = transformTrack item f"
      by blast
    from item have hp: "hasPreview item" and mem: "item \<in> set hits" by simp_all
    from transformTrack_preview [OF hp, of f] tf
    have "previewUrl t \<noteq> []" and "preview_url item = Some (previewUrl t)"
      and "item_id item = sp_id t"
      by simp_all
    with hits mem show "previewUrl t \<noteq> []
           \<and> (\<exists>items. fetchSearch api (buildSearchQuery (currentYear api) v) = Inr (Some items)
                 \<and> (\<exists>item\<in>set items. item_id item = sp_id t
                       \<and> preview_url item = Some (previewUrl t)))"
      by blast
  qed
next
  show "getAccessToken api = Inr token
        \<and> fetchSearch api (buildSearchQuery (currentYear api) v) = Inr (Some items)
        \<and> items \<noteq> []
        \<and> (\<forall>item\<in>set items. preview_url item = None \<or> preview_url item = Some []) \<longrightarrow>
      Spotify_searchMusic api v = Inr \<lparr> tracks = [], totalResults = 0 \<rparr>"
  proof (rule impI)
    assume a: "getAccessToken api = Inr token
          \<and> fetchSearch api (buildSearchQuery (currentYear api) v) = Inr (Some items)
          \<and> items \<noteq> []
          \<and> (\<forall>item\<in>set items. preview_url item = None \<or> preview_url item = Some [])"
    then have "\<forall>item\<in>set items. \<not> hasPreview item"
      by (auto simp: hasPreview_def)
    then have "filter hasPreview items = []" by (simp add: filter_empty_conv)
    with a show "Spotify_searchMusic api v = Inr \<lparr> tracks = [], totalResults = 0 \<rparr>"
      by (simp add: Spotify_searchMusic_def Spotify_searchMusic_trace_def Let_def)
  qed
qed

theorem spotify_preview_only_witness:
  "Spotify_searchMusic twoPreviewsSpotify ''happy'' =
     Inr \<lparr> tracks = [transformTrack (spotifyHit ''3'' (Some ''https://p.scdn.co/3'') 60) None,
                     transformTrack (spotifyHit ''1'' (Some ''https://p.scdn.co/1'') 40) None],
           totalResults = 2 \<rparr>
   \<and> previewUrl (transformTrack (spotifyHit ''3'' (Some ''https://p.scdn.co/3'') 60) None) \<noteq> []
   \<and> previewUrl (transformTrack (spotifyHit ''1'' (Some ''https://p.scdn.co/1'') 40) None) \<noteq> []
   \<and> getAccessToken noPreviewSpotify = Inr ''token''
   \<and> fetchSearch noPreviewSpotify (buildSearchQuery (currentYear noPreviewSpotify) ''happy'')
       = Inr (Some [spotifyHit ''2'' None 90, spotifyHit ''4'' (Some []) 80])
   \<and> preview_url (spotifyHit ''2'' None 90) = None
   \<and> preview_url (spotifyHit ''4'' (Some []) 80) = Some []
   \<and> Spotify_searchMusic noPreviewSpotify ''happy'' = Inr \<lparr> tracks = [], totalResults = 0 \<rparr>"
proof -
  let ?r = "\<lparr> tracks = [transformTrack (spotifyHit ''3'' (Some ''https://p.scdn.co/3'') 60) None,
                      transformTrack (spotifyHit ''1'' (Some ''https://p.scdn.co/1'') 40) None],
            totalResults = 2 \<rparr> :: SpotifyTrack SearchResponse"
  have ok: "Spotify_searchMusic twoPreviewsSpotify ''happy'' = Inr ?r"
    by (simp add: Spotify_searchMusic_def twoPreviews_trace)
  have tok: "getAccessToken noPreviewSpotify = Inr ''token''"
    and hits: "fetchSearch noPreviewSpotify (buildSearchQuery (currentYear noPreviewSpotify) ''happy'')
       = Inr (Some [spotifyHit ''2'' None 90, spotifyHit ''4'' (Some []) 80])"
    by (simp_all add: noPreviewSpotify_def)
  have none: "preview_url (spotifyHit ''2'' None 90) = None"
    "preview_url (spotifyHit ''4'' (Some []) 80) = Some []"
    by (simp_all add: spotifyHit_def)
  from spotify_preview_only [of twoPreviewsSpotify "''happy''" ?r] ok
  have a: "previewUrl (transformTrack (spotifyHit ''3'' (Some ''https://p.scdn.co/3'') 60) None) \<noteq> []"
    "previewUrl (transformTrack (spotifyHit ''1'' (Some ''https://p.scdn.co/1'') 40) None) \<noteq> []"
    by simp_all
  from spotify_preview_only [of noPreviewSpotify "''happy''" _ "''token''"
      "[spotifyHit ''2'' None 90, spotifyHit ''4'' (Some []) 80]"] tok hits none
  have b: "Spotify_searchMusic noPreviewSpotify ''happy'' = Inr \<lparr> tracks = [], totalResults = 0 \<rparr>"
    by simp
  from ok a tok hits none b show ?thesis by simp
qed

end
